(* ===== verification/Prelude.thy ===== *)
theory Prelude
  imports Main "HOL-Library.Word" "HOL-Library.Char_ord" "HOL-Library.List_Lexorder"
    "HOL-Library.Sublist"
begin

text \<open>
  What every component of the model shares: Go strings and byte slices, Go errors with
  wrapping (\<open>errors.Is\<close>, \<open>errors.Join\<close>, \<open>fmt.Errorf\<close>), calls that return a value or an
  error and move the state of their environment, and the functions of Go's \<open>strings\<close>
  package that the source uses, with the lemmas the components share about them.
\<close>

section \<open>Bytes, strings and slices\<close>

text \<open>
  A Go string is an immutable sequence of bytes and a HOL \<open>char\<close> is one byte, so a Go
  string is a \<open>string\<close>; conversions between \<open>string\<close> and \<open>[]byte\<close> copy bytes and are the
  identity here. A \<open>[]byte\<close> variable can also be \<open>nil\<close>, which the JSON encoder tells apart
  from an empty slice: a \<open>slice\<close> is an optional byte sequence.
\<close>

type_synonym bytes = string
type_synonym slice = "bytes option"

definition bytes_of :: "slice \<Rightarrow> bytes" where
  "bytes_of s = (case s of None \<Rightarrow> [] | Some b \<Rightarrow> b)"

lemma bytes_of_simps [simp]: "bytes_of None = []" "bytes_of (Some b) = b"
  by (simp_all add: bytes_of_def)

section \<open>Errors\<close>

text \<open>
  The package variables of the repository made by \<open>errors.New\<close>, each identified by its name
  (\<open>WH_\<close> marks the one of package \<open>winhello\<close> that shares its name with package \<open>keyring\<close>).
\<close>

datatype (plugins only: code size) sentinel =
    V_ErrNoAvailImpl | V_ErrKeyNotFound | V_ErrMetadataNeedsCredentials | V_ErrMetadataNotSupported
  | V_errCollectionNotFound
  | V_ErrEnvUnsetOrEmpty | V_OPErrClient | V_OPErrItemMultiple | V_OPErrItemTitleDuplicate
  | V_OPErrKeyring | V_OPConnectErrKeyring | V_OPSrvAccountErrClient | V_OPSrvAccountErrKeyring
  | V_OPDesktopErrClient | V_OPDesktopErrKeyring
  | V_WH_ErrKeyNotFound | V_errWinHelloWrapKey | V_errWinHelloUnwrapKey | V_errWinHelloEncrypt
  | V_errWinHelloDecrypt | V_errWinHelloRandom | V_errWinHelloAADMismatch
  | V_errWinHelloKeyNameMismatch | V_errWinHelloKeyWrapper | V_errWinHelloMissingAAD
  | V_errWinHelloEnvelopeVersion | V_errWinHelloEnvelopeProvider | V_errWinHelloEnvelopeKeyName
  | V_errWinHelloEnvelopeContentAlg | V_errWinHelloEnvelopeWrapAlg | V_errWinHelloEnvelopeNonce
  | V_errWinHelloEnvelopeWrappedCEK | V_errWinHelloEnvelopeCiphertext | V_errWinHelloEnvelopeAAD
  | V_errWinHelloNCryptEmptyInput | V_errWinHelloPassportKeyNotFound
  | V_errWinHelloPassportLogicalName | V_errWinHelloPassportCurrentUser
  | V_errWinHelloPassportKeyRequired | V_errWinHelloPassportKeyNameRequired
  | V_errWinHelloInvalidCEKSize

text \<open>
  Error values. A \<open>Sentinel\<close> is such a variable; \<open>Errno\<close> is a \<open>syscall.Errno\<close>; \<open>Wrapf\<close> is \<open>fmt.Errorf\<close> whose \<open>%w\<close>
  verbs wrap errors, \<open>Textf\<close> is \<open>fmt.Errorf\<close> or \<open>errors.New\<close> whose operands (listed) only
  appear in the text; \<open>Joined\<close> is \<open>errors.Join\<close>; \<open>Foreign\<close> is an error made by code outside
  the repository; \<open>GoPanic\<close> is no error value but the outcome of a call that panics.
  Diagnostic operands that are not errors are left out of the text.
\<close>

datatype goerr =
    Sentinel sentinel
  | Errno "64 word"
  | Wrapf string "goerr list"
  | Textf string "goerr list"
  | Joined "goerr list"
  | Foreign string
  | GoPanic string

definition is_panic :: "goerr \<Rightarrow> bool" where
  "is_panic e = (case e of GoPanic p \<Rightarrow> True | _ \<Rightarrow> False)"

lemma is_panic_simps [simp]:
  "is_panic (GoPanic p)" "\<not> is_panic (Sentinel v)" "\<not> is_panic (Errno n)" "\<not> is_panic (Wrapf s es)"
  "\<not> is_panic (Textf s es)" "\<not> is_panic (Joined es)" "\<not> is_panic (Foreign s)"
  by (simp_all add: is_panic_def)

text \<open>\<open>errors.Is\<close>: the error itself or one it wraps, through every \<open>%w\<close> and \<open>errors.Join\<close>.\<close>

fun errors_Is :: "goerr \<Rightarrow> goerr \<Rightarrow> bool" where
  "errors_Is (Wrapf s es) t = (Wrapf s es = t \<or> list_ex (\<lambda>e. errors_Is e t) es)"
| "errors_Is (Joined es) t = (Joined es = t \<or> list_ex (\<lambda>e. errors_Is e t) es)"
| "errors_Is e t = (e = t)"

lemma errors_Is_refl [simp]: "errors_Is e e"
  by (cases e) simp_all

section \<open>Calls\<close>

text \<open>
  A call returns an error or a value and moves the state of its environment. Where the
  source returns a value next to a non-nil error, the value is the zero value or unused.
\<close>

type_synonym 'a res = "goerr + 'a"
type_synonym ('w, 'a) call = "'w \<Rightarrow> 'a res \<times> 'w"

text \<open>\<open>x, err := m(); if err != nil { return err }\<close>, then the rest of the function.\<close>

definition go_try :: "('w, 'a) call \<Rightarrow> ('a \<Rightarrow> ('w, 'b) call) \<Rightarrow> ('w, 'b) call" where
  "go_try m f = (\<lambda>w. case m w of (Inl e, w') \<Rightarrow> (Inl e, w') | (Inr x, w') \<Rightarrow> f x w')"

text \<open>The same with the error rewritten before it is returned, as \<open>fmt.Errorf\<close> does.\<close>

definition go_tryE ::
  "(goerr \<Rightarrow> goerr) \<Rightarrow> ('w, 'a) call \<Rightarrow> ('a \<Rightarrow> ('w, 'b) call) \<Rightarrow> ('w, 'b) call" where
  "go_tryE h m f = (\<lambda>w. case m w of (Inl e, w') \<Rightarrow> (Inl (h e), w') | (Inr x, w') \<Rightarrow> f x w')"

definition go_return :: "'a \<Rightarrow> ('w, 'a) call" where
  "go_return x = (\<lambda>w. (Inr x, w))"

definition go_fail :: "goerr \<Rightarrow> ('w, 'a) call" where
  "go_fail e = (\<lambda>w. (Inl e, w))"

definition go_lift :: "'a res \<Rightarrow> ('w, 'a) call" where
  "go_lift r = (\<lambda>w. (r, w))"

text \<open>
  Wrapping an error with \<open>%w\<close>, alone or after other errors. A panic is not an error value and is
  not wrapped: it ends the call as it is.
\<close>

definition wrap_errs :: "string \<Rightarrow> goerr list \<Rightarrow> goerr \<Rightarrow> goerr" where
  "wrap_errs s es e = (case e of GoPanic p \<Rightarrow> GoPanic p | _ \<Rightarrow> Wrapf s (es @ [e]))"

definition wrap_err :: "string \<Rightarrow> goerr \<Rightarrow> goerr" where
  "wrap_err s = wrap_errs s []"

text \<open>Errors formatted with \<open>%v\<close> only appear in the text of the new error; a panic goes through.\<close>

definition textf_err :: "string \<Rightarrow> goerr \<Rightarrow> goerr" where
  "textf_err s e = (case e of GoPanic p \<Rightarrow> GoPanic p | _ \<Rightarrow> Textf s [e])"

lemma wrap_errs_panic [simp]:
  "wrap_errs s es e = GoPanic p \<longleftrightarrow> e = GoPanic p"
  "wrap_err s e = GoPanic p \<longleftrightarrow> e = GoPanic p"
  by (cases e; simp add: wrap_err_def wrap_errs_def)+

named_theorems call_simps "definitions of the call combinators"

lemma call_unfold [call_simps]:
  "go_try m f w = (case m w of (Inl e, w') \<Rightarrow> (Inl e, w') | (Inr x, w') \<Rightarrow> f x w')"
  "go_tryE h m f w = (case m w of (Inl e, w') \<Rightarrow> (Inl (h e), w') | (Inr x, w') \<Rightarrow> f x w')"
  "go_return x w = (Inr x, w)"
  "go_fail e w = (Inl e, w)"
  "go_lift r w = (r, w)"
  by (simp_all add: go_try_def go_tryE_def go_return_def go_fail_def go_lift_def)

lemma go_try_Inr: "m w = (Inr x, w') \<Longrightarrow> go_try m f w = f x w'"
  by (simp add: call_simps)

lemma go_try_Inl: "m w = (Inl e, w') \<Longrightarrow> go_try m f w = (Inl e, w')"
  by (simp add: call_simps)

lemma go_tryE_Inr: "m w = (Inr x, w') \<Longrightarrow> go_tryE h m f w = f x w'"
  by (simp add: call_simps)

lemma go_tryE_Inl: "m w = (Inl e, w') \<Longrightarrow> go_tryE h m f w = (Inl (h e), w')"
  by (simp add: call_simps)

lemmas call_steps = go_try_Inr go_try_Inl go_tryE_Inr go_tryE_Inl

text \<open>Splitting a call that is known to succeed, or known to fail, into its steps.\<close>

lemma go_try_eq_Inr:
  "go_try m f w = (Inr y, w2) \<longleftrightarrow> (\<exists>x w1. m w = (Inr x, w1) \<and> f x w1 = (Inr y, w2))"
  by (auto simp: call_simps split: prod.splits sum.splits)

lemma go_tryE_eq_Inr:
  "go_tryE h m f w = (Inr y, w2) \<longleftrightarrow> (\<exists>x w1. m w = (Inr x, w1) \<and> f x w1 = (Inr y, w2))"
  by (auto simp: call_simps split: prod.splits sum.splits)

lemmas call_success = go_try_eq_Inr go_tryE_eq_Inr

text \<open>
  A method of an object that changes the object works on the pair of object and world; a call in
  it that only moves the world.
\<close>

definition on_world :: "('w, 'a) call \<Rightarrow> ('k \<times> 'w, 'a) call" where
  "on_world m = (\<lambda>(b, w). case m w of (r, w) \<Rightarrow> (r, (b, w)))"

section \<open>Go's strings package\<close>

definition HasPrefix :: "string \<Rightarrow> string \<Rightarrow> bool" where
  "HasPrefix s p = (take (length p) s = p)"

definition TrimPrefix :: "string \<Rightarrow> string \<Rightarrow> string" where
  "TrimPrefix s p = (if HasPrefix s p then drop (length p) s else s)"

named_theorems string_simps "rewrite rules for the functions of Go's strings package"

lemma HasPrefix_append [simp, string_simps]: "HasPrefix (p @ s) p"
  by (simp add: HasPrefix_def)

lemma TrimPrefix_append [simp, string_simps]: "TrimPrefix (p @ s) p = s"
  by (simp add: TrimPrefix_def)

lemma HasPrefix_iff: "HasPrefix s p \<longleftrightarrow> (\<exists>t. s = p @ t)"
  by (metis HasPrefix_append HasPrefix_def append_take_drop_id)

lemma TrimPrefix_eq: "HasPrefix s p \<Longrightarrow> p @ TrimPrefix s p = s"
  by (metis HasPrefix_iff TrimPrefix_append)

text \<open>
  \<open>strings.TrimSpace(s) == ""\<close>: every character of the string is white space, which for the bytes
  of UTF-8 means the ASCII spaces, U+0085, U+00A0, U+1680, U+2000 to U+200A, U+2028, U+2029,
  U+202F, U+205F and U+3000.
\<close>

fun all_space :: "string \<Rightarrow> bool" where
  "all_space [] = True"
| "all_space (c # r) =
     (let b = of_char c :: nat in
      if b \<in> {9, 10, 11, 12, 13, 32} then all_space r
      else if b = 194 then
        (case r of c1 # r \<Rightarrow> of_char c1 \<in> {133, 160 :: nat} \<and> all_space r | _ \<Rightarrow> False)
      else if b = 225 then
        (case r of c1 # c2 # r \<Rightarrow> of_char c1 = (154 :: nat) \<and> of_char c2 = (128 :: nat) \<and> all_space r
         | _ \<Rightarrow> False)
      else if b = 226 then
        (case r of c1 # c2 # r \<Rightarrow>
           (of_char c1 = (128 :: nat) \<and>
              (128 \<le> (of_char c2 :: nat) \<and> (of_char c2 :: nat) \<le> 138 \<or> of_char c2 \<in> {168, 169, 175 :: nat}) \<or>
            of_char c1 = (129 :: nat) \<and> of_char c2 = (159 :: nat)) \<and> all_space r
         | _ \<Rightarrow> False)
      else if b = 227 then
        (case r of c1 # c2 # r \<Rightarrow> of_char c1 = (128 :: nat) \<and> of_char c2 = (128 :: nat) \<and> all_space r
         | _ \<Rightarrow> False)
      else False)"

text \<open>\<open>strings.Split(s, sep)\<close> for a one-byte separator: never empty.\<close>

fun Split :: "char \<Rightarrow> string \<Rightarrow> string list" where
  "Split c [] = [[]]"
| "Split c (x # xs) =
     (if x = c then [] # Split c xs
      else (case Split c xs of [] \<Rightarrow> [[x]] | f # fs \<Rightarrow> (x # f) # fs))"

lemma Split_nonempty [simp]: "Split c s \<noteq> []"
  by (induction s) (auto split: list.splits)

lemma Split_no_sep: "c \<notin> set s \<Longrightarrow> Split c s = [s]"
  by (induction s) auto

lemma Split_append_sep: "c \<notin> set a \<Longrightarrow> Split c (a @ c # b) = a # Split c b"
  by (induction a) auto

section \<open>Quoting\<close>

text \<open>
  \<open>%q\<close> of a string: quotes, backslashes and control characters are escaped. Bytes of UTF-8 stay as
  they are, as they do for printable characters.
\<close>

definition hex_digit :: "nat \<Rightarrow> char" where
  "hex_digit n = ''0123456789abcdef'' ! n"

definition quote_char :: "char \<Rightarrow> string" where
  "quote_char c =
     (let b = of_char c :: nat in
      case map_of (zip [7, 8, 9, 10, 11, 12, 13] ''abtnvfr'') b of
        Some e \<Rightarrow> [CHR 0x5C, e]
      | None \<Rightarrow>
          if b = 34 \<or> b = 92 then [CHR 0x5C, c]
          else if b < 32 \<or> b = 127 then [CHR 0x5C, CHR ''x'', hex_digit (b div 16), hex_digit (b mod 16)]
          else [c])"

definition go_quote :: "string \<Rightarrow> string" where
  "go_quote s = [CHR 0x22] @ concat (map quote_char s) @ [CHR 0x22]"

section \<open>Shared facts on lists and maps\<close>

lemma distinct_map_filter_inj:
  "distinct xs \<Longrightarrow> inj_on f {x \<in> set xs. P x} \<Longrightarrow> distinct (map f (filter P xs))"
  by (simp add: distinct_map)

lemma distinct_set_singleton: "set l = {x} \<Longrightarrow> distinct l \<Longrightarrow> l = [x]"
  by (cases l; cases "tl l") auto

lemma map_upd_Some_iff [simp]: "(m(k \<mapsto> v)) k' = Some v' \<longleftrightarrow> (if k' = k then v' = v else m k' = Some v')"
  by auto

end
