(* ===== verification/Keyring_API.thy ===== *)
theory Keyring_API
  imports Prelude
begin

text \<open>
  \<open>keyring.go\<close> and \<open>config.go\<close>: the items, the configuration, the order in which backends
  are tried, \<open>AvailableBackends\<close> and \<open>Open\<close>. The \<open>Keyring\<close> interface that every backend
  implements is the locale \<open>keyring_contract\<close>; the client lemmas proved in it hold for every
  backend that interprets it.
\<close>

section \<open>Items, metadata, configuration\<close>

record Item =
  Key :: string
  Data :: slice
  Label :: string
  Description :: string
  KeychainNotTrustApplication :: bool
  KeychainNotSynchronizable :: bool

text \<open>The zero value \<open>Item{}\<close>.\<close>

definition zero_Item :: Item where
  "zero_Item = \<lparr>Key = [], Data = None, Label = [], Description = [],
     KeychainNotTrustApplication = False, KeychainNotSynchronizable = False\<rparr>"

text \<open>What a backend that stores the data alone keeps of an item: its key and its bytes.\<close>

definition key_data :: "Item \<Rightarrow> string \<times> bytes" where
  "key_data i = (Key i, bytes_of (Data i))"

text \<open>\<open>time.Time\<close> as nanoseconds; the zero time is 0.\<close>

type_synonym time = int

record Metadata =
  MetaItem :: "Item option"
  ModificationTime :: time

definition zero_Metadata :: Metadata where
  "zero_Metadata = \<lparr>MetaItem = None, ModificationTime = 0\<rparr>"

type_synonym BackendType = string

text \<open>A \<open>PromptFunc\<close> may talk to the user; a nil function value is \<open>None\<close>.\<close>

type_synonym 'w PromptFunc = "string \<Rightarrow> ('w, string) call"

record 'w Config =
  AllowedBackends :: "BackendType list option"
  ServiceName :: string
  KeychainName :: string
  KeychainTrustApplication :: bool
  KeychainSynchronizable :: bool
  KeychainAccessibleWhenUnlocked :: bool
  KeychainPasswordFunc :: "'w PromptFunc option"
  FilePasswordFunc :: "'w PromptFunc option"
  FileDir :: string
  KeyCtlScope :: string
  KeyCtlPerm :: "32 word"
  KWalletAppID :: string
  KWalletFolder :: string
  LibSecretCollectionName :: string
  PassDir :: string
  PassCmd :: string
  PassPrefix :: string
  WinCredPrefix :: string
  UseBiometrics :: bool
  TouchIDAccount :: string
  TouchIDService :: string
  OPTimeout :: "64 word"
  OPVaultID :: string
  cfg_OPItemTitlePrefix :: string
  cfg_OPItemTag :: string
  cfg_OPItemFieldTitle :: string
  OPConnectHost :: string
  OPConnectTokenEnv :: string
  OPTokenEnv :: string
  OPTokenFunc :: "'w PromptFunc option"
  OPDesktopAccountID :: string

text \<open>\<open>FixedStringPrompt\<close> (\<open>prompt.go\<close>): a prompt that always answers with the given value.\<close>

definition FixedStringPrompt :: "string \<Rightarrow> 'w PromptFunc" where
  "FixedStringPrompt value = (\<lambda>_. go_return value)"

section \<open>Errors of the package\<close>

abbreviation ErrNoAvailImpl :: goerr where "ErrNoAvailImpl \<equiv> Sentinel V_ErrNoAvailImpl"
abbreviation ErrKeyNotFound :: goerr where "ErrKeyNotFound \<equiv> Sentinel V_ErrKeyNotFound"
abbreviation ErrMetadataNeedsCredentials :: goerr where
  "ErrMetadataNeedsCredentials \<equiv> Sentinel V_ErrMetadataNeedsCredentials"
abbreviation ErrMetadataNotSupported :: goerr where
  "ErrMetadataNotSupported \<equiv> Sentinel V_ErrMetadataNotSupported"

section \<open>Backends and Open\<close>

definition InvalidBackend :: BackendType where "InvalidBackend = ''''"
definition SecretServiceBackend :: BackendType where "SecretServiceBackend = ''secret-service''"
definition KeychainBackend :: BackendType where "KeychainBackend = ''keychain''"
definition KeyCtlBackend :: BackendType where "KeyCtlBackend = ''keyctl''"
definition KWalletBackend :: BackendType where "KWalletBackend = ''kwallet''"
definition WinCredBackend :: BackendType where "WinCredBackend = ''wincred''"
definition WinHelloBackend :: BackendType where "WinHelloBackend = ''winhello''"
definition FileBackend :: BackendType where "FileBackend = ''file''"
definition PassBackend :: BackendType where "PassBackend = ''pass''"
definition PassageBackend :: BackendType where "PassageBackend = ''passage''"
definition OPBackend :: BackendType where "OPBackend = ''op''"
definition OPConnectBackend :: BackendType where "OPConnectBackend = ''op-connect''"
definition OPDesktopBackend :: BackendType where "OPDesktopBackend = ''op-desktop''"

lemmas backend_names = InvalidBackend_def SecretServiceBackend_def KeychainBackend_def
  KeyCtlBackend_def KWalletBackend_def WinCredBackend_def WinHelloBackend_def FileBackend_def
  PassBackend_def PassageBackend_def OPBackend_def OPConnectBackend_def OPDesktopBackend_def

definition backendOrder :: "BackendType list" where
  "backendOrder =
    [WinCredBackend, WinHelloBackend,
     KeychainBackend,
     SecretServiceBackend, KWalletBackend, KeyCtlBackend,
     PassBackend, PassageBackend, FileBackend,
     OPConnectBackend, OPBackend, OPDesktopBackend]"

text \<open>
  The map \<open>supportedBackends\<close> is filled by the \<open>init\<close> functions of the backends that are
  compiled in; it is an argument here. \<open>'k\<close> is the type of the keyring objects.
\<close>

type_synonym ('w, 'k) opener = "'w Config \<Rightarrow> ('w, 'k) call"
type_synonym ('w, 'k) registry = "BackendType \<rightharpoonup> ('w, 'k) opener"

fun available_loop :: "('w, 'k) registry \<Rightarrow> BackendType list \<Rightarrow> BackendType list \<Rightarrow> BackendType list" where
  "available_loop supportedBackends b [] = b"
| "available_loop supportedBackends b (k # ks) =
     available_loop supportedBackends
       (case supportedBackends k of Some _ \<Rightarrow> b @ [k] | None \<Rightarrow> b) ks"

definition AvailableBackends :: "('w, 'k) registry \<Rightarrow> BackendType list" where
  "AvailableBackends supportedBackends = available_loop supportedBackends [] backendOrder"

fun open_loop :: "('w, 'k) registry \<Rightarrow> 'w Config \<Rightarrow> BackendType list \<Rightarrow> ('w, 'k) call" where
  "open_loop supportedBackends cfg [] w = (Inl ErrNoAvailImpl, w)"
| "open_loop supportedBackends cfg (backend # bs) w =
     (case supportedBackends backend of
        None \<Rightarrow> open_loop supportedBackends cfg bs w
      | Some opener \<Rightarrow>
          (case opener cfg w of
             (Inl err, w') \<Rightarrow>
               if is_panic err then (Inl err, w') else open_loop supportedBackends cfg bs w'
           | (Inr openBackend, w') \<Rightarrow> (Inr openBackend, w')))"

definition Open :: "('w, 'k) registry \<Rightarrow> 'w Config \<Rightarrow> ('w, 'k) call" where
  "Open supportedBackends cfg =
     (let cfg = (case AllowedBackends cfg of
                   None \<Rightarrow> cfg\<lparr>AllowedBackends := Some (AvailableBackends supportedBackends)\<rparr>
                 | Some _ \<Rightarrow> cfg)
      in open_loop supportedBackends cfg (the (AllowedBackends cfg)))"

section \<open>Facts about Open and AvailableBackends\<close>

lemma available_loop_filter:
  "available_loop reg b ks = b @ filter (\<lambda>k. k \<in> dom reg) ks"
  by (induction ks arbitrary: b) (auto split: option.splits)

lemma AvailableBackends_filter:
  "AvailableBackends reg = filter (\<lambda>k. k \<in> dom reg) backendOrder"
  by (simp add: AvailableBackends_def available_loop_filter)

lemma backendOrder_distinct [simp]: "distinct backendOrder"
  by (simp add: backendOrder_def backend_names)

lemma open_loop_append:
  "open_loop reg cfg (bs @ cs) w =
     (case open_loop reg cfg bs w of
        (Inr k, w') \<Rightarrow> (Inr k, w')
      | (Inl e, w') \<Rightarrow> if is_panic e then (Inl e, w') else open_loop reg cfg cs w')"
  by (induction bs arbitrary: w) (auto split: option.splits prod.splits sum.splits)

lemma open_loop_Inl:
  "open_loop reg cfg bs w = (Inl e, w') \<Longrightarrow> \<not> is_panic e \<Longrightarrow> e = ErrNoAvailImpl"
  by (induction bs arbitrary: w) (auto split: option.splits prod.splits sum.splits if_splits)

lemma open_loop_cong:
  "\<forall>b\<in>set bs. reg b = reg' b \<Longrightarrow> open_loop reg cfg bs w = open_loop reg' cfg bs w"
  by (induction bs arbitrary: w) (auto split: option.splits prod.splits sum.splits)

text \<open>A pass over the list that skips everything: unsupported or failing backends.\<close>

lemma open_loop_skip:
  "open_loop reg cfg pre w = (Inl e, w1) \<Longrightarrow> \<not> is_panic e \<Longrightarrow>
     open_loop reg cfg (pre @ cs) w = open_loop reg cfg cs w1"
  by (simp add: open_loop_append)

lemma open_loop_split:
  "open_loop reg cfg bs w = (Inr k, w') \<Longrightarrow>
     \<exists>pre b post opener w1.
       bs = pre @ b # post \<and> open_loop reg cfg pre w = (Inl ErrNoAvailImpl, w1) \<and>
       reg b = Some opener \<and> opener cfg w1 = (Inr k, w')"
proof (induction bs rule: rev_induct)
  case Nil
  then show ?case by simp
next
  case (snoc c cs)
  show ?case
  proof (cases "open_loop reg cfg cs w")
    case (Pair r w1)
    show ?thesis
    proof (cases r)
      case (Inr k')
      with Pair snoc.prems have "open_loop reg cfg cs w = (Inr k, w')"
        by (simp add: open_loop_append)
      from snoc.IH [OF this] show ?thesis by fastforce
    next
      case (Inl e)
      with Pair snoc.prems have "\<not> is_panic e" by (auto simp: open_loop_append)
      moreover from Pair Inl have fail: "open_loop reg cfg cs w = (Inl e, w1)" by simp
      ultimately have skip: "open_loop reg cfg cs w = (Inl ErrNoAvailImpl, w1)"
        using open_loop_Inl [OF fail] by simp
      from open_loop_skip [OF this] snoc.prems have "open_loop reg cfg [c] w1 = (Inr k, w')"
        by simp
      then obtain opener where "reg c = Some opener" "opener cfg w1 = (Inr k, w')"
        by (auto split: option.splits prod.splits sum.splits if_splits)
      with skip show ?thesis by blast
    qed
  qed
qed

section \<open>The Keyring interface\<close>

text \<open>
  What a client of the \<open>Keyring\<close> interface relies on. \<open>'s\<close> is the state a keyring works on
  (the keyring object together with the world its backend talks to), \<open>view\<close> the items it holds,
  \<open>obs\<close> the part of an item the backend keeps (some backends keep the data only), \<open>okkey\<close> and
  \<open>okitem\<close> the keys and items it can represent, and \<open>inv\<close> what holds of a usable keyring: for a
  backend over an external service, that the service behaves as documented.
\<close>

locale keyring_contract =
  fixes inv :: "'s \<Rightarrow> bool"
    and view :: "'s \<Rightarrow> string \<Rightarrow> 'v option"
    and okkey :: "string \<Rightarrow> bool"
    and okitem :: "Item \<Rightarrow> bool"
    and obs :: "Item \<Rightarrow> 'v"
    and get :: "string \<Rightarrow> ('s, Item) call"
    and put :: "Item \<Rightarrow> ('s, unit) call"
    and remove :: "string \<Rightarrow> ('s, unit) call"
    and keys :: "('s, string list) call"
  assumes okitem_key: "okitem i \<Longrightarrow> okkey (Key i)"
    and get_found: "inv s \<Longrightarrow> okkey k \<Longrightarrow> view s k = Some v \<Longrightarrow>
      \<exists>i s'. get k s = (Inr i, s') \<and> obs i = v \<and> inv s' \<and> view s' = view s"
    and get_missing: "inv s \<Longrightarrow> okkey k \<Longrightarrow> view s k = None \<Longrightarrow>
      \<exists>s'. get k s = (Inl ErrKeyNotFound, s') \<and> inv s' \<and> view s' = view s"
    and put_stores: "inv s \<Longrightarrow> okitem i \<Longrightarrow>
      \<exists>s'. put i s = (Inr (), s') \<and> inv s' \<and> view s' = (view s)(Key i \<mapsto> obs i)"
    and remove_deletes: "inv s \<Longrightarrow> okkey k \<Longrightarrow>
      \<exists>r s'. remove k s = (r, s') \<and> (view s k \<noteq> None \<longrightarrow> r = Inr ()) \<and> inv s' \<and>
        view s' = (view s)(k := None)"
    and keys_lists: "inv s \<Longrightarrow>
      \<exists>ks s'. keys s = (Inr ks, s') \<and> distinct ks \<and> set ks = dom (view s) \<and> inv s' \<and> view s' = view s"
begin

lemma get_after_put:
  assumes "inv s" "okitem i"
  shows "\<exists>j s1 s2. put i s = (Inr (), s1) \<and> get (Key i) s1 = (Inr j, s2) \<and> obs j = obs i"
proof -
  from put_stores [OF assms] obtain s1 where
    s1: "put i s = (Inr (), s1)" "inv s1" "view s1 = (view s)(Key i \<mapsto> obs i)" by blast
  then have "view s1 (Key i) = Some (obs i)" by simp
  from get_found [OF s1(2) okitem_key [OF assms(2)] this] s1(1) show ?thesis by blast
qed

lemma get_after_put_other:
  assumes "inv s" "okitem i" "okkey k" "k \<noteq> Key i" "view s k = Some v"
  shows "\<exists>j s1 s2. put i s = (Inr (), s1) \<and> get k s1 = (Inr j, s2) \<and> obs j = v"
proof -
  from put_stores [OF assms(1,2)] obtain s1 where
    s1: "put i s = (Inr (), s1)" "inv s1" "view s1 = (view s)(Key i \<mapsto> obs i)" by blast
  then have "view s1 k = Some v" using assms(4,5) by simp
  from get_found [OF s1(2) assms(3) this] s1(1) show ?thesis by blast
qed

lemma get_after_remove:
  assumes "inv s" "okkey k"
  shows "\<exists>s2. get k (snd (remove k s)) = (Inl ErrKeyNotFound, s2)"
proof -
  from remove_deletes [OF assms] obtain r s1 where
    "remove k s = (r, s1)" "inv s1" "view s1 = (view s)(k := None)" by blast
  then show ?thesis using get_missing [of s1 k] assms(2) by auto
qed

end

text \<open>Backends whose \<open>Remove\<close> reports that there was nothing to remove.\<close>

locale keyring_reports_missing = keyring_contract +
  assumes remove_missing: "inv s \<Longrightarrow> okkey k \<Longrightarrow> view s k = None \<Longrightarrow>
    fst (remove k s) = Inl ErrKeyNotFound"
begin

lemma remove_ok_iff:
  assumes "inv s" "okkey k"
  shows "fst (remove k s) = Inr () \<longleftrightarrow> view s k \<noteq> None"
  using remove_missing [OF assms] remove_deletes [OF assms] by fastforce

lemma remove_twice:
  assumes "inv s" "okkey k"
  shows "fst (remove k (snd (remove k s))) = Inl ErrKeyNotFound"
proof -
  from remove_deletes [OF assms] obtain r s1 where
    "remove k s = (r, s1)" "inv s1" "view s1 = (view s)(k := None)" by blast
  then show ?thesis using remove_missing [of s1 k] assms(2) by simp
qed

end

section \<open>Histories of operations\<close>

text \<open>
  A client's run: a sequence of calls on one keyring, results ignored, and what it does to
  a plain map. \<open>run_refines\<close> is the simulation: the keyring, seen through \<open>view\<close>, is the map.
\<close>

datatype kop = KGet string | KSet Item | KRemove string | KKeys

fun step_kop where
  "step_kop get put remove keys (KGet k) s = snd (get k s)"
| "step_kop get put remove keys (KSet i) s = snd (put i s)"
| "step_kop get put remove keys (KRemove k) s = snd (remove k s)"
| "step_kop get put remove keys KKeys s = snd (keys s)"

fun spec_kop :: "(Item \<Rightarrow> 'v) \<Rightarrow> kop \<Rightarrow> (string \<Rightarrow> 'v option) \<Rightarrow> (string \<Rightarrow> 'v option)" where
  "spec_kop obs (KSet i) m = m(Key i \<mapsto> obs i)"
| "spec_kop obs (KRemove k) m = m(k := None)"
| "spec_kop obs _ m = m"

fun ok_kop :: "(string \<Rightarrow> bool) \<Rightarrow> (Item \<Rightarrow> bool) \<Rightarrow> kop \<Rightarrow> bool" where
  "ok_kop okkey okitem (KGet k) = okkey k"
| "ok_kop okkey okitem (KSet i) = okitem i"
| "ok_kop okkey okitem (KRemove k) = okkey k"
| "ok_kop okkey okitem KKeys = True"

text \<open>What \<open>Get\<close> answers for a key whose value is known.\<close>

definition get_answers :: "(Item \<Rightarrow> 'v) \<Rightarrow> 'v option \<Rightarrow> Item res \<Rightarrow> bool" where
  "get_answers obs v r =
     (case v of Some x \<Rightarrow> (case r of Inr i \<Rightarrow> obs i = x | Inl e \<Rightarrow> False)
      | None \<Rightarrow> r = Inl ErrKeyNotFound)"

lemma get_answers_simps [simp]:
  "get_answers obs None r \<longleftrightarrow> r = Inl ErrKeyNotFound"
  "get_answers obs (Some x) r \<longleftrightarrow> (\<exists>i. r = Inr i \<and> obs i = x)"
  by (auto simp: get_answers_def split: sum.splits)

context keyring_contract
begin

lemma step_refines:
  assumes "inv s" "ok_kop okkey okitem p"
  shows "inv (step_kop get put remove keys p s) \<and>
    view (step_kop get put remove keys p s) = spec_kop obs p (view s)"
proof (cases p)
  case (KGet k)
  show ?thesis
  proof (cases "view s k")
    case None
    from get_missing [OF assms(1) _ None] assms(2) KGet show ?thesis by fastforce
  next
    case (Some v)
    from get_found [OF assms(1) _ Some] assms(2) KGet show ?thesis by fastforce
  qed
next
  case (KSet i)
  with put_stores [OF assms(1), of i] assms(2) show ?thesis by fastforce
next
  case (KRemove k)
  with remove_deletes [OF assms(1), of k] assms(2) show ?thesis by fastforce
next
  case KKeys
  with keys_lists [OF assms(1)] show ?thesis by fastforce
qed

lemma run_refines:
  assumes "inv s" "list_all (ok_kop okkey okitem) ps"
  shows "inv (fold (step_kop get put remove keys) ps s) \<and>
    view (fold (step_kop get put remove keys) ps s) = fold (spec_kop obs) ps (view s)"
  using assms by (induction ps arbitrary: s) (simp_all add: step_refines)

lemma get_after_run:
  assumes "inv s" "list_all (ok_kop okkey okitem) ps" "okkey k"
  shows "case fold (spec_kop obs) ps (view s) k of
      Some v \<Rightarrow> \<exists>i s'. get k (fold (step_kop get put remove keys) ps s) = (Inr i, s') \<and> obs i = v
    | None \<Rightarrow> \<exists>s'. get k (fold (step_kop get put remove keys) ps s) = (Inl ErrKeyNotFound, s')"
proof -
  let ?s = "fold (step_kop get put remove keys) ps s"
  from run_refines [OF assms(1,2)] have r: "inv ?s" "view ?s = fold (spec_kop obs) ps (view s)"
    by simp_all
  then show ?thesis
    using get_found [OF r(1) assms(3)] get_missing [OF r(1) assms(3)]
    by (fastforce split: option.splits)
qed

lemma history:
  assumes "inv s" "list_all (ok_kop okkey okitem) ps" "okkey k"
  shows "get_answers obs (fold (spec_kop obs) ps (view s) k)
      (fst (get k (fold (step_kop get put remove keys) ps s))) \<and>
    (\<exists>ks. fst (keys (fold (step_kop get put remove keys) ps s)) = Inr ks \<and>
       distinct ks \<and> set ks = dom (fold (spec_kop obs) ps (view s)))"
proof -
  let ?s = "fold (step_kop get put remove keys) ps s"
  from run_refines [OF assms(1,2)] have r: "inv ?s" "view ?s = fold (spec_kop obs) ps (view s)"
    by simp_all
  from keys_lists [OF r(1)] r(2) get_after_run [OF assms] show ?thesis
    by (auto split: option.splits)
qed

end

section \<open>What Open does\<close>

text \<open>
  The backends \<open>Open\<close> passes over, as a relation between the world before and after: an
  unsupported backend does nothing, a failing opener may have moved the world.
\<close>

inductive skips :: "('w, 'k) registry \<Rightarrow> 'w Config \<Rightarrow> BackendType list \<Rightarrow> 'w \<Rightarrow> 'w \<Rightarrow> bool"
  for reg cfg where
  skips_none: "skips reg cfg [] w w"
| skips_unsupported: "reg b = None \<Longrightarrow> skips reg cfg bs w w' \<Longrightarrow> skips reg cfg (b # bs) w w'"
| skips_failed: "reg b = Some opener \<Longrightarrow> opener cfg w = (Inl err, w1) \<Longrightarrow> \<not> is_panic err \<Longrightarrow>
    skips reg cfg bs w1 w' \<Longrightarrow> skips reg cfg (b # bs) w w'"

inductive_simps skips_Nil [simp]: "skips reg cfg [] w w'"
inductive_simps skips_Cons: "skips reg cfg (b # bs) w w'"

lemma open_loop_skips:
  "open_loop reg cfg bs w = (Inl ErrNoAvailImpl, w') \<longleftrightarrow> skips reg cfg bs w w'"
  by (induction bs arbitrary: w)
    (auto simp: skips_Cons split: option.splits prod.splits sum.splits)

text \<open>The backend whose opener panics, every backend before it being passed over.\<close>

definition panics_at ::
  "('w, 'k) registry \<Rightarrow> 'w Config \<Rightarrow> BackendType list \<Rightarrow> 'w \<Rightarrow> goerr \<Rightarrow> 'w \<Rightarrow> bool" where
  "panics_at reg cfg bs w e w' \<longleftrightarrow> is_panic e \<and>
     (\<exists>pre b post opener w1. bs = pre @ b # post \<and> skips reg cfg pre w w1 \<and> reg b = Some opener \<and>
        opener cfg w1 = (Inl e, w'))"

lemma panics_at_Nil: "\<not> panics_at reg cfg [] w e w'"
  by (simp add: panics_at_def)

lemma panics_at_here:
  "reg b = Some opener \<Longrightarrow> opener cfg w = (Inl e, w') \<Longrightarrow> is_panic e \<Longrightarrow> panics_at reg cfg (b # bs) w e w'"
  unfolding panics_at_def by (metis append_Nil skips_none)

lemma panics_at_later:
  assumes "panics_at reg cfg bs w1 e w'" "\<And>w2 pre. skips reg cfg pre w1 w2 \<Longrightarrow> skips reg cfg (b # pre) w w2"
  shows "panics_at reg cfg (b # bs) w e w'"
  using assms unfolding panics_at_def by (metis append_Cons)

lemma open_loop_panics:
  "open_loop reg cfg bs w = (Inl e, w') \<Longrightarrow> is_panic e \<Longrightarrow> panics_at reg cfg bs w e w'"
proof (induction bs arbitrary: w)
  case (Cons b bs)
  show ?case
  proof (cases "reg b")
    case None
    with Cons have "panics_at reg cfg bs w e w'" by simp
    then show ?thesis by (rule panics_at_later) (rule skips_unsupported [where reg = reg, OF None])
  next
    case (Some opener)
    obtain r w1 where run: "opener cfg w = (r, w1)" by fastforce
    show ?thesis
    proof (cases r)
      case (Inl err)
      show ?thesis
      proof (cases "is_panic err")
        case True
        with Cons.prems Some run Inl show ?thesis by (intro panics_at_here [where reg = reg and opener = opener, OF Some]) simp_all
      next
        case False
        with Cons Some run Inl have "panics_at reg cfg bs w1 e w'" by simp
        then show ?thesis by (rule panics_at_later) (rule skips_failed [where reg = reg and opener = opener, OF Some run [unfolded Inl] False])
      qed
    next
      case (Inr k)
      with Cons.prems Some run show ?thesis by simp
    qed
  qed
qed auto

lemma panics_at_open_loop: "panics_at reg cfg bs w e w' \<Longrightarrow> open_loop reg cfg bs w = (Inl e, w')"
  by (auto simp: panics_at_def open_loop_append open_loop_skips [symmetric])

lemma open_loop_fails:
  "open_loop reg cfg bs w = (Inl e, w') \<longleftrightarrow>
    e = ErrNoAvailImpl \<and> skips reg cfg bs w w' \<or> panics_at reg cfg bs w e w'"
  using open_loop_Inl open_loop_panics panics_at_open_loop open_loop_skips by metis

text \<open>The configuration the openers see: \<open>AllowedBackends\<close> filled in when it was nil.\<close>

definition effective :: "('w, 'k) registry \<Rightarrow> 'w Config \<Rightarrow> 'w Config" where
  "effective reg cfg =
     (case AllowedBackends cfg of
        None \<Rightarrow> cfg\<lparr>AllowedBackends := Some (AvailableBackends reg)\<rparr>
      | Some _ \<Rightarrow> cfg)"

definition candidates :: "('w, 'k) registry \<Rightarrow> 'w Config \<Rightarrow> BackendType list" where
  "candidates reg cfg =
     (case AllowedBackends cfg of None \<Rightarrow> AvailableBackends reg | Some bs \<Rightarrow> bs)"

lemma Open_eq: "Open reg cfg w = open_loop reg (effective reg cfg) (candidates reg cfg) w"
  by (simp add: Open_def effective_def candidates_def split: option.split)

lemma open_loop_picks:
  assumes "skips reg cfg pre w w1" "reg b = Some opener" "opener cfg w1 = (Inr k, w')"
  shows "open_loop reg cfg (pre @ b # post) w = (Inr k, w')"
proof -
  from assms(1) have "open_loop reg cfg pre w = (Inl ErrNoAvailImpl, w1)"
    by (simp add: open_loop_skips)
  from open_loop_skip [OF this] assms(2,3) show ?thesis by simp
qed

text \<open>
  \<^bold>\<open>C1.\<close> \<open>Open\<close> returns the keyring of the first allowed backend that is supported and whose opener
  succeeds, every backend before it being unsupported or having failed to open; it returns an error
  exactly when all of them are passed over, the error then being \<open>ErrNoAvailImpl\<close>, and it panics exactly
  when the opener of a backend does that is reached so.
\<close>

theorem Open_first_usable:
  "(Open reg cfg w = (Inr k, w') \<longleftrightarrow>
      (\<exists>pre b post opener w1. candidates reg cfg = pre @ b # post \<and>
         skips reg (effective reg cfg) pre w w1 \<and> reg b = Some opener \<and>
         opener (effective reg cfg) w1 = (Inr k, w'))) \<and>
   (Open reg cfg w = (Inl e, w') \<longleftrightarrow>
      e = ErrNoAvailImpl \<and> skips reg (effective reg cfg) (candidates reg cfg) w w' \<or>
      panics_at reg (effective reg cfg) (candidates reg cfg) w e w')"
proof
  show "Open reg cfg w = (Inr k, w') \<longleftrightarrow>
      (\<exists>pre b post opener w1. candidates reg cfg = pre @ b # post \<and>
         skips reg (effective reg cfg) pre w w1 \<and> reg b = Some opener \<and>
         opener (effective reg cfg) w1 = (Inr k, w'))" (is "?l \<longleftrightarrow> ?r")
  proof
    assume ?l
    from open_loop_split [OF this [unfolded Open_eq]] show ?r
      by (auto simp: open_loop_skips)
  next
    assume ?r
    then show ?l unfolding Open_eq by (auto intro: open_loop_picks)
  qed
qed (simp add: Open_eq open_loop_fails)

definition onepassword_backends :: "BackendType set" where
  "onepassword_backends = {OPConnectBackend, OPBackend, OPDesktopBackend}"

lemma filter_at: "P x \<Longrightarrow> filter P (a @ x # b) = filter P a @ x # filter P b"
  by simp

lemma filter_disjoint: "set (a @ [x]) \<inter> A = {} \<Longrightarrow> set (filter P a @ [x]) \<inter> A = {}"
  by auto

lemma AvailableBackends_upto_file:
  assumes "reg FileBackend = Some opener"
  shows "\<exists>pre post. AvailableBackends reg = pre @ FileBackend # post \<and>
    set (pre @ [FileBackend]) \<inter> onepassword_backends = {}"
proof -
  let ?P = "\<lambda>k. k \<in> dom reg"
  let ?pre = "[WinCredBackend, WinHelloBackend, KeychainBackend, SecretServiceBackend,
    KWalletBackend, KeyCtlBackend, PassBackend, PassageBackend]"
  let ?post = "[OPConnectBackend, OPBackend, OPDesktopBackend]"
  have order: "backendOrder = ?pre @ FileBackend # ?post" by (simp add: backendOrder_def)
  have "?P FileBackend" using assms by blast
  from filter_at [of ?P, OF this] order
  have "AvailableBackends reg = filter ?P ?pre @ FileBackend # filter ?P ?post"
    unfolding AvailableBackends_filter by metis
  moreover have "set (?pre @ [FileBackend]) \<inter> onepassword_backends = {}"
    by (simp add: onepassword_backends_def backend_names)
  then have "set (filter ?P ?pre @ [FileBackend]) \<inter> onepassword_backends = {}"
    by (rule filter_disjoint)
  ultimately show ?thesis by blast
qed

text \<open>Openers that never panic, whatever the configuration and the world.\<close>

definition no_panics :: "('w, 'k) registry \<Rightarrow> bool" where
  "no_panics reg \<longleftrightarrow> (\<forall>b opener cfg w. reg b = Some opener \<longrightarrow> (\<forall>p. fst (opener cfg w) \<noteq> Inl (GoPanic p)))"

lemma open_loop_no_panics:
  assumes "no_panics reg" "open_loop reg cfg bs w = (Inl e, w')"
  shows "\<not> is_panic e"
proof
  assume "is_panic e"
  then obtain p where p: "e = GoPanic p" by (cases e) simp_all
  with open_loop_panics [OF assms(2)] obtain b opener w1 where
    "reg b = Some opener" "opener cfg w1 = (Inl (GoPanic p), w')"
    by (auto simp: panics_at_def)
  with assms(1) show False unfolding no_panics_def by (metis fst_conv)
qed

lemma open_loop_succeeds:
  assumes "\<And>w. \<exists>k w'. opener cfg w = (Inr k, w')" "reg b = Some opener" "no_panics reg"
  shows "\<exists>k w'. open_loop reg cfg (pre @ [b]) w = (Inr k, w')"
proof -
  obtain r1 w1 where p: "open_loop reg cfg pre w = (r1, w1)" by fastforce
  from assms(1) [of w1] obtain k w2 where "opener cfg w1 = (Inr k, w2)" by blast
  with p assms(2) open_loop_no_panics [OF assms(3), of cfg pre w] show ?thesis
    by (cases r1) (simp_all add: open_loop_append)
qed

lemma open_loop_extend:
  "open_loop reg cfg bs w = (Inr k, w') \<Longrightarrow> open_loop reg cfg (bs @ cs) w = (Inr k, w')"
  by (simp add: open_loop_append)

lemma Open_default_upto_file:
  assumes nil: "AllowedBackends cfg = None"
    and supported: "reg FileBackend = Some opener"
    and never_fails: "\<And>cfg w. \<exists>k w'. opener cfg w = (Inr k, w')"
    and no_panics: "no_panics reg"
  shows "\<exists>pre b post opener' w1 k w'.
    AvailableBackends reg = pre @ b # post \<and> set (pre @ [b]) \<inter> onepassword_backends = {} \<and>
    skips reg (effective reg cfg) pre w w1 \<and> reg b = Some opener' \<and>
    opener' (effective reg cfg) w1 = (Inr k, w') \<and> Open reg cfg w = (Inr k, w')"
proof -
  from AvailableBackends_upto_file [of reg, OF supported] obtain pre post where
    av: "AvailableBackends reg = pre @ FileBackend # post"
    and no_op: "set (pre @ [FileBackend]) \<inter> onepassword_backends = {}" by auto
  let ?cfg = "effective reg cfg"
  from open_loop_succeeds [of opener ?cfg reg FileBackend pre w] never_fails supported no_panics
  obtain k w' where run: "open_loop reg ?cfg (pre @ [FileBackend]) w = (Inr k, w')" by blast
  from open_loop_split [OF this] obtain pre' b post' opener' w1 where
    split: "pre @ [FileBackend] = pre' @ b # post'" and
    picks: "skips reg ?cfg pre' w w1" "reg b = Some opener'" "opener' ?cfg w1 = (Inr k, w')"
    by (auto simp: open_loop_skips)
  from av split have "AvailableBackends reg = pre' @ b # (post' @ post)"
    by (metis append.assoc append_Cons append_Nil)
  moreover from no_op split have "set (pre' @ [b]) \<inter> onepassword_backends = {}" by auto
  moreover have "Open reg cfg w = (Inr k, w')"
    using open_loop_extend [OF run, of post] nil by (simp add: Open_eq candidates_def av)
  ultimately show ?thesis using picks by blast
qed

text \<open>
  The comment on \<open>backendOrder\<close>: when \<open>AllowedBackends\<close> is nil and the file backend is
  compiled in (its opener never fails), and no opener panics, \<open>Open\<close> always returns a keyring, the one of a
  backend at or before the file backend, and it calls the opener of no 1Password backend.
\<close>

theorem Open_default_stops_at_file:
  assumes nil: "AllowedBackends cfg = None"
    and supported: "reg FileBackend = Some opener"
    and never_fails: "\<And>cfg w. \<exists>k w'. opener cfg w = (Inr k, w')"
    and no_panics: "no_panics reg"
  shows "\<exists>pre b post opener' w1 k w'.
    AvailableBackends reg = pre @ b # post \<and> set (pre @ [b]) \<inter> onepassword_backends = {} \<and>
    skips reg (effective reg cfg) pre w w1 \<and> reg b = Some opener' \<and>
    opener' (effective reg cfg) w1 = (Inr k, w') \<and> Open reg cfg w = (Inr k, w')"
  by (rule Open_default_upto_file [OF nil supported never_fails no_panics])

text \<open>A registry with a backend that cannot be opened, the file backend, and a 1Password one.\<close>

definition sample_registry :: "(nat, string) registry" where
  "sample_registry =
     [KeyCtlBackend \<mapsto> (\<lambda>cfg w. (Inl (Foreign ''no scope''), Suc w)),
      FileBackend \<mapsto> (\<lambda>cfg w. (Inr ''file'', w)),
      OPBackend \<mapsto> (\<lambda>cfg w. (Inr ''op'', w + 10))]"

definition zero_Config :: "'w Config" where
  "zero_Config = \<lparr>AllowedBackends = None, ServiceName = '''', KeychainName = '''',
     KeychainTrustApplication = False, KeychainSynchronizable = False,
     KeychainAccessibleWhenUnlocked = False, KeychainPasswordFunc = None, FilePasswordFunc = None,
     FileDir = '''', KeyCtlScope = '''', KeyCtlPerm = 0, KWalletAppID = '''', KWalletFolder = '''',
     LibSecretCollectionName = '''', PassDir = '''', PassCmd = '''', PassPrefix = '''',
     WinCredPrefix = '''', UseBiometrics = False, TouchIDAccount = '''', TouchIDService = '''',
     OPTimeout = 0, OPVaultID = '''', cfg_OPItemTitlePrefix = '''', cfg_OPItemTag = '''',
     cfg_OPItemFieldTitle = '''', OPConnectHost = '''', OPConnectTokenEnv = '''', OPTokenEnv = '''',
     OPTokenFunc = None, OPDesktopAccountID = ''''\<rparr>"

theorem Open_default_stops_at_file_witness:
  "\<exists>pre b post opener' w1 k w'.
    AvailableBackends sample_registry = pre @ b # post \<and>
    set (pre @ [b]) \<inter> onepassword_backends = {} \<and>
    skips sample_registry (effective sample_registry zero_Config) pre 5 w1 \<and>
    sample_registry b = Some opener' \<and>
    opener' (effective sample_registry zero_Config) w1 = (Inr k, w') \<and>
    Open sample_registry zero_Config 5 = (Inr k, w')"
  by (rule Open_default_stops_at_file [where opener = "\<lambda>cfg w. (Inr ''file'', w)"])
    (simp_all add: zero_Config_def sample_registry_def backend_names no_panics_def)

end
