(* ===== verification/Array_Keyring.thy ===== *)
theory Array_Keyring
  imports Keyring_API "HOL-Library.AList" "HOL-Library.Multiset"
begin

text \<open>
  \<open>array.go\<close>: the in-memory keyring, a Go map from keys to items that starts as a nil map. The
  map is an association list with distinct keys; the order in which a Go \<open>range\<close> visits a map
  is unspecified, so \<open>Keys\<close> takes the order as a function that permutes the keys.
\<close>

record ArrayKeyring =
  items :: "(string \<times> Item) list option"

definition items_of :: "ArrayKeyring \<Rightarrow> (string \<times> Item) list" where
  "items_of k = (case items k of None \<Rightarrow> [] | Some m \<Rightarrow> m)"

definition ArrayKeyring_Get :: "string \<Rightarrow> (ArrayKeyring, Item) call" where
  "ArrayKeyring_Get key k =
     (case map_of (items_of k) key of
        Some i \<Rightarrow> (Inr i, k)
      | None \<Rightarrow> (Inl ErrKeyNotFound, k))"

definition ArrayKeyring_Set :: "Item \<Rightarrow> (ArrayKeyring, unit) call" where
  "ArrayKeyring_Set i k =
     (let m = (case items k of None \<Rightarrow> [] | Some m \<Rightarrow> m)
      in (Inr (), k\<lparr>items := Some (AList.update (Key i) i m)\<rparr>))"

definition ArrayKeyring_Remove :: "string \<Rightarrow> (ArrayKeyring, unit) call" where
  "ArrayKeyring_Remove key k = (Inr (), k\<lparr>items := map_option (AList.delete key) (items k)\<rparr>)"

definition ArrayKeyring_Keys ::
  "(string list \<Rightarrow> string list) \<Rightarrow> (ArrayKeyring, string list) call" where
  "ArrayKeyring_Keys iter k = (Inr (iter (map fst (items_of k))), k)"

definition ArrayKeyring_GetMetadata :: "string \<Rightarrow> (ArrayKeyring, Metadata) call" where
  "ArrayKeyring_GetMetadata key k = (Inl ErrMetadataNeedsCredentials, k)"

fun new_loop :: "ArrayKeyring \<Rightarrow> Item list \<Rightarrow> ArrayKeyring" where
  "new_loop kr [] = kr"
| "new_loop kr (i # is) = new_loop (snd (ArrayKeyring_Set i kr)) is"

definition NewArrayKeyring :: "Item list \<Rightarrow> ArrayKeyring" where
  "NewArrayKeyring initial = new_loop \<lparr>items = None\<rparr> initial"

section \<open>The keyring contract\<close>

definition array_wf :: "ArrayKeyring \<Rightarrow> bool" where
  "array_wf k = (distinct (map fst (items_of k)) \<and> (\<forall>(key, i) \<in> set (items_of k). Key i = key))"

definition array_view :: "ArrayKeyring \<Rightarrow> string \<Rightarrow> Item option" where
  "array_view k = map_of (items_of k)"

lemma items_of_update [simp]:
  "items_of (k\<lparr>items := Some m\<rparr>) = m"
  "items_of (k\<lparr>items := map_option f (items k)\<rparr>) = (case items k of None \<Rightarrow> [] | Some m \<Rightarrow> f m)"
  by (simp_all add: items_of_def split: option.split)

lemma array_Set_view: "array_view (snd (ArrayKeyring_Set i k)) = (array_view k)(Key i \<mapsto> i)"
  by (simp add: ArrayKeyring_Set_def array_view_def Let_def update_conv' items_of_def
      split: option.split)

lemma array_Remove_view: "array_view (snd (ArrayKeyring_Remove key k)) = (array_view k)(key := None)"
  by (simp add: ArrayKeyring_Remove_def array_view_def delete_conv' items_of_def
      split: option.split)

lemma set_AList_update: "x \<in> set (AList.update a b m) \<Longrightarrow> x = (a, b) \<or> x \<in> set m"
  by (induction m) (auto split: if_splits)

lemma set_AList_delete: "x \<in> set (AList.delete a m) \<Longrightarrow> x \<in> set m"
  by (simp add: AList.delete_eq)

lemma array_Set_wf: "array_wf k \<Longrightarrow> array_wf (snd (ArrayKeyring_Set i k))"
  by (auto simp: ArrayKeyring_Set_def array_wf_def Let_def items_of_def distinct_update
      dest!: set_AList_update split: option.splits)

lemma array_Remove_wf: "array_wf k \<Longrightarrow> array_wf (snd (ArrayKeyring_Remove key k))"
  by (auto simp: ArrayKeyring_Remove_def array_wf_def items_of_def distinct_delete
      dest!: set_AList_delete split: option.splits)

lemma array_new_wf: "array_wf k \<Longrightarrow> array_wf (new_loop k is)"
  by (induction "is" arbitrary: k) (simp_all add: array_Set_wf)

text \<open>The state of the contract: the runtime's choice of map order next to the keyring.\<close>

type_synonym array_state = "(string list \<Rightarrow> string list) \<times> ArrayKeyring"

definition array_lift ::
  "((string list \<Rightarrow> string list) \<Rightarrow> (ArrayKeyring, 'a) call) \<Rightarrow> (array_state, 'a) call" where
  "array_lift m = (\<lambda>(iter, k). (case m iter k of (r, k') \<Rightarrow> (r, (iter, k'))))"

definition array_inv :: "array_state \<Rightarrow> bool" where
  "array_inv = (\<lambda>(iter, k). array_wf k \<and> (\<forall>xs. mset (iter xs) = mset xs))"

lemma array_wf_Key: "array_wf k \<Longrightarrow> array_view k key = Some i \<Longrightarrow> Key i = key"
  by (auto simp: array_wf_def array_view_def dest!: map_of_SomeD)

lemma set_permuted: "\<forall>xs. mset (f xs) = mset xs \<Longrightarrow> set (f xs) = set xs"
  by (metis mset_eq_setD)

lemma distinct_permuted: "\<forall>xs. mset (f xs) = mset xs \<Longrightarrow> distinct (f xs) \<longleftrightarrow> distinct xs"
  by (metis mset_eq_imp_distinct_iff)

interpretation arr: keyring_contract array_inv "\<lambda>(iter, k). array_view k"
  "\<lambda>_. True" "\<lambda>_. True" "\<lambda>i. i"
  "\<lambda>key. array_lift (\<lambda>_. ArrayKeyring_Get key)" "\<lambda>i. array_lift (\<lambda>_. ArrayKeyring_Set i)"
  "\<lambda>key. array_lift (\<lambda>_. ArrayKeyring_Remove key)" "array_lift ArrayKeyring_Keys"
proof (unfold_locales, goal_cases)
  case (1 i)
  then show ?case by simp
next
  case (2 s k v)
  then show ?case
    by (auto simp: array_lift_def ArrayKeyring_Get_def array_view_def split: prod.splits)
next
  case (3 s k)
  then show ?case
    by (auto simp: array_lift_def ArrayKeyring_Get_def array_view_def split: prod.splits)
next
  case (4 s i)
  then show ?case
    using array_Set_view [of i "snd s"] array_Set_wf [of "snd s" i]
    by (auto simp: array_lift_def array_inv_def ArrayKeyring_Set_def Let_def split: prod.splits)
next
  case (5 s k)
  then show ?case
    using array_Remove_view [of k "snd s"] array_Remove_wf [of "snd s" k]
    by (auto simp: array_lift_def array_inv_def ArrayKeyring_Remove_def split: prod.splits)
next
  case (6 s)
  then show ?case
    by (auto simp: array_lift_def array_inv_def ArrayKeyring_Keys_def array_view_def
        dom_map_of_conv_image_fst set_permuted distinct_permuted array_wf_def split: prod.splits)
qed

section \<open>Properties\<close>

definition array_step :: "kop \<Rightarrow> array_state \<Rightarrow> array_state" where
  "array_step = step_kop (\<lambda>key. array_lift (\<lambda>_. ArrayKeyring_Get key))
     (\<lambda>i. array_lift (\<lambda>_. ArrayKeyring_Set i)) (\<lambda>key. array_lift (\<lambda>_. ArrayKeyring_Remove key))
     (array_lift ArrayKeyring_Keys)"

lemma array_new_view:
  "array_view (new_loop k is) = fold (spec_kop (\<lambda>i. i)) (map KSet is) (array_view k)"
  by (induction "is" arbitrary: k) (simp_all add: array_Set_view)

lemma array_new_inv:
  "\<forall>xs. mset (iter xs) = mset xs \<Longrightarrow> array_inv (iter, NewArrayKeyring initial)"
  using array_new_wf [of "\<lparr>items = None\<rparr>" initial]
  by (simp add: array_inv_def NewArrayKeyring_def array_wf_def items_of_def)

lemma array_always_ok: "list_all (ok_kop (\<lambda>_. True) (\<lambda>_. True)) ps"
proof (induction ps)
  case (Cons p ps)
  then show ?case by (cases p) simp_all
qed simp

text \<open>
  \<^bold>\<open>C8.\<close> An \<open>ArrayKeyring\<close> is a map: after \<open>NewArrayKeyring(initial)\<close> and any sequence of calls,
  \<open>Get\<close> answers with the last item set under the key and not removed since (the items of
  \<open>initial\<close> count as set in order, so of two with the same key the later wins), and with
  \<open>ErrKeyNotFound\<close> when there is none; \<open>Keys\<close> lists exactly the keys that have one. Whatever
  order the runtime ranges over the map in.
\<close>

theorem ArrayKeyring_history:
  assumes "\<forall>xs. mset (iter xs) = mset xs"
  shows "get_answers (\<lambda>i. i) (fold (spec_kop (\<lambda>i. i)) (map KSet initial @ ps) Map.empty key)
      (fst (array_lift (\<lambda>_. ArrayKeyring_Get key)
        (fold array_step ps (iter, NewArrayKeyring initial)))) \<and>
    (\<exists>ks. fst (array_lift ArrayKeyring_Keys
        (fold array_step ps (iter, NewArrayKeyring initial))) = Inr ks \<and>
       distinct ks \<and> set ks = dom (fold (spec_kop (\<lambda>i. i)) (map KSet initial @ ps) Map.empty))"
proof -
  have "array_view (NewArrayKeyring initial) = fold (spec_kop (\<lambda>i. i)) (map KSet initial) Map.empty"
    by (simp add: NewArrayKeyring_def array_new_view) (simp add: array_view_def items_of_def)
  with arr.history [OF array_new_inv [OF assms, of initial] array_always_ok TrueI, of ps key]
  show ?thesis by (simp add: array_step_def)
qed

theorem ArrayKeyring_history_witness:
  "fst (array_lift (\<lambda>_. ArrayKeyring_Get ''k'') (fold array_step [KRemove ''x'', KKeys]
     (rev, NewArrayKeyring [zero_Item\<lparr>Key := ''k''\<rparr>, zero_Item\<lparr>Key := ''x''\<rparr>,
        zero_Item\<lparr>Key := ''k'', Label := ''later''\<rparr>]))) =
   Inr (zero_Item\<lparr>Key := ''k'', Label := ''later''\<rparr>)"
  using ArrayKeyring_history [of rev "[zero_Item\<lparr>Key := ''k''\<rparr>, zero_Item\<lparr>Key := ''x''\<rparr>,
    zero_Item\<lparr>Key := ''k'', Label := ''later''\<rparr>]" "[KRemove ''x'', KKeys]" "''k''"]
  by simp

end
