(* ===== verification/Wincred_Service.thy ===== *)
theory Wincred_Service
  imports Keyring_API "HOL-Library.AList"
begin

text \<open>
  The Windows Credential Manager as the library \<open>github.com/danieljoos/wincred\<close> offers it to
  \<open>wincred.go\<close> and \<open>winhello/store.go\<close>. The library is not part of the repository: its
  functions are the fields of a record, a parameter of every definition that calls them.
  \<open>lawful_wincred\<close> states its documented behaviour against an abstract store of blobs, and an
  in-memory credential manager shows that the laws can be met.
\<close>

text \<open>\<open>wincred.GenericCredential\<close>, with the fields the source uses.\<close>

record GenericCredential =
  TargetName :: string
  CredentialBlob :: slice
  Persist :: nat

record 'w wincred_api =
  GetGenericCredential :: "string \<Rightarrow> ('w, GenericCredential) call"
  NewGenericCredential :: "string \<Rightarrow> GenericCredential"
  WriteCredential :: "GenericCredential \<Rightarrow> ('w, unit) call"
  DeleteCredential :: "GenericCredential \<Rightarrow> ('w, unit) call"
  ListCredentials :: "('w, GenericCredential list) call"
  PersistLocalMachine :: nat

text \<open>\<open>ERROR_NOT_FOUND\<close>, declared in both packages.\<close>

definition errElementNotFound :: goerr where
  "errElementNotFound = Errno 1168"

text \<open>
  The laws. \<open>store w\<close> is the content of the credential manager in the world \<open>w\<close>, \<open>fits\<close> says
  which blobs it accepts (Windows limits their size).
\<close>

definition lawful_wincred ::
  "'w wincred_api \<Rightarrow> ('w \<Rightarrow> string \<Rightarrow> bytes option) \<Rightarrow> (bytes \<Rightarrow> bool) \<Rightarrow> bool" where
  "lawful_wincred api store fits \<longleftrightarrow>
     (\<forall>t w. store w t = None \<longrightarrow> GetGenericCredential api t w = (Inl errElementNotFound, w)) \<and>
     (\<forall>t w b. store w t = Some b \<longrightarrow>
        (\<exists>c. GetGenericCredential api t w = (Inr c, w) \<and> TargetName c = t \<and>
             bytes_of (CredentialBlob c) = b)) \<and>
     (\<forall>t. TargetName (NewGenericCredential api t) = t) \<and>
     (\<forall>c w. fits (bytes_of (CredentialBlob c)) \<longrightarrow>
        (\<exists>w'. WriteCredential api c w = (Inr (), w') \<and>
              store w' = (store w)(TargetName c \<mapsto> bytes_of (CredentialBlob c)))) \<and>
     (\<forall>c w. store w (TargetName c) \<noteq> None \<longrightarrow>
        (\<exists>w'. DeleteCredential api c w = (Inr (), w') \<and>
              store w' = (store w)(TargetName c := None))) \<and>
     (\<forall>w. \<exists>cs. ListCredentials api w = (Inr cs, w) \<and> distinct (map TargetName cs) \<and>
        set (map TargetName cs) = dom (store w))"

lemma lawful_GetNone:
  "lawful_wincred api store fits \<Longrightarrow> store w t = None \<Longrightarrow>
     GetGenericCredential api t w = (Inl errElementNotFound, w)"
  by (simp add: lawful_wincred_def)

lemma lawful_GetSome:
  "lawful_wincred api store fits \<Longrightarrow> store w t = Some b \<Longrightarrow>
     \<exists>c. GetGenericCredential api t w = (Inr c, w) \<and> TargetName c = t \<and>
         bytes_of (CredentialBlob c) = b"
  by (simp add: lawful_wincred_def)

lemma lawful_New: "lawful_wincred api store fits \<Longrightarrow> TargetName (NewGenericCredential api t) = t"
  by (simp add: lawful_wincred_def)

lemma lawful_Write:
  "lawful_wincred api store fits \<Longrightarrow> fits (bytes_of (CredentialBlob c)) \<Longrightarrow>
     \<exists>w'. WriteCredential api c w = (Inr (), w') \<and>
          store w' = (store w)(TargetName c \<mapsto> bytes_of (CredentialBlob c))"
  by (simp add: lawful_wincred_def)

lemma lawful_Delete:
  "lawful_wincred api store fits \<Longrightarrow> store w (TargetName c) = Some b \<Longrightarrow>
     \<exists>w'. DeleteCredential api c w = (Inr (), w') \<and> store w' = (store w)(TargetName c := None)"
  by (simp add: lawful_wincred_def)

lemma lawful_List:
  "lawful_wincred api store fits \<Longrightarrow>
     \<exists>cs. ListCredentials api w = (Inr cs, w) \<and> distinct (map TargetName cs) \<and>
          set (map TargetName cs) = dom (store w)"
  by (simp add: lawful_wincred_def)

section \<open>An in-memory credential manager\<close>

text \<open>The world is the list of stored blobs; blobs longer than 2560 bytes are refused.\<close>

type_synonym mem_creds = "(string \<times> bytes) list"

definition mem_fits :: "bytes \<Rightarrow> bool" where
  "mem_fits b = (length b \<le> 2560)"

definition mem_wincred :: "mem_creds wincred_api" where
  "mem_wincred =
    \<lparr>GetGenericCredential = (\<lambda>t w. case map_of w t of
        None \<Rightarrow> (Inl errElementNotFound, w)
      | Some b \<Rightarrow> (Inr \<lparr>TargetName = t, CredentialBlob = Some b, Persist = 2\<rparr>, w)),
     NewGenericCredential = (\<lambda>t. \<lparr>TargetName = t, CredentialBlob = None, Persist = 2\<rparr>),
     WriteCredential = (\<lambda>c w.
        if mem_fits (bytes_of (CredentialBlob c))
        then (Inr (), AList.update (TargetName c) (bytes_of (CredentialBlob c)) w)
        else (Inl (Errno 1783), w)),
     DeleteCredential = (\<lambda>c w. case map_of w (TargetName c) of
        None \<Rightarrow> (Inl errElementNotFound, w)
      | Some _ \<Rightarrow> (Inr (), AList.delete (TargetName c) w)),
     ListCredentials = (\<lambda>w. (Inr (map (\<lambda>t. \<lparr>TargetName = t, CredentialBlob = map_of w t, Persist = 2\<rparr>)
                                    (remdups (map fst w))), w)),
     PersistLocalMachine = 2\<rparr>"

lemma mem_List_targets:
  "map TargetName (map (\<lambda>t. \<lparr>TargetName = t, CredentialBlob = f t, Persist = n\<rparr>) ts) = ts"
  by (induction ts) simp_all

lemma mem_wincred_lawful: "lawful_wincred mem_wincred map_of mem_fits"
  unfolding lawful_wincred_def mem_wincred_def
  by (simp add: update_conv' delete_conv' dom_map_of_conv_image_fst mem_List_targets image_image
      del: map_map split: option.splits)

end
