(* ===== verification/Namespace.thy ===== *)
theory Namespace
  imports Prelude
begin

text \<open>
  Several backends keep the keys of one keyring apart from everything else in a shared
  service by prefixing them: the credential names of \<open>wincred\<close> and \<open>winhello\<close>, the item titles
  of the 1Password backends. The locale states what they rely on, and proves once that listing by
  prefix recovers the keys.
\<close>

locale key_namespace =
  fixes pre :: string
    and name :: "string \<Rightarrow> string"
  assumes name_prefix: "name k = pre @ k"
begin

lemma name_inject: "name k = name k' \<longleftrightarrow> k = k'"
  by (simp add: name_prefix)

lemma HasPrefix_name: "HasPrefix (name k) pre"
  by (simp add: name_prefix)

lemma Trim_name: "TrimPrefix (name k) pre = k"
  by (simp add: name_prefix)

lemma name_Trim: "HasPrefix t pre \<Longrightarrow> name (TrimPrefix t pre) = t"
  by (simp add: name_prefix TrimPrefix_eq)

lemma HasPrefix_name_iff: "HasPrefix t pre \<longleftrightarrow> (\<exists>k. t = name k)"
  by (simp add: name_prefix HasPrefix_iff)

text \<open>The loop every such backend's \<open>Keys\<close> runs: keep the names with the prefix, strip it.\<close>

lemma set_listed:
  "set (map (\<lambda>t. TrimPrefix t pre) (filter (\<lambda>t. HasPrefix t pre) ts)) = {k. name k \<in> set ts}"
  by (auto simp: HasPrefix_name_iff Trim_name image_iff) (metis Trim_name)

lemma distinct_listed:
  "distinct ts \<Longrightarrow> distinct (map (\<lambda>t. TrimPrefix t pre) (filter (\<lambda>t. HasPrefix t pre) ts))"
  by (rule distinct_map_filter_inj) (auto simp: inj_on_def HasPrefix_name_iff Trim_name)

end

end
