(* ===== verification/Wincred.thy ===== *)
theory Wincred
  imports Wincred_Service Namespace
begin

text \<open>
  \<open>wincred.go\<close>: the backend that keeps the data of an item, in the clear, as a generic
  credential named \<open>prefix:service:key\<close>.
\<close>

record windowsKeyring =
  wk_name :: string
  wk_prefix :: string

definition wincred_opener :: "('w, windowsKeyring) opener" where
  "wincred_opener cfg =
     (let name = ServiceName cfg;
          name = (if name = '''' then ''default'' else name);
          prefix = WinCredPrefix cfg;
          prefix = (if prefix = '''' then ''keyring'' else prefix)
      in go_return \<lparr>wk_name = name, wk_prefix = prefix\<rparr>)"

definition credentialName :: "windowsKeyring \<Rightarrow> string \<Rightarrow> string" where
  "credentialName k key = wk_prefix k @ '':'' @ wk_name k @ '':'' @ key"

definition wincred_Get :: "'w wincred_api \<Rightarrow> windowsKeyring \<Rightarrow> string \<Rightarrow> ('w, Item) call" where
  "wincred_Get api k key w =
     (case GetGenericCredential api (credentialName k key) w of
        (Inl err, w) \<Rightarrow>
          (if err = errElementNotFound then (Inl ErrKeyNotFound, w) else (Inl err, w))
      | (Inr cred, w) \<Rightarrow> (Inr (zero_Item\<lparr>Key := key, Data := CredentialBlob cred\<rparr>), w))"

definition wincred_GetMetadata :: "windowsKeyring \<Rightarrow> string \<Rightarrow> ('w, Metadata) call" where
  "wincred_GetMetadata k key = go_fail ErrMetadataNotSupported"

definition wincred_Set :: "'w wincred_api \<Rightarrow> windowsKeyring \<Rightarrow> Item \<Rightarrow> ('w, unit) call" where
  "wincred_Set api k item w =
     (let cred = NewGenericCredential api (credentialName k (Key item));
          cred = cred\<lparr>CredentialBlob := Data item\<rparr>
      in WriteCredential api cred w)"

definition wincred_Remove :: "'w wincred_api \<Rightarrow> windowsKeyring \<Rightarrow> string \<Rightarrow> ('w, unit) call" where
  "wincred_Remove api k key w =
     (case GetGenericCredential api (credentialName k key) w of
        (Inl err, w) \<Rightarrow>
          (if err = errElementNotFound then (Inl ErrKeyNotFound, w) else (Inl err, w))
      | (Inr cred, w) \<Rightarrow> DeleteCredential api cred w)"

fun wincred_keys_loop :: "windowsKeyring \<Rightarrow> string list \<Rightarrow> GenericCredential list \<Rightarrow> string list" where
  "wincred_keys_loop k results [] = results"
| "wincred_keys_loop k results (cred # creds) =
     (let prefix = credentialName k ''''
      in wincred_keys_loop k
           (if HasPrefix (TargetName cred) prefix
            then results @ [TrimPrefix (TargetName cred) prefix] else results) creds)"

definition wincred_Keys :: "'w wincred_api \<Rightarrow> windowsKeyring \<Rightarrow> ('w, string list) call" where
  "wincred_Keys api k w =
     (case ListCredentials api w of
        (Inr creds, w) \<Rightarrow> (Inr (wincred_keys_loop k [] creds), w)
      | (Inl err, w) \<Rightarrow> (Inr [], w))"

section \<open>The names of credentials\<close>

interpretation wc_names: key_namespace "credentialName k ''''" "credentialName k" for k
  by unfold_locales (simp add: credentialName_def)

lemma wincred_keys_loop_eq:
  "wincred_keys_loop k results creds = results @
     map (\<lambda>t. TrimPrefix t (credentialName k ''''))
       (filter (\<lambda>t. HasPrefix t (credentialName k '''')) (map TargetName creds))"
  by (induction creds arbitrary: results) (simp_all add: Let_def)

section \<open>The keyring contract\<close>

text \<open>
  A usable \<open>wincred\<close> keyring: the library with the store its laws speak of, the keyring object
  and the world. The size limit \<open>fits\<close> of the credential manager is a parameter of the contract.
\<close>

record 'w wincred_state =
  ws_api :: "'w wincred_api"
  ws_store :: "'w \<Rightarrow> string \<Rightarrow> bytes option"
  ws_keyring :: windowsKeyring
  ws_world :: 'w

definition wincred_inv :: "(bytes \<Rightarrow> bool) \<Rightarrow> 'w wincred_state \<Rightarrow> bool" where
  "wincred_inv fits s = lawful_wincred (ws_api s) (ws_store s) fits"

definition wincred_view :: "'w wincred_state \<Rightarrow> string \<Rightarrow> (string \<times> bytes) option" where
  "wincred_view s key =
     map_option (\<lambda>b. (key, b)) (ws_store s (ws_world s) (credentialName (ws_keyring s) key))"

definition wincred_lift ::
  "('w wincred_api \<Rightarrow> windowsKeyring \<Rightarrow> ('w, 'a) call) \<Rightarrow> ('w wincred_state, 'a) call" where
  "wincred_lift m s =
     (case m (ws_api s) (ws_keyring s) (ws_world s) of (r, w) \<Rightarrow> (r, s\<lparr>ws_world := w\<rparr>))"

definition wincred_okitem :: "(bytes \<Rightarrow> bool) \<Rightarrow> Item \<Rightarrow> bool" where
  "wincred_okitem fits i = fits (bytes_of (Data i))"

lemma wincred_view_upd:
  "ws_store s w' = (ws_store s (ws_world s))(credentialName (ws_keyring s) key := b) \<Longrightarrow>
     wincred_view (s\<lparr>ws_world := w'\<rparr>) =
       (wincred_view s)(key := map_option (\<lambda>b. (key, b)) b)"
  by (auto simp: wincred_view_def fun_eq_iff wc_names.name_inject)

lemma dom_wincred_view:
  "dom (wincred_view s) = {key. credentialName (ws_keyring s) key \<in> dom (ws_store s (ws_world s))}"
  by (auto simp: wincred_view_def)

interpretation wc: keyring_reports_missing "wincred_inv fits" wincred_view
  "\<lambda>_. True" "wincred_okitem fits" key_data
  "\<lambda>key. wincred_lift (\<lambda>api k. wincred_Get api k key)"
  "\<lambda>i. wincred_lift (\<lambda>api k. wincred_Set api k i)"
  "\<lambda>key. wincred_lift (\<lambda>api k. wincred_Remove api k key)"
  "wincred_lift wincred_Keys"
  for fits
proof (unfold_locales, goal_cases)
  case (1 i)
  then show ?case by simp
next
  case (2 s k v)
  then obtain b where b: "ws_store s (ws_world s) (credentialName (ws_keyring s) k) = Some b"
    "v = (k, b)" by (auto simp: wincred_view_def)
  with 2 lawful_GetSome [of "ws_api s" "ws_store s" fits, OF _ b(1)] show ?case
    by (auto simp: wincred_inv_def wincred_lift_def wincred_Get_def key_data_def)
next
  case (3 s k)
  then have "ws_store s (ws_world s) (credentialName (ws_keyring s) k) = None"
    by (simp add: wincred_view_def)
  with 3 lawful_GetNone [of "ws_api s" "ws_store s" fits, OF _ this] show ?case
    by (auto simp: wincred_inv_def wincred_lift_def wincred_Get_def)
next
  case (4 s i)
  let ?c = "(NewGenericCredential (ws_api s) (credentialName (ws_keyring s) (Key i)))
              \<lparr>CredentialBlob := Data i\<rparr>"
  from 4 obtain w' where "WriteCredential (ws_api s) ?c (ws_world s) = (Inr (), w')"
    "ws_store s w' = (ws_store s (ws_world s))
       (credentialName (ws_keyring s) (Key i) := Some (bytes_of (Data i)))"
    using lawful_Write [of "ws_api s" "ws_store s" fits ?c "ws_world s"]
    by (auto simp: wincred_inv_def wincred_okitem_def lawful_New)
  with 4 wincred_view_upd [OF this(2)] show ?case
    by (auto simp: wincred_lift_def wincred_Set_def key_data_def wincred_inv_def)
next
  case (5 s k)
  let ?t = "credentialName (ws_keyring s) k"
  from 5 have law: "lawful_wincred (ws_api s) (ws_store s) fits"
    by (simp add: wincred_inv_def)
  show ?case
  proof (cases "ws_store s (ws_world s) ?t")
    case None
    then have "wincred_view s k = None" by (simp add: wincred_view_def)
    with 5 lawful_GetNone [OF law None] show ?thesis
      by (auto simp: wincred_lift_def wincred_Remove_def)
  next
    case (Some b)
    from lawful_GetSome [OF law Some] obtain c where
      c: "GetGenericCredential (ws_api s) ?t (ws_world s) = (Inr c, ws_world s)" "TargetName c = ?t"
      by blast
    from lawful_Delete [OF law, of "ws_world s" c b] Some c obtain w' where
      w': "DeleteCredential (ws_api s) c (ws_world s) = (Inr (), w')"
      "ws_store s w' = (ws_store s (ws_world s))(?t := None)" by auto
    with 5 c wincred_view_upd [OF w'(2)] show ?thesis
      by (auto simp: wincred_lift_def wincred_Remove_def wincred_inv_def)
  qed
next
  case (6 s)
  then have law: "lawful_wincred (ws_api s) (ws_store s) fits"
    by (simp add: wincred_inv_def)
  from lawful_List [OF law] obtain cs where
    "ListCredentials (ws_api s) (ws_world s) = (Inr cs, ws_world s)"
    "set (map TargetName cs) = dom (ws_store s (ws_world s))" "distinct (map TargetName cs)" by blast
  with 6 show ?case
    by (simp add: wincred_lift_def wincred_Keys_def wincred_keys_loop_eq wc_names.set_listed wc_names.distinct_listed
        dom_wincred_view del: set_map)
next
  case (7 s k)
  then have "ws_store s (ws_world s) (credentialName (ws_keyring s) k) = None"
    by (simp add: wincred_view_def)
  with 7 lawful_GetNone [of "ws_api s" "ws_store s" fits, OF _ this] show ?case
    by (auto simp: wincred_inv_def wincred_lift_def wincred_Remove_def)
qed

section \<open>Properties\<close>

definition wincred_step :: "kop \<Rightarrow> 'w wincred_state \<Rightarrow> 'w wincred_state" where
  "wincred_step = step_kop (\<lambda>key. wincred_lift (\<lambda>api k. wincred_Get api k key))
     (\<lambda>i. wincred_lift (\<lambda>api k. wincred_Set api k i))
     (\<lambda>key. wincred_lift (\<lambda>api k. wincred_Remove api k key)) (wincred_lift wincred_Keys)"

text \<open>
  \<^bold>\<open>C7.\<close> Over a credential manager that behaves as documented, any sequence of calls on a \<open>wincred\<close>
  keyring with blobs of an accepted size makes it the map that the calls describe: \<open>Get\<close> answers
  with the key and the bytes last set, \<open>ErrKeyNotFound\<close> when there are none, and \<open>Keys\<close> lists
  exactly the keys of this keyring among all credentials of the user.
\<close>

theorem wincred_history:
  assumes "lawful_wincred (ws_api s) (ws_store s) fits"
    and "list_all (ok_kop (\<lambda>_. True) (wincred_okitem fits)) ps"
  shows "get_answers key_data (fold (spec_kop key_data) ps (wincred_view s) key)
      (fst (wincred_lift (\<lambda>api k. wincred_Get api k key) (fold wincred_step ps s))) \<and>
    (\<exists>ks. fst (wincred_lift wincred_Keys (fold wincred_step ps s)) = Inr ks \<and>
       distinct ks \<and> set ks = dom (fold (spec_kop key_data) ps (wincred_view s)))"
  using wc.history [of fits s ps key] assms unfolding wincred_step_def wincred_inv_def by simp

definition sample_wincred :: "mem_creds wincred_state" where
  "sample_wincred =
     \<lparr>ws_api = mem_wincred, ws_store = map_of,
      ws_keyring = \<lparr>wk_name = ''svc'', wk_prefix = ''keyring''\<rparr>,
      ws_world = [(''keyring:svc:a'', ''1''), (''other'', ''2'')]\<rparr>"

theorem wincred_history_witness:
  "fst (wincred_lift wincred_Keys (fold wincred_step
      [KSet (zero_Item\<lparr>Key := ''b'', Data := Some ''3''\<rparr>), KRemove ''a''] sample_wincred)) =
    Inr [''b'']"
proof -
  let ?i = "zero_Item\<lparr>Key := ''b'', Data := Some ''3''\<rparr>"
  have "dom (wincred_view sample_wincred) = {''a''}"
    by (auto simp: dom_wincred_view sample_wincred_def credentialName_def split: if_splits)
  then have "dom (fold (spec_kop key_data) [KSet ?i, KRemove ''a''] (wincred_view sample_wincred)) =
      {''b''}" by auto
  with wincred_history [of sample_wincred mem_fits "[KSet ?i, KRemove ''a'']" "''a''"] show ?thesis
    by (auto simp: sample_wincred_def mem_wincred_lawful wincred_okitem_def mem_fits_def
        dest: distinct_set_singleton)
qed

text \<open>
  \<^bold>\<open>C10.\<close> The names of credentials do not separate services whose names contain the separator:
  a keyring of service \<open>a:b\<close> answers \<open>Get key\<close> exactly as the keyring of service \<open>a\<close> with the same
  prefix answers \<open>Get (b:key)\<close>, whatever the credential manager does, and what either of them sets
  or removes there the other sets or removes.
\<close>

theorem wincred_services_overlap:
  "credentialName \<lparr>wk_name = a @ '':'' @ b, wk_prefix = p\<rparr> key =
     credentialName \<lparr>wk_name = a, wk_prefix = p\<rparr> (b @ '':'' @ key) \<and>
   map_sum id Data (fst (wincred_Get api \<lparr>wk_name = a @ '':'' @ b, wk_prefix = p\<rparr> key w)) =
     map_sum id Data (fst (wincred_Get api \<lparr>wk_name = a, wk_prefix = p\<rparr> (b @ '':'' @ key) w)) \<and>
   wincred_Remove api \<lparr>wk_name = a @ '':'' @ b, wk_prefix = p\<rparr> key w =
     wincred_Remove api \<lparr>wk_name = a, wk_prefix = p\<rparr> (b @ '':'' @ key) w"
proof -
  have name: "credentialName \<lparr>wk_name = a @ '':'' @ b, wk_prefix = p\<rparr> key =
     credentialName \<lparr>wk_name = a, wk_prefix = p\<rparr> (b @ '':'' @ key)"
    by (simp add: credentialName_def)
  then show ?thesis
    by (simp add: wincred_Get_def wincred_Remove_def split: prod.splits sum.splits)
qed

end
