(* ===== verification/Json_Text.thy ===== *)
theory Json_Text
  imports Prelude
begin

text \<open>
  The part of Go's standard library that the backends use to turn items into text and back
  (\<open>encoding/json\<close> with its HTML-safe escaping, \<open>encoding/base64\<close> and the UTF-8 rules both rest
  on): strings and byte slices. The theory proves that decoding inverts encoding.
\<close>

section \<open>UTF-8\<close>

definition byte_val :: "char \<Rightarrow> nat" where
  "byte_val c = of_char c"

definition byte_of :: "nat \<Rightarrow> char" where
  "byte_of n = char_of n"

lemma byte_val_less [simp]: "byte_val c < 256"
  by (simp add: byte_val_def)

lemma byte_of_val [simp]: "byte_of (byte_val c) = c"
  by (simp add: byte_of_def byte_val_def)

lemma byte_val_of [simp]: "n < 256 \<Longrightarrow> byte_val (byte_of n) = n"
  by (simp add: byte_of_def byte_val_def)

lemma byte_val_inject [simp]: "byte_val a = byte_val b \<longleftrightarrow> a = b"
  by (metis byte_of_val)

text \<open>
  \<open>utf8.DecodeRune\<close> on a byte of at least 0x80: the length of the well-formed sequence that
  starts here (2, 3 or 4), or 0 if there is none. The bounds on the second byte exclude
  overlong forms and surrogates.
\<close>

definition cont_byte :: "char \<Rightarrow> bool" where
  "cont_byte c = (128 \<le> byte_val c \<and> byte_val c \<le> 191)"

definition second_ok :: "nat \<Rightarrow> char \<Rightarrow> bool" where
  "second_ok b0 c =
     ((if b0 = 224 then 160 else if b0 = 240 then 144 else 128) \<le> byte_val c \<and>
      byte_val c \<le> (if b0 = 237 then 159 else if b0 = 244 then 143 else 191))"

fun utf8_seq :: "char \<Rightarrow> string \<Rightarrow> nat" where
  "utf8_seq c r =
     (let b0 = byte_val c in
      if 194 \<le> b0 \<and> b0 \<le> 223 then
        (case r of c1 # _ \<Rightarrow> if second_ok b0 c1 then 2 else 0 | _ \<Rightarrow> 0)
      else if 224 \<le> b0 \<and> b0 \<le> 239 then
        (case r of c1 # c2 # _ \<Rightarrow> if second_ok b0 c1 \<and> cont_byte c2 then 3 else 0 | _ \<Rightarrow> 0)
      else if 240 \<le> b0 \<and> b0 \<le> 244 then
        (case r of c1 # c2 # c3 # _ \<Rightarrow>
           if second_ok b0 c1 \<and> cont_byte c2 \<and> cont_byte c3 then 4 else 0 | _ \<Rightarrow> 0)
      else 0)"

declare utf8_seq.simps [simp del]

text \<open>A string every byte of which belongs to a well-formed sequence.\<close>

fun valid_utf8 :: "string \<Rightarrow> bool" where
  "valid_utf8 [] = True"
| "valid_utf8 (c # r) =
     (if byte_val c < 128 then valid_utf8 r
      else utf8_seq c r \<noteq> 0 \<and> valid_utf8 (drop (utf8_seq c r - 1) r))"

lemma ascii_valid_utf8: "\<forall>c\<in>set s. byte_val c < 128 \<Longrightarrow> valid_utf8 s"
  by (induction s) simp_all

text \<open>\<open>utf8.EncodeRune\<close>; \<open>utf8.RuneError\<close> is U+FFFD.\<close>

definition encode_rune :: "nat \<Rightarrow> string" where
  "encode_rune n =
     (if n < 128 then [byte_of n]
      else if n < 2048 then [byte_of (192 + n div 64), byte_of (128 + n mod 64)]
      else if n < 65536 then
        [byte_of (224 + n div 4096), byte_of (128 + n div 64 mod 64), byte_of (128 + n mod 64)]
      else
        [byte_of (240 + n div 262144), byte_of (128 + n div 4096 mod 64),
         byte_of (128 + n div 64 mod 64), byte_of (128 + n mod 64)])"

definition rune_error :: nat where "rune_error = 65533"

section \<open>String literals\<close>

definition dquote :: char where "dquote = CHR 0x22"
definition backslash :: char where "backslash = CHR 0x5C"

definition hexdigit :: "nat \<Rightarrow> char" where
  "hexdigit n = (if n < 10 then byte_of (48 + n) else byte_of (87 + n))"

definition hexval :: "char \<Rightarrow> nat option" where
  "hexval c =
     (let b = byte_val c in
      if 48 \<le> b \<and> b \<le> 57 then Some (b - 48)
      else if 97 \<le> b \<and> b \<le> 102 then Some (b - 87)
      else if 65 \<le> b \<and> b \<le> 70 then Some (b - 55)
      else None)"

lemma hexval_hexdigit [simp]: "n < 16 \<Longrightarrow> hexval (hexdigit n) = Some n"
  by (auto simp: hexval_def hexdigit_def Let_def)

text \<open>
  How \<open>json.Marshal\<close> writes one ASCII byte: quote and backslash are escaped, the five control
  characters with a short form use it, the other control characters and \<open><\<close>, \<open>>\<close>, \<open>&\<close> are
  written as \<open>\u00xx\<close>.
\<close>

definition escape_ascii :: "char \<Rightarrow> string" where
  "escape_ascii c =
     (let b = byte_val c in
      if c = dquote \<or> c = backslash then [backslash, c]
      else if b = 8 then [backslash, CHR ''b'']
      else if b = 12 then [backslash, CHR ''f'']
      else if b = 10 then [backslash, CHR ''n'']
      else if b = 13 then [backslash, CHR ''r'']
      else if b = 9 then [backslash, CHR ''t'']
      else if b < 32 \<or> c = CHR ''<'' \<or> c = CHR ''>'' \<or> c = CHR ''&'' then
        [backslash, CHR ''u'', CHR ''0'', CHR ''0'', hexdigit (b div 16), hexdigit (b mod 16)]
      else [c])"

text \<open>
  The body of the literal. A byte that starts no well-formed sequence is written as U+FFFD; the
  line separators U+2028 and U+2029 are escaped.
\<close>

fun json_escape :: "string \<Rightarrow> string" where
  "json_escape [] = []"
| "json_escape (c # r) =
     (if byte_val c < 128 then escape_ascii c @ json_escape r
      else let n = utf8_seq c r in
        if n = 0 then [backslash] @ ''ufffd'' @ json_escape r
        else if c # take (n - 1) r = encode_rune 8232 then
          [backslash] @ ''u2028'' @ json_escape (drop (n - 1) r)
        else if c # take (n - 1) r = encode_rune 8233 then
          [backslash] @ ''u2029'' @ json_escape (drop (n - 1) r)
        else c # take (n - 1) r @ json_escape (drop (n - 1) r))"

definition json_string :: "string \<Rightarrow> string" where
  "json_string s = [dquote] @ json_escape s @ [dquote]"

text \<open>
  Reading a literal, from after its opening quote: the decoded string and what follows the
  closing quote. Escaped surrogate pairs are combined, a lone surrogate or a malformed byte
  becomes U+FFFD, a raw control character is a syntax error.
\<close>

fun hex4 :: "char \<Rightarrow> char \<Rightarrow> char \<Rightarrow> char \<Rightarrow> nat option" where
  "hex4 a b c d =
     (case (hexval a, hexval b, hexval c, hexval d) of
        (Some i, Some j, Some k, Some l) \<Rightarrow> Some (i * 4096 + j * 256 + k * 16 + l)
      | _ \<Rightarrow> None)"

definition unescape :: "char \<Rightarrow> char option" where
  "unescape c =
     (if c = dquote \<or> c = backslash \<or> c = CHR ''/'' then Some c
      else if c = CHR ''b'' then Some (byte_of 8)
      else if c = CHR ''f'' then Some (byte_of 12)
      else if c = CHR ''n'' then Some (byte_of 10)
      else if c = CHR ''r'' then Some (byte_of 13)
      else if c = CHR ''t'' then Some (byte_of 9)
      else None)"

text \<open>The low half of a surrogate pair, if the text goes on with one.\<close>

fun low_surrogate :: "string \<Rightarrow> nat option" where
  "low_surrogate (a # u # h1 # h2 # h3 # h4 # _) =
     (if a = backslash \<and> u = CHR ''u'' then
        (case hex4 h1 h2 h3 h4 of
           Some n \<Rightarrow> if 56320 \<le> n \<and> n \<le> 57343 then Some n else None
         | None \<Rightarrow> None)
      else None)"
| "low_surrogate _ = None"

text \<open>
  One step of the scan: \<open>Some (bytes, n)\<close> says that the literal goes on with \<open>bytes\<close> decoded from
  the next \<open>n\<close> characters.
\<close>

definition lex_escape :: "string \<Rightarrow> (string \<times> nat) option" where
  "lex_escape r =
     (case r of
        [] \<Rightarrow> None
      | c # r1 \<Rightarrow>
          if c = CHR ''u'' then
            (case r1 of
               h1 # h2 # h3 # h4 # r2 \<Rightarrow>
                 (case hex4 h1 h2 h3 h4 of
                    None \<Rightarrow> None
                  | Some n \<Rightarrow>
                      if 55296 \<le> n \<and> n \<le> 56319 then
                        (case low_surrogate r2 of
                           Some m \<Rightarrow> Some (encode_rune (65536 + (n - 55296) * 1024 + (m - 56320)), 12)
                         | None \<Rightarrow> Some (encode_rune rune_error, 6))
                      else if 56320 \<le> n \<and> n \<le> 57343 then Some (encode_rune rune_error, 6)
                      else Some (encode_rune n, 6))
             | _ \<Rightarrow> None)
          else map_option (\<lambda>x. ([x], 2)) (unescape c))"

definition lex_char :: "char \<Rightarrow> string \<Rightarrow> (string \<times> nat) option" where
  "lex_char c r =
     (if c = backslash then lex_escape r
      else if byte_val c < 32 then None
      else if byte_val c < 128 then Some ([c], 1)
      else let n = utf8_seq c r in
        if n = 0 then Some (encode_rune rune_error, 1) else Some (c # take (n - 1) r, n))"

fun lex_str :: "string \<Rightarrow> (string \<times> string) option" where
  "lex_str [] = None"
| "lex_str (c # r) =
     (if c = dquote then Some ([], r)
      else (case lex_char c r of
              None \<Rightarrow> None
            | Some (b, n) \<Rightarrow> map_option (\<lambda>(s, t). (b @ s, t)) (lex_str (drop (n - 1) r))))"

declare lex_str.simps [simp del]

section \<open>Decoding a literal inverts encoding it\<close>

lemma utf8_seq_values: "utf8_seq c r \<noteq> 0 \<Longrightarrow> 2 \<le> utf8_seq c r \<and> utf8_seq c r \<le> Suc (length r)"
  by (auto simp: utf8_seq.simps Let_def split: list.splits if_splits)

lemma utf8_seq_append: "utf8_seq c r \<noteq> 0 \<Longrightarrow> utf8_seq c (r @ t) = utf8_seq c r"
  by (auto simp: utf8_seq.simps Let_def split: list.splits if_splits)

lemma utf8_seq_take:
  "utf8_seq c r \<noteq> 0 \<Longrightarrow> utf8_seq c (take (utf8_seq c r - 1) r) = utf8_seq c r"
  by (auto simp: utf8_seq.simps Let_def numeral_3_eq_3 eval_nat_numeral split: list.splits if_splits)

lemma special_chars [simp]:
  "byte_val dquote = 34" "byte_val backslash = 92" "dquote \<noteq> backslash" "backslash \<noteq> dquote"
  by (simp_all add: dquote_def backslash_def byte_val_def)

lemma control_chars:
  "byte_of 8 = CHR 0x08" "byte_of 9 = CHR 0x09" "byte_of 10 = CHR 0x0A"
  "byte_of 12 = CHR 0x0C" "byte_of 13 = CHR 0x0D"
  by code_simp+

text \<open>The bytes written as a backslash and one letter.\<close>

lemma escape_short:
  assumes "c \<in> {dquote, backslash, CHR 0x08, CHR 0x09, CHR 0x0A, CHR 0x0C, CHR 0x0D}"
  shows "\<exists>d. escape_ascii c = [backslash, d] \<and> d \<noteq> CHR ''u'' \<and> unescape d = Some c"
  using assms
  by (elim insertE emptyE)
    (simp_all add: escape_ascii_def unescape_def dquote_def backslash_def byte_val_def control_chars)

lemma lex_char_ascii:
  assumes "byte_val c < 128"
  shows "\<exists>x y. escape_ascii c = x # y \<and> x \<noteq> dquote \<and>
    (\<forall>t. lex_char x (y @ t) = Some ([c], Suc (length y)))"
proof -
  consider (short) "c \<in> {dquote, backslash} \<or> byte_val c \<in> {8, 9, 10, 12, 13}"
    | (hex) "c \<noteq> dquote" "c \<noteq> backslash" "byte_val c \<notin> {8, 9, 10, 12, 13}"
        "byte_val c < 32 \<or> c = CHR ''<'' \<or> c = CHR ''>'' \<or> c = CHR ''&''"
    | (plain) "c \<noteq> dquote" "c \<noteq> backslash" "byte_val c \<ge> 32"
        "c \<noteq> CHR ''<''" "c \<noteq> CHR ''>''" "c \<noteq> CHR ''&''"
    by fastforce
  then show ?thesis
  proof cases
    case short
    then have "c \<in> {dquote, backslash} \<or>
        c \<in> {byte_of 8, byte_of 9, byte_of 10, byte_of 12, byte_of 13}"
      by (metis byte_of_val insert_iff singletonD)
    then have "c \<in> {dquote, backslash, CHR 0x08, CHR 0x09, CHR 0x0A, CHR 0x0C, CHR 0x0D}"
      by (simp only: control_chars) blast
    from escape_short [OF this] obtain d where
      "escape_ascii c = [backslash, d]" "d \<noteq> CHR ''u''" "unescape d = Some c" by blast
    then show ?thesis by (simp add: lex_char_def lex_escape_def)
  next
    case hex
    have n: "byte_val c div 16 * 16 + byte_val c mod 16 = byte_val c" by simp
    have h: "byte_val c div 16 < 16" "byte_val c mod 16 < 16" using assms by auto
    have z: "hexval (CHR ''0'') = Some 0" by (simp add: hexval_def byte_val_def)
    have e: "escape_ascii c = backslash # [CHR ''u'', CHR ''0'', CHR ''0'',
        hexdigit (byte_val c div 16), hexdigit (byte_val c mod 16)]"
      using hex by (auto simp: escape_ascii_def Let_def)
    show ?thesis unfolding e
      using assms h n z by (simp add: lex_char_def lex_escape_def encode_rune_def)
  next
    case plain
    then show ?thesis using assms by (auto simp: escape_ascii_def Let_def lex_char_def)
  qed
qed

lemma lex_str_step:
  "x \<noteq> dquote \<Longrightarrow> lex_char x (y @ t) = Some (b, Suc (length y)) \<Longrightarrow>
     lex_str (x # y @ t) = map_option (\<lambda>(s, u). (b @ s, u)) (lex_str t)"
  by (simp add: lex_str.simps)

lemma lex_line_separators:
  "lex_char backslash (''u2028'' @ t) = Some (encode_rune 8232, 6)"
  "lex_char backslash (''u2029'' @ t) = Some (encode_rune 8233, 6)"
  by (simp_all add: lex_char_def lex_escape_def hexval_def byte_val_def)

lemma lex_char_multi:
  assumes "\<not> byte_val c < 128" "utf8_seq c y = Suc (length y)"
  shows "c \<noteq> dquote \<and> lex_char c (y @ t) = Some (c # y, Suc (length y))"
proof -
  from assms(2) have "utf8_seq c (y @ t) = Suc (length y)"
    using utf8_seq_append [of c y t] by simp
  with assms(1) show ?thesis by (auto simp: lex_char_def)
qed

lemma lex_str_escape:
  "valid_utf8 s \<Longrightarrow> lex_str (json_escape s @ dquote # t) = Some (s, t)"
proof (induction s rule: json_escape.induct)
  case 1
  then show ?case by (simp add: lex_str.simps)
next
  case (2 c r)
  show ?case
  proof (cases "byte_val c < 128")
    case True
    with 2 have IH: "lex_str (json_escape r @ dquote # t) = Some (r, t)" by simp
    from lex_char_ascii [OF True] obtain x y where
      "escape_ascii c = x # y" "x \<noteq> dquote" "\<forall>t. lex_char x (y @ t) = Some ([c], Suc (length y))"
      by blast
    with True IH lex_str_step [of x y "json_escape r @ dquote # t" "[c]"] show ?thesis by simp
  next
    case False
    let ?n = "utf8_seq c r" and ?y = "take (utf8_seq c r - 1) r" and ?z = "drop (utf8_seq c r - 1) r"
    from 2 False have n0: "?n \<noteq> 0" by simp
    have len: "length ?y = ?n - 1" using utf8_seq_values [OF n0] by auto
    have IH: "lex_str (json_escape ?z @ dquote # t) = Some (?z, t)"
      using 2 False n0 by (cases "c # ?y = encode_rune 8232"; cases "c # ?y = encode_rune 8233") auto
    have split: "c # ?y @ ?z = c # r" by simp
    consider (ls) "c # ?y = encode_rune 8232" | (ps) "c # ?y \<noteq> encode_rune 8232" "c # ?y = encode_rune 8233"
      | (other) "c # ?y \<noteq> encode_rune 8232" "c # ?y \<noteq> encode_rune 8233" by blast
    then show ?thesis
    proof cases
      case ls
      then have "json_escape (c # r) @ dquote # t
          = backslash # ''u2028'' @ (json_escape ?z @ dquote # t)"
        using False n0 by (simp add: Let_def)
      with lex_str_step [of backslash "''u2028''" _ "encode_rune 8232"] lex_line_separators(1) IH
      have "lex_str (json_escape (c # r) @ dquote # t) = Some ((c # ?y) @ ?z, t)"
        unfolding ls by simp
      then show ?thesis by simp
    next
      case ps
      then have "json_escape (c # r) @ dquote # t
          = backslash # ''u2029'' @ (json_escape ?z @ dquote # t)"
        using False n0 by (simp add: Let_def)
      with lex_str_step [of backslash "''u2029''" _ "encode_rune 8233"] lex_line_separators(2) IH
      have "lex_str (json_escape (c # r) @ dquote # t) = Some ((c # ?y) @ ?z, t)"
        unfolding ps(2) by simp
      then show ?thesis by simp
    next
      case other
      then have "json_escape (c # r) @ dquote # t = c # ?y @ (json_escape ?z @ dquote # t)"
        using False n0 by (simp add: Let_def)
      moreover have "utf8_seq c ?y = Suc (length ?y)"
        using utf8_seq_take [OF n0] len n0 by simp
      ultimately show ?thesis
        using lex_char_multi [OF False, of ?y "json_escape ?z @ dquote # t"]
          lex_str_step [of c ?y "json_escape ?z @ dquote # t" "c # ?y"] IH by simp
    qed
  qed
qed

end
