(* ===== verification/Json.thy ===== *)
theory Json
  imports Json_Text
begin

text \<open>
  \<open>encoding/base64\<close> (the standard encoding) and \<open>encoding/json\<close>: JSON values, their text as
  \<open>json.Marshal\<close> writes it, the scanner and parser behind \<open>json.Unmarshal\<close>, and decoding into a
  struct given its field table. A struct whose fields are scalars survives the trip.
\<close>

section \<open>Base64\<close>

definition b64_alphabet :: string where
  "b64_alphabet = ''ABCDEFGHIJKLMNOPQRSTUVWXYZabcdefghijklmnopqrstuvwxyz0123456789+/''"

definition b64_char :: "nat \<Rightarrow> char" where
  "b64_char n = b64_alphabet ! n"

definition b64_val :: "char \<Rightarrow> nat option" where
  "b64_val c = map_of (zip b64_alphabet [0..<64]) c"

fun b64_encode :: "bytes \<Rightarrow> string" where
  "b64_encode [] = []"
| "b64_encode [a] =
     (let x = byte_val a in [b64_char (x div 4), b64_char (x mod 4 * 16), CHR ''='', CHR ''=''])"
| "b64_encode [a, b] =
     (let x = byte_val a; y = byte_val b in
      [b64_char (x div 4), b64_char (x mod 4 * 16 + y div 16), b64_char (y mod 16 * 4), CHR ''=''])"
| "b64_encode (a # b # c # r) =
     (let x = byte_val a; y = byte_val b; z = byte_val c in
      b64_char (x div 4) # b64_char (x mod 4 * 16 + y div 16) #
      b64_char (y mod 16 * 4 + z div 64) # b64_char (z mod 64) # b64_encode r)"

text \<open>Decoding skips carriage returns and newlines and wants padding.\<close>

fun b64_quads :: "string \<Rightarrow> bytes option" where
  "b64_quads [] = Some []"
| "b64_quads (a # b # c # d # r) =
     (case (b64_val a, b64_val b) of
        (Some i, Some j) \<Rightarrow>
          (if c = CHR ''='' \<and> d = CHR ''='' \<and> r = [] then Some [byte_of (i * 4 + j div 16)]
           else (case b64_val c of
              None \<Rightarrow> None
            | Some k \<Rightarrow>
                if d = CHR ''='' \<and> r = [] then
                  Some [byte_of (i * 4 + j div 16), byte_of (j mod 16 * 16 + k div 4)]
                else (case (b64_val d, b64_quads r) of
                   (Some l, Some bs) \<Rightarrow>
                     Some (byte_of (i * 4 + j div 16) # byte_of (j mod 16 * 16 + k div 4) #
                           byte_of (k mod 4 * 64 + l) # bs)
                 | _ \<Rightarrow> None)))
      | _ \<Rightarrow> None)"
| "b64_quads _ = None"

definition b64_decode :: "string \<Rightarrow> bytes option" where
  "b64_decode s = b64_quads (filter (\<lambda>c. c \<noteq> CHR 0x0A \<and> c \<noteq> CHR 0x0D) s)"

lemma b64_char_table:
  "list_all (\<lambda>n. b64_val (b64_char n) = Some n \<and> b64_char n \<noteq> CHR ''='' \<and>
     b64_char n \<noteq> CHR 0x0A \<and> b64_char n \<noteq> CHR 0x0D \<and> byte_val (b64_char n) < 128) [0..<64]"
  by code_simp

lemma b64_char_facts [simp]:
  assumes "n < 64"
  shows "b64_val (b64_char n) = Some n" "b64_char n \<noteq> CHR ''=''"
    "b64_char n \<noteq> CHR 0x0A" "b64_char n \<noteq> CHR 0x0D" "byte_val (b64_char n) < 128"
  using assms b64_char_table by (simp_all add: list_all_iff)

lemma sextets [simp]:
  "byte_val a div 4 < 64" "byte_val a mod 4 * 16 < 64"
  "byte_val a mod 4 * 16 + byte_val b div 16 < 64" "byte_val a mod 16 * 4 < 64"
  "byte_val a mod 16 * 4 + byte_val b div 64 < 64" "byte_val a mod 64 < 64"
  using byte_val_less [of a] byte_val_less [of b] by linarith+

lemma pack_unpack:
  fixes a b m :: nat
  assumes "b < m"
  shows "(a * m + b) div m = a" "(a * m + b) mod m = b"
  using assms by simp_all

lemma octets_nat:
  fixes x y z :: nat
  assumes "x < 256" "y < 256" "z < 256"
  shows "x div 4 * 4 + (x mod 4 * 16) div 16 = x"
    "x div 4 * 4 + (x mod 4 * 16 + y div 16) div 16 = x"
    "(x mod 4 * 16 + y div 16) mod 16 * 16 + (y mod 16 * 4) div 4 = y"
    "(x mod 4 * 16 + y div 16) mod 16 * 16 + (y mod 16 * 4 + z div 64) div 4 = y"
    "(y mod 16 * 4 + z div 64) mod 4 * 64 + z mod 64 = z"
proof -
  have y: "y div 16 < 16" and z: "z div 64 < 4" using assms by simp_all
  show "x div 4 * 4 + (x mod 4 * 16) div 16 = x" by simp
  show "x div 4 * 4 + (x mod 4 * 16 + y div 16) div 16 = x"
    by (simp only: pack_unpack(1) [OF y] div_mult_mod_eq)
  show "(x mod 4 * 16 + y div 16) mod 16 * 16 + (y mod 16 * 4) div 4 = y"
    by (simp only: pack_unpack(2) [OF y]) simp
  show "(x mod 4 * 16 + y div 16) mod 16 * 16 + (y mod 16 * 4 + z div 64) div 4 = y"
    by (simp only: pack_unpack(2) [OF y] pack_unpack(1) [OF z] div_mult_mod_eq)
  show "(y mod 16 * 4 + z div 64) mod 4 * 64 + z mod 64 = z"
    by (simp only: pack_unpack(2) [OF z] div_mult_mod_eq)
qed

lemmas octets = octets_nat [OF byte_val_less byte_val_less byte_val_less]

lemma b64_quads_char:
  "i < 64 \<Longrightarrow> j < 64 \<Longrightarrow>
     b64_quads [b64_char i, b64_char j, CHR ''='', CHR ''=''] = Some [byte_of (i * 4 + j div 16)]"
  "i < 64 \<Longrightarrow> j < 64 \<Longrightarrow> k < 64 \<Longrightarrow>
     b64_quads [b64_char i, b64_char j, b64_char k, CHR ''=''] =
       Some [byte_of (i * 4 + j div 16), byte_of (j mod 16 * 16 + k div 4)]"
  "i < 64 \<Longrightarrow> j < 64 \<Longrightarrow> k < 64 \<Longrightarrow> l < 64 \<Longrightarrow>
     b64_quads (b64_char i # b64_char j # b64_char k # b64_char l # r) =
       map_option (\<lambda>bs. byte_of (i * 4 + j div 16) # byte_of (j mod 16 * 16 + k div 4) #
                          byte_of (k mod 4 * 64 + l) # bs) (b64_quads r)"
  by (simp_all split: option.split)

lemma b64_quads_encode: "b64_quads (b64_encode s) = Some s"
proof (induction s rule: b64_encode.induct)
  case (4 a b c r)
  then have IH: "b64_quads (b64_encode r) = Some r" by simp
  show ?case
    by (simp only: b64_encode.simps Let_def)
      (simp only: b64_quads_char(3) sextets IH octets option.map byte_of_val)
next
  case 1
  show ?case by simp
next
  case (2 a)
  show ?case
    by (simp only: b64_encode.simps Let_def) (simp only: b64_quads_char(1) sextets octets byte_of_val)
next
  case (3 a b)
  show ?case
    by (simp only: b64_encode.simps Let_def) (simp only: b64_quads_char(2) sextets octets byte_of_val)
qed

lemma b64_encode_clean:
  "\<forall>c\<in>set (b64_encode s). c \<noteq> CHR 0x0A \<and> c \<noteq> CHR 0x0D \<and> byte_val c < 128"
  by (induction s rule: b64_encode.induct) (simp_all add: Let_def, simp_all add: byte_val_def)

lemma b64_decode_encode [simp]: "b64_decode (b64_encode s) = Some s"
proof -
  have "filter (\<lambda>c. c \<noteq> CHR 0x0A \<and> c \<noteq> CHR 0x0D) (b64_encode s) = b64_encode s"
    using b64_encode_clean [of s] by (simp add: filter_id_conv)
  then show ?thesis by (simp add: b64_decode_def b64_quads_encode)
qed

lemma b64_encode_valid_utf8 [simp]: "valid_utf8 (b64_encode s)"
  using b64_encode_clean [of s] by (simp add: ascii_valid_utf8)

section \<open>Values and their text\<close>

datatype json =
    JNull | JBool bool | JNum string | JStr string | JArr "json list" | JObj "(string \<times> json) list"

text \<open>A struct marshals to an object whose members are its fields in declaration order.\<close>

fun scalar_text :: "json \<Rightarrow> string" where
  "scalar_text JNull = ''null''"
| "scalar_text (JBool b) = (if b then ''true'' else ''false'')"
| "scalar_text (JNum n) = n"
| "scalar_text (JStr s) = json_string s"
| "scalar_text (JArr vs) = []"
| "scalar_text (JObj ms) = []"

fun members_text :: "(string \<times> json) list \<Rightarrow> string" where
  "members_text [] = []"
| "members_text [(k, v)] = json_string k @ '':'' @ scalar_text v"
| "members_text ((k, v) # ms) = json_string k @ '':'' @ scalar_text v @ '','' @ members_text ms"

definition object_text :: "(string \<times> json) list \<Rightarrow> string" where
  "object_text ms = ''{'' @ members_text ms @ ''}''"

section \<open>Scanner\<close>

datatype token =
    TLBrace | TRBrace | TLBrack | TRBrack | TColon | TComma
  | TNull | TTrue | TFalse | TStr string | TNum string

definition is_digit :: "char \<Rightarrow> bool" where
  "is_digit c = (48 \<le> byte_val c \<and> byte_val c \<le> 57)"

definition is_space :: "char \<Rightarrow> bool" where
  "is_space c = (byte_val c \<in> {32, 9, 10, 13})"

definition span_digits :: "string \<Rightarrow> string \<times> string" where
  "span_digits s = (takeWhile is_digit s, dropWhile is_digit s)"

fun lex_int :: "string \<Rightarrow> (string \<times> string) option" where
  "lex_int [] = None"
| "lex_int (c # r) =
     (if c = CHR ''0'' then Some ([c], r)
      else if is_digit c then Some (span_digits (c # r)) else None)"

fun lex_frac :: "string \<Rightarrow> (string \<times> string) option" where
  "lex_frac (c # r) =
     (if c = CHR ''.'' then
        (case span_digits r of (ds, t) \<Rightarrow> if ds = [] then None else Some (c # ds, t))
      else Some ([], c # r))"
| "lex_frac [] = Some ([], [])"

fun lex_exp :: "string \<Rightarrow> (string \<times> string) option" where
  "lex_exp (c # r) =
     (if c = CHR ''e'' \<or> c = CHR ''E'' then
        (case (case r of x # r' \<Rightarrow> if x = CHR ''+'' \<or> x = CHR ''-'' then ([x], r') else ([], r)
                       | [] \<Rightarrow> ([], [])) of
           (sg, r') \<Rightarrow> (case span_digits r' of
              (ds, t) \<Rightarrow> if ds = [] then None else Some (c # sg @ ds, t)))
      else Some ([], c # r))"
| "lex_exp [] = Some ([], [])"

definition lex_num :: "string \<Rightarrow> (string \<times> string) option" where
  "lex_num s =
     (case (case s of c # r \<Rightarrow> if c = CHR ''-'' then ([c], r) else ([], s) | [] \<Rightarrow> ([], [])) of
        (sg, s0) \<Rightarrow> (case lex_int s0 of
           None \<Rightarrow> None
         | Some (i, s1) \<Rightarrow> (case lex_frac s1 of
              None \<Rightarrow> None
            | Some (f, s2) \<Rightarrow> (case lex_exp s2 of
                 None \<Rightarrow> None
               | Some (e, s3) \<Rightarrow> Some (sg @ i @ f @ e, s3)))))"

lemma lex_str_shorter: "lex_str s = Some (d, t) \<Longrightarrow> length t < length s"
proof (induction s arbitrary: d t rule: lex_str.induct)
  case 1
  then show ?case by (simp add: lex_str.simps)
next
  case (2 c r)
  show ?case
  proof (cases "c = dquote")
    case True
    with 2 show ?thesis by (simp add: lex_str.simps(2))
  next
    case False
    with 2 obtain b n s' where n: "lex_char c r = Some (b, n)"
      and rest: "lex_str (drop (n - 1) r) = Some (s', t)"
      by (auto simp: lex_str.simps(2) split: option.splits)
    from "2.IH" [OF False n refl rest] show ?thesis by simp
  qed
qed

lemma lex_int_shorter: "lex_int s = Some (i, t) \<Longrightarrow> length t < length s"
  by (cases s) (auto simp: span_digits_def le_imp_less_Suc length_dropWhile_le split: if_splits)

lemma lex_frac_le: "lex_frac s = Some (f, t) \<Longrightarrow> length t \<le> length s"
  by (cases s) (auto simp: span_digits_def le_SucI length_dropWhile_le split: if_splits)

lemma lex_exp_le: "lex_exp s = Some (f, t) \<Longrightarrow> length t \<le> length s"
  by (cases s)
    (auto simp: span_digits_def le_SucI length_dropWhile_le split: if_splits list.splits)

lemma lex_num_shorter:
  assumes "lex_num s = Some (d, t)"
  shows "length t < length s"
proof -
  let ?p = "case s of c # r \<Rightarrow> if c = CHR ''-'' then ([c], r) else ([], s) | [] \<Rightarrow> ([], [])"
  obtain sg s0 where "?p = (sg, s0)" by fastforce
  moreover from this have le: "length s0 \<le> length s" by (cases s) (auto split: if_splits)
  ultimately obtain i s1 f s2 e where
    "lex_int s0 = Some (i, s1)" "lex_frac s1 = Some (f, s2)" "lex_exp s2 = Some (e, t)"
    using assms by (auto simp: lex_num_def split: option.splits)
  then have "length s1 < length s0" "length s2 \<le> length s1" "length t \<le> length s2"
    by (simp_all add: lex_int_shorter lex_frac_le lex_exp_le)
  with le show ?thesis by simp
qed

function lex :: "string \<Rightarrow> token list option" where
  "lex s =
     (case s of
        [] \<Rightarrow> Some []
      | c # r \<Rightarrow>
          if is_space c then lex r
          else if c = CHR ''{'' then map_option (Cons TLBrace) (lex r)
          else if c = CHR ''}'' then map_option (Cons TRBrace) (lex r)
          else if c = CHR ''['' then map_option (Cons TLBrack) (lex r)
          else if c = CHR '']'' then map_option (Cons TRBrack) (lex r)
          else if c = CHR '':'' then map_option (Cons TColon) (lex r)
          else if c = CHR '','' then map_option (Cons TComma) (lex r)
          else if c = dquote then
            (case lex_str r of
               None \<Rightarrow> None
             | Some (d, t) \<Rightarrow> map_option (Cons (TStr d)) (lex t))
          else if c = CHR ''n'' then
            (if HasPrefix r ''ull'' then map_option (Cons TNull) (lex (drop 3 r)) else None)
          else if c = CHR ''t'' then
            (if HasPrefix r ''rue'' then map_option (Cons TTrue) (lex (drop 3 r)) else None)
          else if c = CHR ''f'' then
            (if HasPrefix r ''alse'' then map_option (Cons TFalse) (lex (drop 4 r)) else None)
          else
            (case lex_num s of
               None \<Rightarrow> None
             | Some (n, t) \<Rightarrow> map_option (Cons (TNum n)) (lex t)))"
  by pat_completeness auto
termination
  by (relation "measure length")
    (auto dest: lex_str_shorter lex_num_shorter)

declare lex.simps [simp del]

section \<open>Parser\<close>

text \<open>
  The stack of open containers of Go's scanner, with what has been read of each, and what is
  expected next. A text nested deeper than 10000 is an error.
\<close>

datatype frame = FArr "json list" | FObj "(string \<times> json) list" string

datatype expect =
    Value | ValueOrEnd | MemberOrEnd "(string \<times> json) list"
  | Member "(string \<times> json) list" | Colon "(string \<times> json) list" string | Done json

definition max_depth :: nat where "max_depth = 10000"

text \<open>Reading the token that starts a value.\<close>

definition start_value :: "token \<Rightarrow> nat \<Rightarrow> expect option" where
  "start_value t depth =
     (case t of
        TNull \<Rightarrow> Some (Done JNull)
      | TTrue \<Rightarrow> Some (Done (JBool True))
      | TFalse \<Rightarrow> Some (Done (JBool False))
      | TStr s \<Rightarrow> Some (Done (JStr s))
      | TNum n \<Rightarrow> Some (Done (JNum n))
      | TLBrace \<Rightarrow> if depth < max_depth then Some (MemberOrEnd []) else None
      | TLBrack \<Rightarrow> if depth < max_depth then Some ValueOrEnd else None
      | _ \<Rightarrow> None)"

text \<open>
  The containers enclosing the one being read are on the stack; an array under construction
  enters it when its first element is expected, an object when a member's value is.
\<close>

fun parse :: "token list \<Rightarrow> frame list \<Rightarrow> expect \<Rightarrow> json option" where
  "parse [] stk st = (case (stk, st) of ([], Done v) \<Rightarrow> Some v | _ \<Rightarrow> None)"
| "parse (t # ts) stk Value =
     (case start_value t (length stk) of
        None \<Rightarrow> None
      | Some ValueOrEnd \<Rightarrow> parse ts (FArr [] # stk) ValueOrEnd
      | Some st \<Rightarrow> parse ts stk st)"
| "parse (t # ts) stk ValueOrEnd =
     (if t = TRBrack then parse ts (tl stk) (Done (JArr []))
      else (case start_value t (length stk) of
        None \<Rightarrow> None
      | Some ValueOrEnd \<Rightarrow> parse ts (FArr [] # stk) ValueOrEnd
      | Some st \<Rightarrow> parse ts stk st))"
| "parse (t # ts) stk (MemberOrEnd ms) =
     (case t of
        TRBrace \<Rightarrow> parse ts stk (Done (JObj ms))
      | TStr k \<Rightarrow> parse ts stk (Colon ms k)
      | _ \<Rightarrow> None)"
| "parse (t # ts) stk (Member ms) =
     (case t of TStr k \<Rightarrow> parse ts stk (Colon ms k) | _ \<Rightarrow> None)"
| "parse (t # ts) stk (Colon ms k) =
     (if t = TColon then parse ts (FObj ms k # stk) Value else None)"
| "parse (t # ts) stk (Done v) =
     (case stk of
        [] \<Rightarrow> None
      | FArr vs # stk' \<Rightarrow>
          if t = TComma then parse ts (FArr (vs @ [v]) # stk') Value
          else if t = TRBrack then parse ts stk' (Done (JArr (vs @ [v])))
          else None
      | FObj ms k # stk' \<Rightarrow>
          if t = TComma then parse ts stk' (Member (ms @ [(k, v)]))
          else if t = TRBrace then parse ts stk' (Done (JObj (ms @ [(k, v)])))
          else None)"

definition json_parse :: "string \<Rightarrow> json option" where
  "json_parse s = (case lex s of None \<Rightarrow> None | Some ts \<Rightarrow> parse ts [] Value)"

section \<open>Parsing an object inverts writing it\<close>

text \<open>The scalars that survive: strings must be well-formed UTF-8, numbers plain decimals.\<close>

definition num_ok :: "string \<Rightarrow> bool" where
  "num_ok n = (list_all is_digit n \<and> n \<noteq> [] \<and> (hd n \<noteq> CHR ''0'' \<or> n = ''0''))"

fun scalar_ok :: "json \<Rightarrow> bool" where
  "scalar_ok JNull = True"
| "scalar_ok (JBool b) = True"
| "scalar_ok (JNum n) = num_ok n"
| "scalar_ok (JStr s) = valid_utf8 s"
| "scalar_ok _ = False"

fun scalar_token :: "json \<Rightarrow> token" where
  "scalar_token JNull = TNull"
| "scalar_token (JBool b) = (if b then TTrue else TFalse)"
| "scalar_token (JNum n) = TNum n"
| "scalar_token (JStr s) = TStr s"
| "scalar_token _ = TNull"

definition members_ok :: "(string \<times> json) list \<Rightarrow> bool" where
  "members_ok ms = list_all (\<lambda>(k, v). valid_utf8 k \<and> scalar_ok v) ms"

fun members_tokens :: "(string \<times> json) list \<Rightarrow> token list" where
  "members_tokens [] = []"
| "members_tokens [(k, v)] = [TStr k, TColon, scalar_token v]"
| "members_tokens ((k, v) # ms) = TStr k # TColon # scalar_token v # TComma # members_tokens ms"

lemma lex_punctuation [simp]:
  "lex [] = Some []"
  "lex (CHR ''{'' # t) = map_option (Cons TLBrace) (lex t)"
  "lex (CHR ''}'' # t) = map_option (Cons TRBrace) (lex t)"
  "lex (CHR '':'' # t) = map_option (Cons TColon) (lex t)"
  "lex (CHR '','' # t) = map_option (Cons TComma) (lex t)"
  by (simp_all add: lex.simps is_space_def byte_val_def)

lemma lex_string:
  "valid_utf8 s \<Longrightarrow> lex (json_string s @ t) = map_option (Cons (TStr s)) (lex t)"
  by (simp add: lex.simps [of "_ # _"] json_string_def lex_str_escape is_space_def)
    (simp add: dquote_def)

lemma lex_keyword:
  "lex (''null'' @ t) = map_option (Cons TNull) (lex t)"
  "lex (''true'' @ t) = map_option (Cons TTrue) (lex t)"
  "lex (''false'' @ t) = map_option (Cons TFalse) (lex t)"
  by (simp_all add: lex.simps [of "_ # _"] is_space_def byte_val_def dquote_def HasPrefix_def)

lemma lex_num_decimal:
  assumes "num_ok n" "t = [] \<or> hd t = CHR '','' \<or> hd t = CHR ''}''"
  shows "lex_num (n @ t) = Some (n, t)"
proof -
  obtain d ds where n: "n = d # ds" using assms(1) by (cases n) (auto simp: num_ok_def)
  have t_end: "takeWhile is_digit t = []" "dropWhile is_digit t = t"
    "lex_frac t = Some ([], t)" "lex_exp t = Some ([], t)"
    using assms(2) by (cases t; auto simp: is_digit_def byte_val_def)+
  have digits: "is_digit d" "list_all is_digit ds" using assms(1) by (simp_all add: num_ok_def n)
  then have "takeWhile is_digit (d # ds @ t) = n" "dropWhile is_digit (d # ds @ t) = t"
    using t_end by (simp_all add: n list_all_iff)
  then have "lex_int (d # ds @ t) = Some (n, t)"
    using digits assms(1) by (auto simp: span_digits_def num_ok_def n)
  moreover have "d \<noteq> CHR ''-''" using digits(1) by (auto simp: is_digit_def byte_val_def)
  ultimately show ?thesis using t_end by (simp add: lex_num_def n)
qed

lemma lex_decimal:
  assumes "num_ok n" "t = [] \<or> hd t = CHR '','' \<or> hd t = CHR ''}''"
  shows "lex (n @ t) = map_option (Cons (TNum n)) (lex t)"
proof -
  obtain d ds where n: "n = d # ds" using assms(1) by (cases n) (auto simp: num_ok_def)
  have "is_digit d" using assms(1) by (simp add: num_ok_def n)
  then have "\<not> is_space d" "d \<notin> {CHR ''{'', CHR ''}'', CHR ''['', CHR '']'', CHR '':'', CHR '','',
      dquote, CHR ''n'', CHR ''t'', CHR ''f''}"
    by (auto simp: is_digit_def is_space_def byte_val_def dquote_def)
  with lex_num_decimal [OF assms] show ?thesis by (simp add: lex.simps [of "_ # _"] n)
qed

lemma lex_scalar:
  assumes "scalar_ok v" "hd t = CHR '','' \<or> hd t = CHR ''}''"
  shows "lex (scalar_text v @ t) = map_option (Cons (scalar_token v)) (lex t)"
  using assms
proof (cases v)
  case (JBool b)
  then show ?thesis using lex_keyword(2,3) [of t] by (cases b) simp_all
next
  case JNull
  then show ?thesis using lex_keyword(1) [of t] by simp
qed (simp_all add: lex_string lex_decimal)

lemma lex_members:
  "members_ok ms \<Longrightarrow> lex (members_text ms @ ''}'') = Some (members_tokens ms @ [TRBrace])"
proof (induction ms rule: members_text.induct)
  case 1
  then show ?case by simp
next
  case (2 k v)
  then show ?case by (simp add: members_ok_def lex_string lex_scalar)
next
  case (3 k v m ms)
  then have IH: "lex (members_text (m # ms) @ ''}'') = Some (members_tokens (m # ms) @ [TRBrace])"
    and ok: "valid_utf8 k" "scalar_ok v" by (auto simp: members_ok_def)
  have "lex (members_text ((k, v) # m # ms) @ ''}'') =
      lex (json_string k @ '':'' @ scalar_text v @ '','' @ members_text (m # ms) @ ''}'')" by simp
  also have "\<dots> = Some (TStr k # TColon # scalar_token v # TComma # members_tokens (m # ms) @ [TRBrace])"
    using lex_string [OF ok(1)] lex_scalar [OF ok(2), of "'','' @ members_text (m # ms) @ ''}''"] IH
    by simp
  finally show ?case by simp
qed

lemma start_scalar: "scalar_ok v \<Longrightarrow> start_value (scalar_token v) d = Some (Done v)"
  by (cases v) (simp_all add: start_value_def)

lemma parse_members:
  "ms \<noteq> [] \<Longrightarrow> members_ok ms \<Longrightarrow>
     parse (members_tokens ms @ [TRBrace]) [] (Member acc) = Some (JObj (acc @ ms))"
proof (induction ms arbitrary: acc rule: members_tokens.induct)
  case (3 k v m ms)
  then show ?case by (simp add: members_ok_def start_scalar)
qed (simp_all add: members_ok_def start_scalar)

lemma parse_first_member:
  "ms \<noteq> [] \<Longrightarrow> parse (members_tokens ms @ ts) stk (MemberOrEnd acc) =
     parse (members_tokens ms @ ts) stk (Member acc)"
  by (cases ms rule: members_tokens.cases) simp_all

theorem json_parse_object:
  assumes "ms \<noteq> []" "members_ok ms"
  shows "json_parse (object_text ms) = Some (JObj ms)"
  using lex_members [OF assms(2)] parse_members [OF assms, of "[]"]
    parse_first_member [OF assms(1), of "[TRBrace]"]
  by (simp add: json_parse_def object_text_def start_value_def max_depth_def)

section \<open>Decoding into a struct\<close>

text \<open>
  A field decoder updates the struct and may report a type error, after which decoding goes on;
  the first error is what \<open>json.Unmarshal\<close> returns. A \<open>null\<close> leaves strings, numbers and
  booleans alone and sets a slice to nil.
\<close>

abbreviation SyntaxError :: goerr where "SyntaxError \<equiv> Foreign ''json.SyntaxError''"
abbreviation UnmarshalTypeError :: goerr where
  "UnmarshalTypeError \<equiv> Foreign ''json.UnmarshalTypeError''"
abbreviation CorruptInputError :: goerr where
  "CorruptInputError \<equiv> Foreign ''base64.CorruptInputError''"

type_synonym 'r field_decoder = "json \<Rightarrow> 'r \<Rightarrow> 'r \<times> goerr option"

definition dec_string :: "(string \<Rightarrow> 'r \<Rightarrow> 'r) \<Rightarrow> 'r field_decoder" where
  "dec_string upd v r =
     (case v of JStr s \<Rightarrow> (upd s r, None) | JNull \<Rightarrow> (r, None) | _ \<Rightarrow> (r, Some UnmarshalTypeError))"

definition dec_bool :: "(bool \<Rightarrow> 'r \<Rightarrow> 'r) \<Rightarrow> 'r field_decoder" where
  "dec_bool upd v r =
     (case v of JBool b \<Rightarrow> (upd b r, None) | JNull \<Rightarrow> (r, None) | _ \<Rightarrow> (r, Some UnmarshalTypeError))"

fun digits_val :: "nat \<Rightarrow> string \<Rightarrow> nat option" where
  "digits_val acc [] = Some acc"
| "digits_val acc (c # r) =
     (if is_digit c then digits_val (acc * 10 + (byte_val c - 48)) r else None)"

text \<open>\<open>strconv.ParseInt\<close> on a JSON number: a fraction or an exponent is an error.\<close>

definition int_of_num :: "string \<Rightarrow> int option" where
  "int_of_num n =
     (case n of
        c # r \<Rightarrow> if c = CHR ''-'' then map_option (\<lambda>k. - int k) (digits_val 0 r)
                 else map_option int (digits_val 0 n)
      | [] \<Rightarrow> None)"

definition in_int64 :: "int \<Rightarrow> bool" where
  "in_int64 i = (- (2 ^ 63) \<le> i \<and> i < 2 ^ 63)"

definition dec_int :: "(int \<Rightarrow> 'r \<Rightarrow> 'r) \<Rightarrow> 'r field_decoder" where
  "dec_int upd v r =
     (case v of
        JNum n \<Rightarrow> (case int_of_num n of
            Some i \<Rightarrow> if in_int64 i then (upd i r, None) else (r, Some UnmarshalTypeError)
          | None \<Rightarrow> (r, Some UnmarshalTypeError))
      | JNull \<Rightarrow> (r, None)
      | _ \<Rightarrow> (r, Some UnmarshalTypeError))"

text \<open>A \<open>[]byte\<close> is read from a base64 string, or element by element from an array.\<close>

definition byte_elem :: "json \<Rightarrow> char option" where
  "byte_elem v =
     (case v of
        JNum n \<Rightarrow> (case int_of_num n of
            Some i \<Rightarrow> if 0 \<le> i \<and> i < 256 then Some (byte_of (nat i)) else None
          | None \<Rightarrow> None)
      | JNull \<Rightarrow> Some (byte_of 0)
      | _ \<Rightarrow> None)"

definition dec_bytes :: "(slice \<Rightarrow> 'r \<Rightarrow> 'r) \<Rightarrow> 'r field_decoder" where
  "dec_bytes upd v r =
     (case v of
        JStr s \<Rightarrow> (case b64_decode s of
            Some b \<Rightarrow> (upd (Some b) r, None)
          | None \<Rightarrow> (r, Some CorruptInputError))
      | JNull \<Rightarrow> (upd None r, None)
      | JArr vs \<Rightarrow>
          if list_all (\<lambda>x. byte_elem x \<noteq> None) vs
          then (upd (Some (map (\<lambda>x. the (byte_elem x)) vs)) r, None)
          else (r, Some UnmarshalTypeError)
      | _ \<Rightarrow> (r, Some UnmarshalTypeError))"

definition json_of_slice :: "slice \<Rightarrow> json" where
  "json_of_slice s = (case s of None \<Rightarrow> JNull | Some b \<Rightarrow> JStr (b64_encode b))"

lemma dec_bytes_slice [simp]: "dec_bytes upd (json_of_slice s) r = (upd s r, None)"
  by (simp add: dec_bytes_def json_of_slice_def split: option.split)

lemma scalar_ok_slice [simp]: "scalar_ok (json_of_slice s)"
  by (simp add: json_of_slice_def split: option.split)

lemma dec_scalars [simp]:
  "dec_string upd (JStr s) r = (upd s r, None)"
  "dec_bool upd' (JBool b) r = (upd' b r, None)"
  by (simp_all add: dec_string_def dec_bool_def)

text \<open>
  A member goes to the field of exactly its name, or else to the first whose name is equal up to
  case folding, which for ASCII field names also takes the Kelvin sign for K and the long s for S.
\<close>

fun fold_name :: "string \<Rightarrow> string" where
  "fold_name [] = []"
| "fold_name (c # r) =
     (if 97 \<le> byte_val c \<and> byte_val c \<le> 122 then byte_of (byte_val c - 32) # fold_name r
      else (case r of
          d # e # r' \<Rightarrow>
            if [byte_val c, byte_val d, byte_val e] = [226, 132, 170] then CHR ''K'' # fold_name r'
            else if [byte_val c, byte_val d] = [197, 191] then CHR ''S'' # fold_name (e # r')
            else c # fold_name r
        | [d] \<Rightarrow>
            if [byte_val c, byte_val d] = [197, 191] then ''S'' else c # fold_name r
        | [] \<Rightarrow> [c]))"

definition find_field :: "(string \<times> 'r field_decoder) list \<Rightarrow> string \<Rightarrow> 'r field_decoder option" where
  "find_field fields name =
     (case map_of fields name of
        Some d \<Rightarrow> Some d
      | None \<Rightarrow> map_option snd (find (\<lambda>(n, _). fold_name n = fold_name name) fields))"

fun decode_members ::
  "(string \<times> 'r field_decoder) list \<Rightarrow> (string \<times> json) list \<Rightarrow> 'r \<Rightarrow> goerr option \<Rightarrow> 'r \<times> goerr option" where
  "decode_members fields [] r err = (r, err)"
| "decode_members fields ((k, v) # ms) r err =
     (case find_field fields k of
        None \<Rightarrow> decode_members fields ms r err
      | Some d \<Rightarrow> (case d v r of
          (r', e) \<Rightarrow> decode_members fields ms r' (case err of None \<Rightarrow> e | Some _ \<Rightarrow> err)))"

definition json_Unmarshal :: "(string \<times> 'r field_decoder) list \<Rightarrow> 'r \<Rightarrow> bytes \<Rightarrow> 'r res" where
  "json_Unmarshal fields zero data =
     (case json_parse data of
        None \<Rightarrow> Inl SyntaxError
      | Some (JObj ms) \<Rightarrow> (case decode_members fields ms zero None of
          (r, None) \<Rightarrow> Inr r | (_, Some e) \<Rightarrow> Inl e)
      | Some JNull \<Rightarrow> Inr zero
      | Some _ \<Rightarrow> Inl UnmarshalTypeError)"

lemma json_Unmarshal_object:
  assumes "ms \<noteq> []" "members_ok ms" "decode_members fields ms zero None = (r, None)"
  shows "json_Unmarshal fields zero (object_text ms) = Inr r"
  by (simp add: json_Unmarshal_def json_parse_object [OF assms(1,2)] assms(3))

lemma find_field_exact: "map_of fields k = Some d \<Longrightarrow> find_field fields k = Some d"
  by (simp add: find_field_def)

text \<open>Decoding reports errors and never panics.\<close>

lemma dec_no_panic [simp]:
  "snd (dec_string us v r) \<noteq> Some (GoPanic m)"
  "snd (dec_bool ub v r) \<noteq> Some (GoPanic m)"
  "snd (dec_int ui v r) \<noteq> Some (GoPanic m)"
  "snd (dec_bytes uy v r) \<noteq> Some (GoPanic m)"
  by (cases v; simp add: dec_string_def dec_bool_def dec_int_def dec_bytes_def split: option.splits)+

lemma find_field_in:
  assumes "find_field fields k = Some d"
  shows "\<exists>n. (n, d) \<in> set fields"
  using assms by (auto simp: find_field_def find_Some_iff dest: map_of_SomeD split: option.splits)
    (metis nth_mem)

lemma decode_no_panic:
  assumes "\<forall>(n, d)\<in>set fields. \<forall>v r. snd (d v r) \<noteq> Some (GoPanic m)" "err \<noteq> Some (GoPanic m)"
  shows "snd (decode_members fields ms r err) \<noteq> Some (GoPanic m)"
  using assms(2)
proof (induction ms arbitrary: r err)
  case (Cons kv ms)
  obtain k v where kv: "kv = (k, v)" by fastforce
  show ?case
  proof (cases "find_field fields k")
    case None
    with Cons kv show ?thesis by simp
  next
    case (Some d)
    obtain r' e where d: "d v r = (r', e)" by fastforce
    from find_field_in [OF Some] assms(1) d have "e \<noteq> Some (GoPanic m)"
      by (metis (mono_tags, lifting) case_prodD snd_conv)
    with Cons.prems have "(case err of None \<Rightarrow> e | Some _ \<Rightarrow> err) \<noteq> Some (GoPanic m)"
      by (cases err) simp_all
    from Cons.IH [OF this, of r'] show ?thesis using Some d kv by simp
  qed
qed simp

lemma json_Unmarshal_no_panic:
  assumes "\<forall>(n, d)\<in>set fields. \<forall>v r. snd (d v r) \<noteq> Some (GoPanic m)"
  shows "json_Unmarshal fields zero data \<noteq> Inl (GoPanic m)"
proof -
  have "snd (decode_members fields ms zero None) \<noteq> Some (GoPanic m)" for ms
    by (rule decode_no_panic [OF assms]) simp
  then show ?thesis
    by (auto simp: json_Unmarshal_def split: option.splits json.splits prod.splits)
      (metis snd_conv)
qed

section \<open>Decimal numbers\<close>

text \<open>\<open>strconv.Itoa\<close> for the numbers the source writes.\<close>

fun decimal :: "nat \<Rightarrow> string" where
  "decimal n = (if n < 10 then [byte_of (48 + n)] else decimal (n div 10) @ [byte_of (48 + n mod 10)])"

declare decimal.simps [simp del]

definition itoa :: "int \<Rightarrow> string" where
  "itoa i = (if i < 0 then CHR ''-'' # decimal (nat (- i)) else decimal (nat i))"

end
