(* ===== verification/Item_Json.thy ===== *)
theory Item_Json
  imports Keyring_API Json
begin

text \<open>
  How an \<open>Item\<close> is turned into JSON and back by the backends that store whole items. The fields
  carry no JSON tags, so the member names are the field names.
\<close>

definition item_members :: "Item \<Rightarrow> (string \<times> json) list" where
  "item_members i =
    [(''Key'', JStr (Key i)), (''Data'', json_of_slice (Data i)), (''Label'', JStr (Label i)),
     (''Description'', JStr (Description i)),
     (''KeychainNotTrustApplication'', JBool (KeychainNotTrustApplication i)),
     (''KeychainNotSynchronizable'', JBool (KeychainNotSynchronizable i))]"

definition json_Marshal_Item :: "Item \<Rightarrow> bytes res" where
  "json_Marshal_Item i = Inr (object_text (item_members i))"

definition item_fields :: "(string \<times> Item field_decoder) list" where
  "item_fields =
    [(''Key'', dec_string (\<lambda>s i. i\<lparr>Key := s\<rparr>)), (''Data'', dec_bytes (\<lambda>b i. i\<lparr>Data := b\<rparr>)),
     (''Label'', dec_string (\<lambda>s i. i\<lparr>Label := s\<rparr>)),
     (''Description'', dec_string (\<lambda>s i. i\<lparr>Description := s\<rparr>)),
     (''KeychainNotTrustApplication'', dec_bool (\<lambda>b i. i\<lparr>KeychainNotTrustApplication := b\<rparr>)),
     (''KeychainNotSynchronizable'', dec_bool (\<lambda>b i. i\<lparr>KeychainNotSynchronizable := b\<rparr>))]"

definition json_Unmarshal_Item :: "bytes \<Rightarrow> Item res" where
  "json_Unmarshal_Item data = json_Unmarshal item_fields zero_Item data"

text \<open>Items whose text fields are well-formed UTF-8; the data may be any bytes.\<close>

definition utf8_Item :: "Item \<Rightarrow> bool" where
  "utf8_Item i = (valid_utf8 (Key i) \<and> valid_utf8 (Label i) \<and> valid_utf8 (Description i))"

lemma item_names_utf8:
  "valid_utf8 ''Key''" "valid_utf8 ''Data''" "valid_utf8 ''Label''" "valid_utf8 ''Description''"
  "valid_utf8 ''KeychainNotTrustApplication''" "valid_utf8 ''KeychainNotSynchronizable''"
  by (simp_all add: byte_val_def)

lemma item_members_ok: "utf8_Item i \<Longrightarrow> members_ok (item_members i)"
  by (simp add: members_ok_def item_members_def utf8_Item_def item_names_utf8
      del: valid_utf8.simps)

lemma decode_item_members: "decode_members item_fields (item_members i) zero_Item None = (i, None)"
  by (simp add: item_members_def find_field_def item_fields_def zero_Item_def)

lemma item_roundtrip:
  assumes "utf8_Item i" "json_Marshal_Item i = Inr b"
  shows "json_Unmarshal_Item b = Inr i"
  using json_Unmarshal_object [OF _ item_members_ok [OF assms(1)] decode_item_members] assms(2)
  by (auto simp: json_Unmarshal_Item_def json_Marshal_Item_def item_members_def)

section \<open>Codecs as an interface\<close>

text \<open>
  What the backends that store whole items rely on: a writer that never fails and a reader that
  inverts it on the items the writer does not damage.
\<close>

locale codec =
  fixes enc :: "'a \<Rightarrow> bytes res"
    and dec :: "bytes \<Rightarrow> 'a res"
    and ok :: "'a \<Rightarrow> bool"
  assumes enc_total: "\<exists>b. enc x = Inr b"
    and dec_enc: "ok x \<Longrightarrow> enc x = Inr b \<Longrightarrow> dec b = Inr x"
begin

definition text_of :: "'a \<Rightarrow> bytes" where
  "text_of x = projr (enc x)"

lemma enc_text: "enc x = Inr (text_of x)"
  using enc_total [of x] by (auto simp: text_of_def)

lemma dec_text: "ok x \<Longrightarrow> dec (text_of x) = Inr x"
  using dec_enc enc_text by blast

lemma text_inject: "ok x \<Longrightarrow> ok y \<Longrightarrow> text_of x = text_of y \<Longrightarrow> x = y"
  by (metis dec_text sum.inject(2))

end

interpretation item: codec json_Marshal_Item json_Unmarshal_Item utf8_Item
  by unfold_locales (simp_all add: json_Marshal_Item_def item_roundtrip)

section \<open>Stores of items in JSON\<close>

text \<open>
  A store that maps keys to bytes, seen as the items these bytes are the JSON of; and that every
  entry is one.
\<close>

definition parsed_item :: "bytes \<Rightarrow> Item option" where
  "parsed_item b = (case json_Unmarshal_Item b of Inr i \<Rightarrow> Some i | Inl e \<Rightarrow> None)"

definition items_view :: "(string \<rightharpoonup> bytes) \<Rightarrow> string \<rightharpoonup> Item" where
  "items_view m key = Option.bind (m key) parsed_item"

definition holds_items :: "(string \<rightharpoonup> bytes) \<Rightarrow> bool" where
  "holds_items m \<longleftrightarrow> (\<forall>b\<in>ran m. \<exists>i. json_Unmarshal_Item b = Inr i)"

definition storable :: "(bytes \<Rightarrow> bool) \<Rightarrow> Item \<Rightarrow> bool" where
  "storable fits i \<longleftrightarrow> utf8_Item i \<and> fits (item.text_of i)"

lemma parsed_item_Some [simp]: "parsed_item b = Some i \<longleftrightarrow> json_Unmarshal_Item b = Inr i"
  by (simp add: parsed_item_def split: sum.split)

lemma items_view_Some: "items_view m key = Some i \<longleftrightarrow> (\<exists>b. m key = Some b \<and> json_Unmarshal_Item b = Inr i)"
  by (simp add: items_view_def bind_eq_Some_conv)

lemma holds_itemsD: "holds_items m \<Longrightarrow> m key = Some b \<Longrightarrow> \<exists>i. json_Unmarshal_Item b = Inr i"
  by (auto simp: holds_items_def ran_def)

lemma items_view_None: "holds_items m \<Longrightarrow> items_view m key = None \<longleftrightarrow> m key = None"
  by (cases "m key") (auto simp: items_view_def parsed_item_def dest: holds_itemsD)

lemma dom_items_view: "holds_items m \<Longrightarrow> dom (items_view m) = dom m"
  by (simp only: dom_def items_view_None)

lemma items_view_upd:
  assumes "holds_items m" "utf8_Item i"
  shows "holds_items (m(k \<mapsto> item.text_of i))"
    and "items_view (m(k \<mapsto> item.text_of i)) = (items_view m)(k \<mapsto> i)"
  using assms
  by (auto simp: holds_items_def ran_def items_view_def item.dec_text fun_eq_iff)

lemma items_view_del:
  assumes "holds_items m"
  shows "holds_items (m(k := None))" and "items_view (m(k := None)) = (items_view m)(k := None)"
  using assms by (auto simp: holds_items_def ran_def items_view_def fun_eq_iff)

lemma json_Unmarshal_empty [simp]: "json_Unmarshal_Item [] = Inl SyntaxError"
  by (simp add: json_Unmarshal_Item_def json_Unmarshal_def json_parse_def)

end
