(* ===== verification/OP_Common.thy ===== *)
theory OP_Common
  imports Item_Json Namespace "HOL-Library.AList"
begin

text \<open>
  \<open>opcommon.go\<close>: what the 1Password backends share. An item of the keyring is an item of a
  1Password vault whose title is the key behind a prefix and whose single concealed field holds
  the JSON of the item. The locale \<open>titled_vault\<close> proves once, for any representation of vault
  items, that adding, replacing and deleting such an item is a map update.
\<close>

section \<open>Names and errors\<close>

definition OPEnvVaultID :: string where "OPEnvVaultID = ''OP_VAULT_ID''"
definition OPItemFieldTitle :: string where "OPItemFieldTitle = ''keyring''"
definition OPItemTag :: string where "OPItemTag = ''keyring''"
definition OPItemTitlePrefix :: string where "OPItemTitlePrefix = ''keyring''"
definition OPItemTitlePrefixKeySep :: string where "OPItemTitlePrefixKeySep = '': ''"

abbreviation ErrEnvUnsetOrEmpty :: goerr where "ErrEnvUnsetOrEmpty \<equiv> Sentinel V_ErrEnvUnsetOrEmpty"
abbreviation OPErrClient :: goerr where "OPErrClient \<equiv> Sentinel V_OPErrClient"
abbreviation OPErrItemMultiple :: goerr where "OPErrItemMultiple \<equiv> Sentinel V_OPErrItemMultiple"
abbreviation OPErrItemTitleDuplicate :: goerr where
  "OPErrItemTitleDuplicate \<equiv> Sentinel V_OPErrItemTitleDuplicate"
abbreviation OPErrKeyring :: goerr where "OPErrKeyring \<equiv> Sentinel V_OPErrKeyring"

definition OPErrTokenFuncNil :: goerr where
  "OPErrTokenFuncNil = Wrapf ''token function is nil'' [OPErrClient]"
definition OPErrVaultID :: goerr where
  "OPErrVaultID = Wrapf ''OP_VAULT_ID'' [OPErrKeyring, ErrEnvUnsetOrEmpty]"

section \<open>Items of a vault\<close>

text \<open>
  \<open>onepassword.Item\<close> of the SDK, with the fields the source uses; of the category, field type
  and state constants of the SDK the source only uses the ones named here.
\<close>

datatype OPCategory = ItemCategoryAPICredentials | OtherCategory string
datatype OPFieldType = ItemFieldTypeConcealed | OtherFieldType string

record OPItemField =
  fld_ID :: string
  fld_Title :: string
  fld_Type :: OPFieldType
  fld_Value :: string

record OPItem =
  opi_ID :: string
  opi_Title :: string
  opi_Category :: OPCategory
  opi_VaultID :: string
  opi_Fields :: "OPItemField list"
  opi_Tags :: "string list"
  opi_UpdatedAt :: time

section \<open>The base keyring\<close>

record 'w OPBaseKeyring =
  VaultID :: string
  ItemTitlePrefix :: string
  ItemTag :: string
  ItemFieldTitle :: string
  TokenEnvs :: "string list"
  TokenFunc :: "'w PromptFunc option"

definition GetItemFromOPItemFieldValue :: "string \<Rightarrow> Item res" where
  "GetItemFromOPItemFieldValue opItemFieldValue = json_Unmarshal_Item opItemFieldValue"

definition GetKeyFromOPItemTitle :: "('w, 'x) OPBaseKeyring_scheme \<Rightarrow> string \<Rightarrow> string" where
  "GetKeyFromOPItemTitle k opItemTitle =
     TrimPrefix opItemTitle (ItemTitlePrefix k @ OPItemTitlePrefixKeySep)"

definition GetOPItemFieldValueFromItem :: "Item \<Rightarrow> string res" where
  "GetOPItemFieldValueFromItem item = json_Marshal_Item item"

definition GetOPItemTitleFromKey :: "('w, 'x) OPBaseKeyring_scheme \<Rightarrow> string \<Rightarrow> string" where
  "GetOPItemTitleFromKey k key = ItemTitlePrefix k @ OPItemTitlePrefixKeySep @ key"

text \<open>
  \<open>os.Getenv\<close> is an argument: it maps a variable's name to its value, \<open>''\<close> when unset.
\<close>

fun token_env_loop :: "(string \<Rightarrow> string) \<Rightarrow> string list \<Rightarrow> string option" where
  "token_env_loop getenv [] = None"
| "token_env_loop getenv (tokenEnv # es) =
     (let token = getenv tokenEnv in
      if token \<noteq> '''' then Some token else token_env_loop getenv es)"

definition GetOPToken ::
  "(string \<Rightarrow> string) \<Rightarrow> ('w, 'x) OPBaseKeyring_scheme \<Rightarrow> string \<Rightarrow> ('w, string) call" where
  "GetOPToken getenv k prompt =
     (case token_env_loop getenv (TokenEnvs k) of
        Some token \<Rightarrow> go_return token
      | None \<Rightarrow>
          (case TokenFunc k of
             Some f \<Rightarrow> f prompt
           | None \<Rightarrow> go_fail OPErrTokenFuncNil))"

lemma token_env_loop_find:
  "token_env_loop getenv es = map_option getenv (List.find (\<lambda>e. getenv e \<noteq> '''') es)"
  by (induction es) (simp_all add: Let_def)

lemma token_env_loop_None: "token_env_loop getenv es = None \<longleftrightarrow> (\<forall>e\<in>set es. getenv e = '''')"
  by (induction es) (simp_all add: Let_def)

text \<open>Defaults every 1Password backend applies to the names in the configuration.\<close>

definition or_default :: "string \<Rightarrow> string \<Rightarrow> string" where
  "or_default s d = (if s = '''' then d else s)"

text \<open>
  A setting that is taken from the configuration, else from an environment variable, else its
  error joins those collected so far.
\<close>

definition from_env ::
  "(string \<Rightarrow> string) \<Rightarrow> string \<Rightarrow> string \<Rightarrow> goerr \<Rightarrow> goerr list \<Rightarrow> string \<times> goerr list" where
  "from_env getenv v env err errs =
     (if v = '''' then
        let v = getenv env
        in (v, if v = '''' then errs @ [err] else errs)
      else (v, errs))"

definition unset_in :: "(string \<Rightarrow> string) \<Rightarrow> string \<Rightarrow> string \<Rightarrow> bool" where
  "unset_in getenv v env \<longleftrightarrow> v = '''' \<and> getenv env = ''''"

lemma from_env_eq:
  "from_env getenv v env err errs =
     (if v = '''' then getenv env else v, if unset_in getenv v env then errs @ [err] else errs)"
  by (simp add: from_env_def unset_in_def Let_def)

interpretation op_names: key_namespace
  "ItemTitlePrefix k @ OPItemTitlePrefixKeySep" "GetOPItemTitleFromKey k" for k
  by unfold_locales (simp add: GetOPItemTitleFromKey_def)

section \<open>Vaults of titled items\<close>

locale titled_vault =
  fixes match :: "'it \<Rightarrow> bool"
    and title :: "'it \<Rightarrow> string"
    and ident :: "'it \<Rightarrow> string"
    and val :: "'it \<Rightarrow> string"
    and name :: "string \<Rightarrow> string"
  assumes name_inj: "name k = name k' \<Longrightarrow> k = k'"
begin

text \<open>What the backends keep true of a vault they share with nobody who writes such items.\<close>

definition wf :: "'it list \<Rightarrow> bool" where
  "wf its \<longleftrightarrow> distinct (map ident its) \<and> inj_on title {it \<in> set its. match it} \<and>
     (\<forall>it\<in>set its. match it \<longrightarrow> (\<exists>k. title it = name k) \<and> (\<exists>i. json_Unmarshal_Item (val it) = Inr i))"

definition lookup :: "'it list \<Rightarrow> string \<Rightarrow> 'it option" where
  "lookup its key = List.find (\<lambda>it. match it \<and> title it = name key) its"

definition vview :: "'it list \<Rightarrow> string \<Rightarrow> Item option" where
  "vview its key = map_option (\<lambda>it. projr (json_Unmarshal_Item (val it))) (lookup its key)"

lemma lookup_Some:
  assumes "wf its"
  shows "lookup its key = Some it \<longleftrightarrow> it \<in> set its \<and> match it \<and> title it = name key"
proof
  assume "lookup its key = Some it"
  then show "it \<in> set its \<and> match it \<and> title it = name key"
    by (auto simp: lookup_def find_Some_iff)
next
  assume it: "it \<in> set its \<and> match it \<and> title it = name key"
  then obtain it' where it': "lookup its key = Some it'"
    by (cases "lookup its key") (auto simp: lookup_def find_None_iff)
  then have "it' \<in> set its" "match it'" "title it' = name key"
    by (auto simp: lookup_def find_Some_iff)
  with it assms have "it' = it" by (auto simp: wf_def inj_on_def)
  with it' show "lookup its key = Some it" by simp
qed

lemma lookup_None: "lookup its key = None \<longleftrightarrow> (\<forall>it\<in>set its. match it \<longrightarrow> title it \<noteq> name key)"
  by (auto simp: lookup_def find_None_iff)

lemma vview_Some:
  assumes "wf its"
  shows "vview its key = Some i \<longleftrightarrow>
    (\<exists>it\<in>set its. match it \<and> title it = name key \<and> json_Unmarshal_Item (val it) = Inr i)"
proof -
  have "json_Unmarshal_Item (val it) = Inr (projr (json_Unmarshal_Item (val it)))"
    if "it \<in> set its" "match it" for it
    using assms that by (auto simp: wf_def)
  then show ?thesis
    by (auto simp: vview_def lookup_Some [OF assms])
qed

lemma vview_None: "vview its key = None \<longleftrightarrow> (\<forall>it\<in>set its. match it \<longrightarrow> title it \<noteq> name key)"
  by (simp add: vview_def lookup_None)

lemma vview_eqI:
  assumes "wf its" "\<And>key i. m key = Some i \<longleftrightarrow>
    (\<exists>it\<in>set its. match it \<and> title it = name key \<and> json_Unmarshal_Item (val it) = Inr i)"
  shows "vview its = m"
proof
  fix key
  show "vview its key = m key"
    using assms(2) [of key] vview_Some [OF assms(1), of key] by (metis not_Some_eq)
qed

lemma wf_subset: "wf its \<Longrightarrow> set its' \<subseteq> set its \<Longrightarrow> distinct (map ident its') \<Longrightarrow> wf its'"
  unfolding wf_def by (auto intro: inj_on_subset)

lemma wf_insert:
  assumes "wf its" "set its' = insert it A" "A \<subseteq> set its" "distinct (map ident its')"
    and "\<forall>x\<in>A. match x \<longrightarrow> title x \<noteq> title it"
    and "title it = name key" "json_Unmarshal_Item (val it) = Inr i"
  shows "wf its'"
proof -
  have "inj_on title {x \<in> A. match x}"
    using assms(1,3) unfolding wf_def by (auto intro: inj_on_subset)
  then have "inj_on title {x \<in> insert it A. match x}"
    using assms(5) by (auto simp: inj_on_def)
  then show ?thesis using assms unfolding wf_def by auto
qed

lemma vview_insert:
  assumes "wf its" "set its' = insert it A" "A = {x \<in> set its. match x \<longrightarrow> title x \<noteq> name key} \<or>
      A = set its \<and> vview its key = None"
    and "distinct (map ident its')"
    and "match it" "title it = name key" "json_Unmarshal_Item (val it) = Inr i"
  shows "wf its' \<and> vview its' = (vview its)(key \<mapsto> i)"
proof
  have A: "A \<subseteq> set its" "\<forall>x\<in>A. match x \<longrightarrow> title x \<noteq> name key"
    using assms(3) by (auto simp: vview_None)
  have keeps: "x \<in> A" if "x \<in> set its" "match x" "title x \<noteq> name key" for x
    using assms(3) that by auto
  show wf': "wf its'"
    using wf_insert [OF assms(1,2) A(1) assms(4)] A(2) assms(6,7) by simp
  show "vview its' = (vview its)(key \<mapsto> i)"
  proof (rule vview_eqI [OF wf'])
    fix k j
    show "((vview its)(key \<mapsto> i)) k = Some j \<longleftrightarrow> (\<exists>x\<in>set its'. match x \<and> title x = name k \<and>
        json_Unmarshal_Item (val x) = Inr j)"
    proof (cases "k = key")
      case True
      then show ?thesis using assms(2,5-7) A(2) by auto
    next
      case False
      then have "name k \<noteq> name key" using name_inj by blast
      then show ?thesis
        using False assms(2,6) A(1) keeps by (auto simp: vview_Some [OF assms(1)])
    qed
  qed
qed

lemma vview_delete:
  assumes "wf its" "set its' = {x \<in> set its. match x \<longrightarrow> title x \<noteq> name key}"
    and "distinct (map ident its')"
  shows "wf its' \<and> vview its' = (vview its)(key := None)"
proof
  show wf': "wf its'" using wf_subset [OF assms(1) _ assms(3)] assms(2) by auto
  show "vview its' = (vview its)(key := None)"
  proof (rule vview_eqI [OF wf'])
    fix k j
    show "((vview its)(key := None)) k = Some j \<longleftrightarrow> (\<exists>x\<in>set its'. match x \<and> title x = name k \<and>
        json_Unmarshal_Item (val x) = Inr j)"
      using name_inj by (cases "k = key") (auto simp: vview_Some [OF assms(1)] assms(2))
  qed
qed

text \<open>Identifiers tell the items apart, so removing by identifier removes by title.\<close>

lemma same_ident:
  assumes "wf its" "old \<in> set its" "match old" "title old = name key"
  shows "{x \<in> set its. ident x \<noteq> ident old} = {x \<in> set its. match x \<longrightarrow> title x \<noteq> name key}"
proof -
  have "inj_on ident (set its)" using assms(1) by (simp add: wf_def distinct_map)
  then have 1: "x \<in> set its \<Longrightarrow> ident x \<noteq> ident old \<longleftrightarrow> x \<noteq> old" for x
    using assms(2) by (auto dest: inj_onD)
  have "inj_on title {it \<in> set its. match it}" using assms(1) by (simp add: wf_def)
  then have 2: "x \<in> set its \<Longrightarrow> (match x \<longrightarrow> title x \<noteq> name key) \<longleftrightarrow> x \<noteq> old" for x
    using assms(2-4) by (auto dest: inj_onD [of _ _ x old])
  from 1 2 show ?thesis by (simp cong: conj_cong)
qed

lemma titles_dom:
  assumes "wf its"
  shows "{k. name k \<in> set (map title (filter match its))} = dom (vview its)"
proof -
  have "k \<in> dom (vview its) \<longleftrightarrow> name k \<in> set (map title (filter match its))" for k
    using vview_None [of its k] by (force simp: domIff)
  then show ?thesis by (simp add: set_eq_iff)
qed

lemma distinct_titles:
  assumes "wf its"
  shows "distinct (map title (filter match its))"
  using assms by (auto simp: wf_def distinct_map intro: inj_on_subset)

lemma filter_title:
  assumes "wf its"
  shows "filter (\<lambda>it. title it = name key) (filter match its) =
    (case lookup its key of None \<Rightarrow> [] | Some it \<Rightarrow> [it])"
proof (cases "lookup its key")
  case None
  then have "filter (\<lambda>it. title it = name key) (filter match its) = []"
    by (auto simp: lookup_None filter_empty_conv)
  with None show ?thesis by simp
next
  case (Some it)
  let ?l = "filter (\<lambda>it. title it = name key) (filter match its)"
  have "set ?l = {it}"
    using Some lookup_Some [OF assms] assms by (auto simp: wf_def inj_on_def)
  moreover have "distinct ?l" using assms by (simp add: wf_def distinct_map)
  ultimately have "?l = [it]" by (rule distinct_set_singleton)
  with Some show ?thesis by simp
qed

end

lemma titles_are_keys:
  assumes "\<forall>t\<in>set ts. \<exists>key. t = GetOPItemTitleFromKey k key" "distinct ts"
  shows "set (map (GetKeyFromOPItemTitle k) ts) = {key. GetOPItemTitleFromKey k key \<in> set ts} \<and>
    distinct (map (GetKeyFromOPItemTitle k) ts)"
proof
  have key: "GetKeyFromOPItemTitle k (GetOPItemTitleFromKey k key) = key" for key
    using op_names.Trim_name [of k key] by (simp add: GetKeyFromOPItemTitle_def)
  show "set (map (GetKeyFromOPItemTitle k) ts) = {key. GetOPItemTitleFromKey k key \<in> set ts}"
    using assms(1) key by (auto simp: image_iff) metis+
  have "inj_on (GetKeyFromOPItemTitle k) (set ts)"
    using assms(1) key by (intro inj_onI) metis
  then show "distinct (map (GetKeyFromOPItemTitle k) ts)" using assms(2) by (simp add: distinct_map)
qed

section \<open>Listing titles without duplicates\<close>

text \<open>
  The loop of \<open>Keys\<close>: titles seen so far and the keys they stand for. A repeated title makes
  the two lists of titles and items differ in length, which \<open>Keys\<close> reports.
\<close>

fun titles_loop ::
  "('w, 'x) OPBaseKeyring_scheme \<Rightarrow> OPItem list \<Rightarrow> string list \<Rightarrow> string list \<Rightarrow> string list \<times> string list" where
  "titles_loop k [] opItemTitles keys = (opItemTitles, keys)"
| "titles_loop k (opItem # its) opItemTitles keys =
     (if opi_Title opItem \<notin> set opItemTitles
      then titles_loop k its (opItemTitles @ [opi_Title opItem])
             (keys @ [GetKeyFromOPItemTitle k (opi_Title opItem)])
      else titles_loop k its opItemTitles keys)"

definition keys_of_items :: "('w, 'x) OPBaseKeyring_scheme \<Rightarrow> OPItem list \<Rightarrow> string list res" where
  "keys_of_items k opItems =
     (case titles_loop k opItems [] [] of
        (opItemTitles, keys) \<Rightarrow>
          if length opItemTitles \<noteq> length opItems
          then Inl (Wrapf ''duplicate titles in vault'' [OPErrItemTitleDuplicate])
          else Inr keys)"

lemma titles_loop_le:
  "length (fst (titles_loop k its ts ks)) \<le> length ts + length its"
proof (induction its arbitrary: ts ks)
  case (Cons it its)
  show ?case
    using Cons.IH [of "ts @ [opi_Title it]"] Cons.IH [of ts]
    by (auto simp: le_SucI)
qed simp

lemma titles_loop_distinct:
  "distinct (ts @ map opi_Title its) \<Longrightarrow>
     titles_loop k its ts ks =
       (ts @ map opi_Title its, ks @ map (\<lambda>it. GetKeyFromOPItemTitle k (opi_Title it)) its)"
  by (induction its arbitrary: ts ks) simp_all

lemma titles_loop_repeated:
  "\<not> distinct (ts @ map opi_Title its) \<Longrightarrow> distinct ts \<Longrightarrow>
     length (fst (titles_loop k its ts ks)) < length ts + length its"
proof (induction its arbitrary: ts ks)
  case (Cons it its)
  show ?case
  proof (cases "opi_Title it \<in> set ts")
    case True
    then show ?thesis using titles_loop_le [of k its ts ks] by simp
  next
    case False
    with Cons.prems Cons.IH [of "ts @ [opi_Title it]"] show ?thesis by simp
  qed
qed simp

lemma keys_of_items_eq:
  "keys_of_items k its =
     (if distinct (map opi_Title its)
      then Inr (map (\<lambda>it. GetKeyFromOPItemTitle k (opi_Title it)) its)
      else Inl (Wrapf ''duplicate titles in vault'' [OPErrItemTitleDuplicate]))"
proof (cases "distinct (map opi_Title its)")
  case True
  then show ?thesis by (simp add: keys_of_items_def titles_loop_distinct)
next
  case False
  then have "length (fst (titles_loop k its [] [])) < length its"
    using titles_loop_repeated [of "[]" its k "[]"] by simp
  with False show ?thesis by (auto simp: keys_of_items_def split: prod.splits)
qed

section \<open>In-memory vaults\<close>

text \<open>
  The in-memory clients that show the laws of the SDKs can be met keep items in an association
  list from identifiers, whose first entry counts; a new identifier is longer than all those
  in use.
\<close>

locale id_store =
  fixes ident :: "'it \<Rightarrow> string"
    and setid :: "string \<Rightarrow> 'it \<Rightarrow> 'it"
  assumes ident_setid: "ident (setid i x) = i"
    and setid_ident: "setid (ident x) x = x"
begin

definition listed :: "(string \<times> 'it) list \<Rightarrow> 'it list" where
  "listed w = map (\<lambda>i. setid i (the (map_of w i))) (remdups (map fst w))"

lemma idents_listed: "map ident (listed w) = remdups (map fst w)"
  by (simp add: listed_def comp_def ident_setid)

lemma set_listed: "set (listed w) = {setid i x | i x. map_of w i = Some x}"
proof -
  have "it \<in> set (listed w) \<longleftrightarrow> (\<exists>i x. map_of w i = Some x \<and> it = setid i x)" for it
    unfolding listed_def set_map set_remdups dom_map_of_conv_image_fst [symmetric]
    by force
  then show ?thesis by blast
qed

lemma listed_update:
  assumes "map_of w' = (map_of w)(ident it \<mapsto> it)"
  shows "set (listed w') = insert it {x \<in> set (listed w). ident x \<noteq> ident it}"
  unfolding set_listed assms by (auto simp: ident_setid setid_ident split: if_splits)

lemma listed_new:
  assumes "map_of w' = (map_of w)(ident it \<mapsto> it)" "map_of w (ident it) = None"
  shows "set (listed w') = insert it (set (listed w))"
proof -
  have "{x \<in> set (listed w). ident x \<noteq> ident it} = set (listed w)"
    unfolding set_listed using assms(2) by (auto simp: ident_setid)
  with listed_update [OF assms(1)] show ?thesis by simp
qed

lemma listed_delete:
  "map_of w' = (map_of w)(i := None) \<Longrightarrow> set (listed w') = {x \<in> set (listed w). ident x \<noteq> i}"
  unfolding set_listed by (auto simp: ident_setid split: if_splits)

lemma find_listed:
  "it \<in> set (listed w) \<Longrightarrow> \<exists>x. map_of w (ident it) = Some x \<and> it = setid (ident it) x"
  unfolding set_listed by (auto simp: ident_setid)

end

definition fresh_ID :: "(string \<times> 'it) list \<Rightarrow> string" where
  "fresh_ID w = ''x'' @ concat (map fst w)"

lemma length_le_concat: "x \<in> set xs \<Longrightarrow> length x \<le> length (concat xs)"
  by (induction xs) auto

lemma fresh_ID_new: "map_of w (fresh_ID w) = None"
  using length_le_concat [of "fresh_ID w" "map fst w"]
  by (auto simp: fresh_ID_def map_of_eq_None_iff)

section \<open>Properties\<close>

text \<open>
  The token of a 1Password backend is the value of the first of its environment variables
  that is set to a non-empty string, and then the user is not asked; when there is none, it is what the
  token function answers to the prompt, or \<open>OPErrTokenFuncNil\<close> when there is no function.
\<close>

theorem GetOPToken_order:
  "GetOPToken getenv k prompt w =
     (case List.find (\<lambda>e. getenv e \<noteq> '''') (TokenEnvs k) of
        Some e \<Rightarrow> (Inr (getenv e), w)
      | None \<Rightarrow> (case TokenFunc k of Some f \<Rightarrow> f prompt w | None \<Rightarrow> (Inl OPErrTokenFuncNil, w)))"
  by (simp add: GetOPToken_def token_env_loop_find call_simps split: option.split)

end
