(* ===== verification/OP_Standard.thy ===== *)
theory OP_Standard
  imports OP_Common
begin

text \<open>
  \<open>opstandard.go\<close>: the backends over \<open>onepassword-sdk-go\<close>. The SDK's items client is a record of
  functions, a parameter held in the keyring's \<open>Client\<close> field as in the source; its documented
  behaviour is \<open>lawful_op\<close>, met by the in-memory client below. A call through a nil \<open>Client\<close> panics.
\<close>

section \<open>The client\<close>

datatype OPItemState = ItemStateActive | ItemStateArchived

record OPItemOverview =
  ovw_ID :: string
  ovw_Title :: string
  ovw_Category :: OPCategory
  ovw_Tags :: "string list"
  ovw_State :: OPItemState

record OPItemCreateParams =
  icp_Category :: OPCategory
  icp_VaultID :: string
  icp_Title :: string
  icp_Fields :: "OPItemField list"
  icp_Tags :: "string list"

text \<open>
  Each function takes the timeout of the context it is called with; \<open>op_List\<close> also takes the
  \<open>Active\<close> filter.
\<close>

record 'w OPStandardClientAPI =
  op_Create :: "64 word \<Rightarrow> OPItemCreateParams \<Rightarrow> ('w, OPItem) call"
  op_Delete :: "64 word \<Rightarrow> string \<Rightarrow> string \<Rightarrow> ('w, unit) call"
  op_Get :: "64 word \<Rightarrow> string \<Rightarrow> string \<Rightarrow> ('w, OPItem) call"
  op_List :: "64 word \<Rightarrow> string \<Rightarrow> bool \<Rightarrow> ('w, OPItemOverview list) call"
  op_Put :: "64 word \<Rightarrow> OPItem \<Rightarrow> ('w, OPItem) call"

definition OPStandardItemCategory :: OPCategory where
  "OPStandardItemCategory = ItemCategoryAPICredentials"
definition OPStandardItemFieldType :: OPFieldType where
  "OPStandardItemFieldType = ItemFieldTypeConcealed"

record 'w OPStandardKeyring = "'w OPBaseKeyring" +
  Timeout :: "64 word"
  Client :: "'w OPStandardClientAPI option"

text \<open>A method call on the \<open>Client\<close> interface value.\<close>

definition with_client ::
  "('w, 'x) OPStandardKeyring_scheme \<Rightarrow> ('w OPStandardClientAPI \<Rightarrow> ('w, 'a) call) \<Rightarrow> ('w, 'a) call" where
  "with_client k f =
     (case Client k of None \<Rightarrow> go_fail (GoPanic ''nil pointer dereference'') | Some c \<Rightarrow> f c)"

section \<open>Finding items\<close>

text \<open>The loop over the fields of an item: the concealed ones.\<close>

fun concealed_loop :: "OPItemField list \<Rightarrow> OPItemField list \<Rightarrow> OPItemField list" where
  "concealed_loop opItemFields [] = opItemFields"
| "concealed_loop opItemFields (opItemField # fs) =
     concealed_loop
       (if fld_Type opItemField = OPStandardItemFieldType then opItemFields @ [opItemField]
        else opItemFields) fs"

fun hydrate_loop ::
  "('w, 'x) OPStandardKeyring_scheme \<Rightarrow> OPItemOverview list \<Rightarrow> OPItem list \<Rightarrow> ('w, OPItem list) call" where
  "hydrate_loop k [] opItems w = (Inr opItems, w)"
| "hydrate_loop k (itemOverview # os) opItems w =
     (if ItemTag k \<notin> set (ovw_Tags itemOverview) \<or> ovw_State itemOverview \<noteq> ItemStateActive \<or>
         ovw_Category itemOverview \<noteq> OPStandardItemCategory
      then hydrate_loop k os opItems w
      else
        (case with_client k (\<lambda>c. op_Get c (Timeout k) (VaultID k) (ovw_ID itemOverview)) w of
           (Inl err, w) \<Rightarrow> (Inl (wrap_err ''unable to get item'' err), w)
         | (Inr opItem, w) \<Rightarrow>
             (let opItemFields = concealed_loop [] (opi_Fields opItem) in
              if length opItemFields \<noteq> 1 \<or> fld_Title (opItemFields ! 0) \<noteq> ItemFieldTitle k
              then hydrate_loop k os opItems w
              else hydrate_loop k os (opItems @ [opItem\<lparr>opi_Fields := opItemFields\<rparr>]) w)))"

definition opstd_GetOPItems :: "('w, 'x) OPStandardKeyring_scheme \<Rightarrow> ('w, OPItem list) call" where
  "opstd_GetOPItems k =
     go_tryE (wrap_err ''unable to list items'')
       (with_client k (\<lambda>c. op_List c (Timeout k) (VaultID k) True))
       (\<lambda>itemOverviews. hydrate_loop k itemOverviews [])"

text \<open>The check on the number of matches that ends \<open>GetOPItem\<close> of both kinds of keyring.\<close>

definition single_item :: "OPItem list \<Rightarrow> OPItem res" where
  "single_item opItems =
     (if length opItems = 0 then Inl ErrKeyNotFound
      else if length opItems > 1 then Inl (Wrapf ''matched several items'' [OPErrItemMultiple])
      else Inr (opItems ! 0))"

definition opstd_GetOPItem ::
  "('w, 'x) OPStandardKeyring_scheme \<Rightarrow> string \<Rightarrow> ('w, OPItem) call" where
  "opstd_GetOPItem k key =
     go_try (opstd_GetOPItems k) (\<lambda>opItemsAll.
       let opItemTitle = GetOPItemTitleFromKey k key;
           opItems = filter (\<lambda>opItem. opi_Title opItem = opItemTitle) opItemsAll
       in go_lift (single_item opItems))"

section \<open>The operations\<close>

definition opstd_Get :: "('w, 'x) OPStandardKeyring_scheme \<Rightarrow> string \<Rightarrow> ('w, Item) call" where
  "opstd_Get k key =
     go_try (opstd_GetOPItem k key) (\<lambda>opItem.
       go_lift (GetItemFromOPItemFieldValue (fld_Value (opi_Fields opItem ! 0))))"

definition opstd_GetMetadata ::
  "('w, 'x) OPStandardKeyring_scheme \<Rightarrow> string \<Rightarrow> ('w, Metadata) call" where
  "opstd_GetMetadata k key = go_return zero_Metadata"

text \<open>
  \<open>Set\<close>: \<open>now\<close> is what \<open>time.Now\<close> returns. Only an error that is \<open>ErrKeyNotFound\<close> lets the call
  go on, and then the item found is nil.
\<close>

definition opstd_Set ::
  "time \<Rightarrow> ('w, 'x) OPStandardKeyring_scheme \<Rightarrow> Item \<Rightarrow> ('w, unit) call" where
  "opstd_Set now k item w =
     (case opstd_GetOPItem k (Key item) w of (r, w) \<Rightarrow>
        (case (case r of Inr opItem \<Rightarrow> Inr (Some opItem)
               | Inl err \<Rightarrow> if errors_Is err ErrKeyNotFound then Inr None else Inl err) of
           Inl err \<Rightarrow> (Inl err, w)
         | Inr found \<Rightarrow>
             (let opItemTitle = GetOPItemTitleFromKey k (Key item) in
              case GetOPItemFieldValueFromItem item of
                Inl err \<Rightarrow> (Inl err, w)
              | Inr opItemFieldValue \<Rightarrow>
                  (case found of
                     None \<Rightarrow>
                       go_tryE (wrap_err ''unable to create item'')
                         (with_client k (\<lambda>c. op_Create c (Timeout k)
                            \<lparr>icp_Category = OPStandardItemCategory, icp_VaultID = VaultID k,
                             icp_Title = opItemTitle,
                             icp_Fields = [\<lparr>fld_ID = '''', fld_Title = ItemFieldTitle k,
                               fld_Type = OPStandardItemFieldType, fld_Value = opItemFieldValue\<rparr>],
                             icp_Tags = [ItemTag k]\<rparr>))
                         (\<lambda>_. go_return ()) w
                   | Some opItem \<Rightarrow>
                       (let field = opi_Fields opItem ! 0;
                            opItem = opItem\<lparr>opi_Fields :=
                              (opi_Fields opItem)[0 := field\<lparr>fld_Value := opItemFieldValue\<rparr>]\<rparr>;
                            opItem = opItem\<lparr>opi_UpdatedAt := now\<rparr>
                        in go_tryE (wrap_err ''unable to put item'')
                             (with_client k (\<lambda>c. op_Put c (Timeout k) opItem))
                             (\<lambda>_. go_return ()) w)))))"

definition opstd_Remove :: "('w, 'x) OPStandardKeyring_scheme \<Rightarrow> string \<Rightarrow> ('w, unit) call" where
  "opstd_Remove k key =
     go_try (opstd_GetOPItem k key) (\<lambda>opItem.
       go_tryE (wrap_err ''unable to delete item'')
         (with_client k (\<lambda>c. op_Delete c (Timeout k) (VaultID k) (opi_ID opItem)))
         (\<lambda>_. go_return ()))"

definition opstd_Keys :: "('w, 'x) OPStandardKeyring_scheme \<Rightarrow> ('w, string list) call" where
  "opstd_Keys k = go_try (opstd_GetOPItems k) (\<lambda>opItems. go_lift (keys_of_items k opItems))"

section \<open>Laws of the client\<close>

text \<open>
  \<open>vault w v\<close> lists the active items of the vault \<open>v\<close> in the world \<open>w\<close>; \<open>fits\<close> says which field
  values the service stores. The service gives new items fresh identifiers and fills in the
  identifiers of their fields.
\<close>

definition overview_of :: "OPItem \<Rightarrow> OPItemOverview" where
  "overview_of it = \<lparr>ovw_ID = opi_ID it, ovw_Title = opi_Title it, ovw_Category = opi_Category it,
     ovw_Tags = opi_Tags it, ovw_State = ItemStateActive\<rparr>"

definition same_content :: "OPItemField list \<Rightarrow> OPItemField list \<Rightarrow> bool" where
  "same_content fs gs =
     (map (\<lambda>f. (fld_Title f, fld_Type f, fld_Value f)) fs =
      map (\<lambda>f. (fld_Title f, fld_Type f, fld_Value f)) gs)"

definition lawful_op ::
  "'w OPStandardClientAPI \<Rightarrow> ('w \<Rightarrow> string \<Rightarrow> OPItem list) \<Rightarrow> (string \<Rightarrow> bool) \<Rightarrow> bool" where
  "lawful_op c vault fits \<longleftrightarrow>
     (\<forall>w v. distinct (map opi_ID (vault w v))) \<and>
     (\<forall>t v w. op_List c t v True w = (Inr (map overview_of (vault w v)), w)) \<and>
     (\<forall>t v w. \<forall>it\<in>set (vault w v). op_Get c t v (opi_ID it) w = (Inr it, w)) \<and>
     (\<forall>t p w. (\<forall>f\<in>set (icp_Fields p). fits (fld_Value f)) \<longrightarrow>
        (\<exists>it w'. op_Create c t p w = (Inr it, w') \<and>
           opi_Title it = icp_Title p \<and> opi_Category it = icp_Category p \<and>
           opi_Tags it = icp_Tags p \<and> same_content (opi_Fields it) (icp_Fields p) \<and>
           set (vault w' (icp_VaultID p)) = insert it (set (vault w (icp_VaultID p))))) \<and>
     (\<forall>t v w. \<forall>old\<in>set (vault w v). \<forall>it. opi_ID it = opi_ID old \<longrightarrow>
        (\<forall>f\<in>set (opi_Fields it). fits (fld_Value f)) \<longrightarrow>
        (\<exists>new w'. op_Put c t it w = (Inr new, w') \<and> opi_ID new = opi_ID it \<and>
           opi_Title new = opi_Title it \<and> opi_Category new = opi_Category it \<and>
           opi_Tags new = opi_Tags it \<and> same_content (opi_Fields new) (opi_Fields it) \<and>
           set (vault w' v) = insert new {x \<in> set (vault w v). opi_ID x \<noteq> opi_ID it})) \<and>
     (\<forall>t v w. \<forall>it\<in>set (vault w v).
        (\<exists>w'. op_Delete c t v (opi_ID it) w = (Inr (), w') \<and>
           set (vault w' v) = {x \<in> set (vault w v). opi_ID x \<noteq> opi_ID it}))"

lemma lawful_op_distinct: "lawful_op c vault fits \<Longrightarrow> distinct (map opi_ID (vault w v))"
  by (simp add: lawful_op_def)

lemma lawful_op_List:
  "lawful_op c vault fits \<Longrightarrow> op_List c t v True w = (Inr (map overview_of (vault w v)), w)"
  by (simp add: lawful_op_def)

lemma lawful_op_Get:
  "lawful_op c vault fits \<Longrightarrow> it \<in> set (vault w v) \<Longrightarrow> op_Get c t v (opi_ID it) w = (Inr it, w)"
  by (simp add: lawful_op_def)

lemma lawful_op_Create:
  "lawful_op c vault fits \<Longrightarrow> \<forall>f\<in>set (icp_Fields p). fits (fld_Value f) \<Longrightarrow>
   \<exists>it w'. op_Create c t p w = (Inr it, w') \<and>
     opi_Title it = icp_Title p \<and> opi_Category it = icp_Category p \<and>
     opi_Tags it = icp_Tags p \<and> same_content (opi_Fields it) (icp_Fields p) \<and>
     set (vault w' (icp_VaultID p)) = insert it (set (vault w (icp_VaultID p)))"
  by (simp add: lawful_op_def)

lemma lawful_op_Put:
  assumes "lawful_op c vault fits" "old \<in> set (vault w v)" "opi_ID it = opi_ID old"
    "\<forall>f\<in>set (opi_Fields it). fits (fld_Value f)"
  shows "\<exists>new w'. op_Put c t it w = (Inr new, w') \<and> opi_ID new = opi_ID it \<and>
     opi_Title new = opi_Title it \<and> opi_Category new = opi_Category it \<and>
     opi_Tags new = opi_Tags it \<and> same_content (opi_Fields new) (opi_Fields it) \<and>
     set (vault w' v) = insert new {x \<in> set (vault w v). opi_ID x \<noteq> opi_ID it}"
  using assms by (simp add: lawful_op_def)

lemma lawful_op_Delete:
  "lawful_op c vault fits \<Longrightarrow> it \<in> set (vault w v) \<Longrightarrow>
   \<exists>w'. op_Delete c t v (opi_ID it) w = (Inr (), w') \<and>
     set (vault w' v) = {x \<in> set (vault w v). opi_ID x \<noteq> opi_ID it}"
  by (simp add: lawful_op_def)

section \<open>Items of the keyring among those of the vault\<close>

lemma concealed_loop_filter:
  "concealed_loop acc fs = acc @ filter (\<lambda>f. fld_Type f = OPStandardItemFieldType) fs"
  by (induction fs arbitrary: acc) simp_all

abbreviation concealed :: "OPItem \<Rightarrow> OPItemField list" where
  "concealed it \<equiv> filter (\<lambda>f. fld_Type f = OPStandardItemFieldType) (opi_Fields it)"

definition op_match :: "('w, 'x) OPBaseKeyring_scheme \<Rightarrow> OPItem \<Rightarrow> bool" where
  "op_match k it \<longleftrightarrow> ItemTag k \<in> set (opi_Tags it) \<and> opi_Category it = OPStandardItemCategory \<and>
     length (concealed it) = 1 \<and> fld_Title (concealed it ! 0) = ItemFieldTitle k"

definition op_value :: "OPItem \<Rightarrow> string" where
  "op_value it = fld_Value (concealed it ! 0)"

abbreviation prune :: "OPItem \<Rightarrow> OPItem" where
  "prune it \<equiv> it\<lparr>opi_Fields := concealed it\<rparr>"

interpretation std_vault: titled_vault "op_match k" opi_Title opi_ID op_value "GetOPItemTitleFromKey k"
  for k :: "('w, 'x) OPBaseKeyring_scheme"
  by unfold_locales (simp add: op_names.name_inject)

abbreviation op_wf :: "('w, 'x) OPBaseKeyring_scheme \<Rightarrow> OPItem list \<Rightarrow> bool" where
  "op_wf k \<equiv> titled_vault.wf (op_match k) opi_Title opi_ID op_value (GetOPItemTitleFromKey k)"

abbreviation op_lookup ::
  "('w, 'x) OPBaseKeyring_scheme \<Rightarrow> OPItem list \<Rightarrow> string \<Rightarrow> OPItem option" where
  "op_lookup k \<equiv> titled_vault.lookup (op_match k) opi_Title (GetOPItemTitleFromKey k)"

abbreviation op_vview ::
  "('w, 'x) OPBaseKeyring_scheme \<Rightarrow> OPItem list \<Rightarrow> string \<Rightarrow> Item option" where
  "op_vview k \<equiv> titled_vault.vview (op_match k) opi_Title op_value (GetOPItemTitleFromKey k)"

lemma hydrate_all:
  assumes "Client k = Some c"
    and "\<forall>it\<in>set its. op_Get c (Timeout k) (VaultID k) (opi_ID it) w = (Inr it, w)"
  shows "hydrate_loop k (map overview_of its) acc w =
    (Inr (acc @ map prune (filter (op_match k) its)), w)"
  using assms
  by (induction its arbitrary: acc)
    (simp_all add: overview_of_def op_match_def with_client_def Let_def concealed_loop_filter)

lemma GetOPItems_lawful:
  assumes "Client k = Some c" "lawful_op c vault fits"
  shows "opstd_GetOPItems k w = (Inr (map prune (filter (op_match k) (vault w (VaultID k)))), w)"
proof -
  have "hydrate_loop k (map overview_of (vault w (VaultID k))) [] w =
      (Inr (map prune (filter (op_match k) (vault w (VaultID k)))), w)"
    using hydrate_all [of k c "vault w (VaultID k)" w "[]"] assms by (simp add: lawful_op_Get)
  with assms show ?thesis
    by (simp add: opstd_GetOPItems_def call_simps with_client_def lawful_op_List)
qed

lemma GetOPItem_lawful:
  assumes "Client k = Some c" "lawful_op c vault fits" "op_wf k (vault w (VaultID k))"
  shows "opstd_GetOPItem k key w =
    (case op_lookup k (vault w (VaultID k)) key of
       None \<Rightarrow> (Inl ErrKeyNotFound, w) | Some it \<Rightarrow> (Inr (prune it), w))"
proof -
  let ?its = "vault w (VaultID k)"
  have "filter (\<lambda>x. opi_Title x = GetOPItemTitleFromKey k key) (map prune (filter (op_match k) ?its)) =
      map prune (filter (\<lambda>x. opi_Title x = GetOPItemTitleFromKey k key) (filter (op_match k) ?its))"
    by (simp add: filter_map comp_def)
  with std_vault.filter_title [OF assms(3), of key] GetOPItems_lawful [OF assms(1,2), of w]
  show ?thesis
    by (auto simp: opstd_GetOPItem_def call_simps single_item_def Let_def
        simp del: filter_filter split: option.splits)
qed

section \<open>The keyring contract\<close>

record 'w opstd_state =
  ops_vault :: "'w \<Rightarrow> string \<Rightarrow> OPItem list"
  ops_keyring :: "'w OPStandardKeyring"
  ops_now :: time
  ops_world :: 'w

abbreviation opstd_items :: "'w opstd_state \<Rightarrow> OPItem list" where
  "opstd_items s \<equiv> ops_vault s (ops_world s) (VaultID (ops_keyring s))"

definition opstd_inv :: "(string \<Rightarrow> bool) \<Rightarrow> 'w opstd_state \<Rightarrow> bool" where
  "opstd_inv fits s \<longleftrightarrow>
     (\<exists>c. Client (ops_keyring s) = Some c \<and> lawful_op c (ops_vault s) fits) \<and>
     op_wf (ops_keyring s) (opstd_items s)"

definition opstd_view :: "'w opstd_state \<Rightarrow> string \<Rightarrow> Item option" where
  "opstd_view s = op_vview (ops_keyring s) (opstd_items s)"

definition opstd_okitem :: "(string \<Rightarrow> bool) \<Rightarrow> Item \<Rightarrow> bool" where
  "opstd_okitem fits i \<longleftrightarrow> utf8_Item i \<and> fits (item.text_of i)"

definition opstd_lift ::
  "('w OPStandardKeyring \<Rightarrow> time \<Rightarrow> ('w, 'a) call) \<Rightarrow> ('w opstd_state, 'a) call" where
  "opstd_lift m s =
     (case m (ops_keyring s) (ops_now s) (ops_world s) of (r, w) \<Rightarrow> (r, s\<lparr>ops_world := w\<rparr>))"

lemma same_content_one:
  "same_content fs [g] \<longleftrightarrow>
     (\<exists>f. fs = [f] \<and> fld_Title f = fld_Title g \<and> fld_Type f = fld_Type g \<and> fld_Value f = fld_Value g)"
  by (auto simp: same_content_def)

text \<open>An item that carries one concealed field of the keyring is one of its items.\<close>

lemma op_match_one:
  assumes "same_content (opi_Fields it) [g]" "fld_Type g = OPStandardItemFieldType"
    "fld_Title g = ItemFieldTitle k" "ItemTag k \<in> set (opi_Tags it)"
    "opi_Category it = OPStandardItemCategory"
  shows "op_match k it \<and> op_value it = fld_Value g"
  using assms by (auto simp: op_match_def op_value_def same_content_one)

lemma concealed_single:
  "op_match k it \<Longrightarrow> \<exists>f. concealed it = [f] \<and> fld_Title f = ItemFieldTitle k \<and>
     fld_Type f = OPStandardItemFieldType \<and> op_value it = fld_Value f"
proof -
  assume m: "op_match k it"
  then obtain f where "concealed it = [f]"
    by (auto simp: op_match_def length_Suc_conv)
  with m show ?thesis
    using filter_eq_ConsD [of "\<lambda>f. fld_Type f = OPStandardItemFieldType" "opi_Fields it" f "[]"]
    by (auto simp: op_match_def op_value_def)
qed

text \<open>What \<open>Set\<close> does to a lawful vault: it stores the item under its key.\<close>

lemma opstd_Set_lawful:
  assumes c: "Client k = Some c" and law: "lawful_op c vault fits"
    and wf: "op_wf k (vault w (VaultID k))" and ok: "opstd_okitem fits i"
  shows "\<exists>w'. opstd_Set now k i w = (Inr (), w') \<and> op_wf k (vault w' (VaultID k)) \<and>
    op_vview k (vault w' (VaultID k)) = (op_vview k (vault w (VaultID k)))(Key i \<mapsto> i)"
proof (cases "op_lookup k (vault w (VaultID k)) (Key i)")
  case None
  let ?f = "\<lparr>fld_ID = '''', fld_Title = ItemFieldTitle k, fld_Type = OPStandardItemFieldType,
    fld_Value = item.text_of i\<rparr>"
  let ?p = "\<lparr>icp_Category = OPStandardItemCategory, icp_VaultID = VaultID k,
    icp_Title = GetOPItemTitleFromKey k (Key i), icp_Fields = [?f], icp_Tags = [ItemTag k]\<rparr>"
  from lawful_op_Create [OF law, of ?p "Timeout k" w] ok obtain it w' where
    cr: "op_Create c (Timeout k) ?p w = (Inr it, w')"
    and it: "opi_Title it = GetOPItemTitleFromKey k (Key i)" "opi_Category it = OPStandardItemCategory"
      "opi_Tags it = [ItemTag k]" "same_content (opi_Fields it) [?f]"
    and its: "set (vault w' (VaultID k)) = insert it (set (vault w (VaultID k)))"
    by (auto simp: opstd_okitem_def)
  from op_match_one [OF it(4), of k] it have m: "op_match k it" "op_value it = item.text_of i"
    by simp_all
  have "opstd_Set now k i w = (Inr (), w')"
    using None cr c GetOPItem_lawful [OF c law wf, of "Key i"]
    by (simp add: opstd_Set_def GetOPItemFieldValueFromItem_def item.enc_text with_client_def
        call_simps)
  moreover have "op_vview k (vault w (VaultID k)) (Key i) = None"
    using None by (simp add: std_vault.vview_def)
  then have "op_wf k (vault w' (VaultID k)) \<and>
    op_vview k (vault w' (VaultID k)) = (op_vview k (vault w (VaultID k)))(Key i \<mapsto> i)"
    using std_vault.vview_insert [OF wf its _ lawful_op_distinct [OF law] m(1) it(1)]
      ok m(2) item.dec_text [of i] by (simp add: opstd_okitem_def)
  ultimately show ?thesis by blast
next
  case (Some old)
  then have old: "old \<in> set (vault w (VaultID k))" "op_match k old"
    "opi_Title old = GetOPItemTitleFromKey k (Key i)"
    using std_vault.lookup_Some [OF wf] by blast+
  from concealed_single [OF old(2)] obtain f where
    f: "concealed old = [f]" "fld_Title f = ItemFieldTitle k" "fld_Type f = OPStandardItemFieldType"
    by blast
  let ?g = "f\<lparr>fld_Value := item.text_of i\<rparr>"
  let ?it = "old\<lparr>opi_Fields := [?g], opi_UpdatedAt := now\<rparr>"
  from lawful_op_Put [OF law old(1), of ?it "Timeout k"] ok obtain new w' where
    put: "op_Put c (Timeout k) ?it w = (Inr new, w')"
    and new: "opi_ID new = opi_ID old" "opi_Title new = opi_Title old"
      "opi_Category new = opi_Category old" "opi_Tags new = opi_Tags old"
      "same_content (opi_Fields new) [?g]"
    and its: "set (vault w' (VaultID k)) =
      insert new {x \<in> set (vault w (VaultID k)). opi_ID x \<noteq> opi_ID old}"
    by (auto simp: opstd_okitem_def)
  from op_match_one [OF new(5), of k] new old f
  have m: "op_match k new" "op_value new = item.text_of i" by (simp_all add: op_match_def)
  have "opstd_Set now k i w = (Inr (), w')"
    using Some put c f(1) GetOPItem_lawful [OF c law wf, of "Key i"]
    by (simp add: opstd_Set_def GetOPItemFieldValueFromItem_def item.enc_text with_client_def
        call_simps Let_def)
  moreover from its std_vault.same_ident [OF wf old(1,2,3)]
  have its': "set (vault w' (VaultID k)) = insert new
    {x \<in> set (vault w (VaultID k)). op_match k x \<longrightarrow> opi_Title x \<noteq> GetOPItemTitleFromKey k (Key i)}"
    by simp
  have "op_wf k (vault w' (VaultID k)) \<and>
    op_vview k (vault w' (VaultID k)) = (op_vview k (vault w (VaultID k)))(Key i \<mapsto> i)"
    using std_vault.vview_insert [OF wf its' _ lawful_op_distinct [OF law] m(1)]
      new(2) old(3) ok m(2) item.dec_text [of i] by (simp add: opstd_okitem_def)
  ultimately show ?thesis by blast
qed

lemma opstd_Get_lawful:
  assumes "Client k = Some c" "lawful_op c vault fits" "op_wf k (vault w (VaultID k))"
  shows "opstd_Get k key w =
    (case op_vview k (vault w (VaultID k)) key of
       None \<Rightarrow> (Inl ErrKeyNotFound, w) | Some i \<Rightarrow> (Inr i, w))"
proof (cases "op_lookup k (vault w (VaultID k)) key")
  case None
  then show ?thesis using GetOPItem_lawful [OF assms, of key]
    by (simp add: opstd_Get_def call_simps std_vault.vview_def)
next
  case (Some it)
  then have it: "it \<in> set (vault w (VaultID k))" "op_match k it"
    using std_vault.lookup_Some [OF assms(3)] by blast+
  then obtain i where "json_Unmarshal_Item (op_value it) = Inr i"
    using assms(3) by (auto simp: std_vault.wf_def)
  with Some concealed_single [OF it(2)] GetOPItem_lawful [OF assms, of key] show ?thesis
    by (auto simp: opstd_Get_def call_simps std_vault.vview_def GetItemFromOPItemFieldValue_def)
qed

lemma opstd_Remove_lawful:
  assumes "Client k = Some c" and law: "lawful_op c vault fits" and wf: "op_wf k (vault w (VaultID k))"
  shows "\<exists>r w'. opstd_Remove k key w = (r, w') \<and>
    r = (if op_vview k (vault w (VaultID k)) key = None then Inl ErrKeyNotFound else Inr ()) \<and>
    op_wf k (vault w' (VaultID k)) \<and>
    op_vview k (vault w' (VaultID k)) = (op_vview k (vault w (VaultID k)))(key := None)"
proof (cases "op_lookup k (vault w (VaultID k)) key")
  case None
  then have "op_vview k (vault w (VaultID k)) key = None" by (simp add: std_vault.vview_def)
  with None wf show ?thesis using GetOPItem_lawful [OF assms, of key]
    by (simp add: opstd_Remove_def call_simps fun_upd_idem)
next
  case (Some it)
  then have it: "it \<in> set (vault w (VaultID k))" "op_match k it"
    "opi_Title it = GetOPItemTitleFromKey k key"
    using std_vault.lookup_Some [OF wf] by blast+
  from lawful_op_Delete [OF law it(1), of "Timeout k"] obtain w' where
    w': "op_Delete c (Timeout k) (VaultID k) (opi_ID it) w = (Inr (), w')"
    and its: "set (vault w' (VaultID k)) = {x \<in> set (vault w (VaultID k)). opi_ID x \<noteq> opi_ID it}"
    by blast
  from its have "op_wf k (vault w' (VaultID k)) \<and>
    op_vview k (vault w' (VaultID k)) = (op_vview k (vault w (VaultID k)))(key := None)"
    using std_vault.vview_delete [OF wf _ lawful_op_distinct [OF law]]
      std_vault.same_ident [OF wf it] by simp
  moreover have "op_vview k (vault w (VaultID k)) key \<noteq> None"
    using Some by (simp add: std_vault.vview_def)
  moreover have "opstd_Remove k key w = (Inr (), w')"
    using Some w' assms(1) GetOPItem_lawful [OF assms, of key]
    by (simp add: opstd_Remove_def call_simps with_client_def)
  ultimately show ?thesis by simp
qed

lemma opstd_Keys_lawful:
  assumes "Client k = Some c" "lawful_op c vault fits" and wf: "op_wf k (vault w (VaultID k))"
  shows "\<exists>ks. opstd_Keys k w = (Inr ks, w) \<and> set ks = dom (op_vview k (vault w (VaultID k))) \<and>
    distinct ks"
proof -
  let ?its = "filter (op_match k) (vault w (VaultID k))"
  let ?ks = "map (\<lambda>it. GetKeyFromOPItemTitle k (opi_Title it)) ?its"
  have "keys_of_items k (map prune ?its) = Inr ?ks"
    using std_vault.distinct_titles [OF wf] by (simp add: keys_of_items_eq comp_def)
  with GetOPItems_lawful [OF assms(1,2), of w] have run: "opstd_Keys k w = (Inr ?ks, w)"
    by (simp add: opstd_Keys_def call_simps)
  have "\<forall>t\<in>set (map opi_Title ?its). \<exists>key. t = GetOPItemTitleFromKey k key"
    using wf by (auto simp: std_vault.wf_def)
  from titles_are_keys [OF this std_vault.distinct_titles [OF wf]]
  have "set ?ks = dom (op_vview k (vault w (VaultID k))) \<and> distinct ?ks"
    using std_vault.titles_dom [OF wf] by (simp add: comp_def)
  with run show ?thesis by blast
qed

interpretation opstd: keyring_reports_missing "opstd_inv fits" opstd_view
  "\<lambda>_. True" "opstd_okitem fits" "\<lambda>i. i"
  "\<lambda>key. opstd_lift (\<lambda>k now. opstd_Get k key)"
  "\<lambda>i. opstd_lift (\<lambda>k now. opstd_Set now k i)"
  "\<lambda>key. opstd_lift (\<lambda>k now. opstd_Remove k key)"
  "opstd_lift (\<lambda>k now. opstd_Keys k)"
  for fits
proof (unfold_locales, goal_cases)
  case (1 i)
  then show ?case by simp
next
  case (2 s k v)
  then show ?case
    by (auto simp: opstd_inv_def opstd_view_def opstd_lift_def opstd_Get_lawful)
next
  case (3 s k)
  then show ?case
    by (auto simp: opstd_inv_def opstd_view_def opstd_lift_def opstd_Get_lawful)
next
  case (4 s i)
  then obtain c where "Client (ops_keyring s) = Some c" "lawful_op c (ops_vault s) fits"
    "op_wf (ops_keyring s) (opstd_items s)" by (auto simp: opstd_inv_def)
  from opstd_Set_lawful [OF this 4(2), of "ops_now s"] this show ?case
    by (auto simp: opstd_inv_def opstd_view_def opstd_lift_def)
next
  case (5 s k)
  then obtain c where "Client (ops_keyring s) = Some c" "lawful_op c (ops_vault s) fits"
    "op_wf (ops_keyring s) (opstd_items s)" by (auto simp: opstd_inv_def)
  from opstd_Remove_lawful [OF this, of k] this show ?case
    by (auto simp: opstd_inv_def opstd_view_def opstd_lift_def)
next
  case (6 s)
  then obtain c where "Client (ops_keyring s) = Some c" "lawful_op c (ops_vault s) fits"
    "op_wf (ops_keyring s) (opstd_items s)" by (auto simp: opstd_inv_def)
  from opstd_Keys_lawful [OF this] this show ?case
    by (auto simp: opstd_inv_def opstd_view_def opstd_lift_def)
next
  case (7 s k)
  then obtain c where "Client (ops_keyring s) = Some c" "lawful_op c (ops_vault s) fits"
    "op_wf (ops_keyring s) (opstd_items s)" by (auto simp: opstd_inv_def)
  from opstd_Remove_lawful [OF this, of k] 7 show ?case
    by (auto simp: opstd_view_def opstd_lift_def)
qed

section \<open>An in-memory items client\<close>

text \<open>There is one vault, whatever its name.\<close>

type_synonym mem_vault = "(string \<times> OPItem) list"

interpretation op_store: id_store opi_ID "\<lambda>i it. it\<lparr>opi_ID := i\<rparr>"
  by unfold_locales simp_all

definition mem_items :: "mem_vault \<Rightarrow> string \<Rightarrow> OPItem list" where
  "mem_items w v = op_store.listed w"

definition mem_op :: "mem_vault OPStandardClientAPI" where
  "mem_op =
    \<lparr>op_Create = (\<lambda>t p w.
        let it = \<lparr>opi_ID = fresh_ID w, opi_Title = icp_Title p, opi_Category = icp_Category p,
                  opi_VaultID = icp_VaultID p, opi_Fields = icp_Fields p, opi_Tags = icp_Tags p,
                  opi_UpdatedAt = 0\<rparr>
        in (Inr it, (fresh_ID w, it) # w)),
     op_Delete = (\<lambda>t v i w. (Inr (), AList.delete i w)),
     op_Get = (\<lambda>t v i w. case map_of w i of
        None \<Rightarrow> (Inl (Foreign ''not found''), w) | Some it \<Rightarrow> (Inr (it\<lparr>opi_ID := i\<rparr>), w)),
     op_List = (\<lambda>t v active w. (Inr (map overview_of (mem_items w v)), w)),
     op_Put = (\<lambda>t it w. (Inr it, AList.update (opi_ID it) it w))\<rparr>"

lemma mem_op_lawful: "lawful_op mem_op mem_items (\<lambda>_. True)"
  unfolding lawful_op_def
proof (intro conjI allI ballI impI, goal_cases)
  case (1 w v)
  show ?case by (simp add: mem_items_def op_store.idents_listed)
next
  case (2 t v w)
  show ?case by (simp add: mem_op_def)
next
  case (3 t v w it)
  then show ?case using op_store.find_listed [of it w] by (auto simp: mem_op_def mem_items_def)
next
  case (4 t p w)
  let ?it = "\<lparr>opi_ID = fresh_ID w, opi_Title = icp_Title p, opi_Category = icp_Category p,
    opi_VaultID = icp_VaultID p, opi_Fields = icp_Fields p, opi_Tags = icp_Tags p,
    opi_UpdatedAt = 0\<rparr>"
  have "set (mem_items ((fresh_ID w, ?it) # w) v) = insert ?it (set (mem_items w v))" for v
    unfolding mem_items_def by (intro op_store.listed_new) (simp_all add: fresh_ID_new)
  then show ?case by (simp add: mem_op_def same_content_def Let_def)
next
  case (5 t v w old it)
  have "map_of (AList.update (opi_ID it) it w) = (map_of w)(opi_ID it \<mapsto> it)"
    by (simp add: update_conv')
  from op_store.listed_update [OF this] show ?case
    by (simp add: mem_op_def mem_items_def same_content_def)
next
  case (6 t v w it)
  have "map_of (AList.delete (opi_ID it) w) = (map_of w)(opi_ID it := None)"
    by (simp add: delete_conv')
  from op_store.listed_delete [OF this] show ?case by (simp add: mem_op_def mem_items_def)
qed

section \<open>Properties\<close>

definition opstd_step :: "kop \<Rightarrow> 'w opstd_state \<Rightarrow> 'w opstd_state" where
  "opstd_step = step_kop (\<lambda>key. opstd_lift (\<lambda>k now. opstd_Get k key))
     (\<lambda>i. opstd_lift (\<lambda>k now. opstd_Set now k i))
     (\<lambda>key. opstd_lift (\<lambda>k now. opstd_Remove k key)) (opstd_lift (\<lambda>k now. opstd_Keys k))"

text \<open>
  \<^bold>\<open>C5.\<close> Over a vault service that behaves as documented, starting from a vault whose items of this
  keyring have distinct prefixed titles and readable values, any sequence of calls makes the
  keyring the map that the calls describe: \<open>Get\<close> returns the whole item last set, or \<open>ErrKeyNotFound\<close>,
  and \<open>Keys\<close> lists exactly the keys that have an item. Items of other tags, categories or fields in
  the same vault play no part.
\<close>

theorem opstd_history:
  assumes "Client (ops_keyring s) = Some c" "lawful_op c (ops_vault s) fits"
    and "op_wf (ops_keyring s) (opstd_items s)"
    and "list_all (ok_kop (\<lambda>_. True) (opstd_okitem fits)) ps"
  shows "get_answers (\<lambda>i. i) (fold (spec_kop (\<lambda>i. i)) ps (opstd_view s) key)
      (fst (opstd_lift (\<lambda>k now. opstd_Get k key) (fold opstd_step ps s))) \<and>
    (\<exists>ks. fst (opstd_lift (\<lambda>k now. opstd_Keys k) (fold opstd_step ps s)) = Inr ks \<and>
       distinct ks \<and> set ks = dom (fold (spec_kop (\<lambda>i. i)) ps (opstd_view s)))"
proof -
  have "opstd_inv fits s" using assms(1-3) by (auto simp: opstd_inv_def)
  from opstd.history [OF this assms(4) TrueI, of key] show ?thesis by (simp add: opstd_step_def)
qed

definition sample_base :: "mem_vault OPBaseKeyring" where
  "sample_base = \<lparr>VaultID = ''v'', ItemTitlePrefix = ''keyring'', ItemTag = ''keyring'',
     ItemFieldTitle = ''keyring'', TokenEnvs = [], TokenFunc = None\<rparr>"

definition sample_opstd :: "mem_vault OPStandardKeyring" where
  "sample_opstd = OPBaseKeyring.extend sample_base
     (OPStandardKeyring.fields 1000 (Some mem_op))"

definition sample_opstd_state :: "mem_vault opstd_state" where
  "sample_opstd_state = \<lparr>ops_vault = mem_items, ops_keyring = sample_opstd, ops_now = 7,
     ops_world = []\<rparr>"

lemmas sample_op_simps = sample_base_def sample_opstd_def sample_opstd_state_def
  OPBaseKeyring.defs OPStandardKeyring.defs

theorem opstd_history_witness:
  "fst (opstd_lift (\<lambda>k now. opstd_Get k ''k'') (fold opstd_step
     [KSet (zero_Item\<lparr>Key := ''k'', Data := Some ''1''\<rparr>), KRemove ''k'',
      KSet (zero_Item\<lparr>Key := ''k'', Label := ''label''\<rparr>), KKeys] sample_opstd_state)) =
   Inr (zero_Item\<lparr>Key := ''k'', Label := ''label''\<rparr>)"
  using opstd_history [of sample_opstd_state mem_op "\<lambda>_. True"
     "[KSet (zero_Item\<lparr>Key := ''k'', Data := Some ''1''\<rparr>), KRemove ''k'',
       KSet (zero_Item\<lparr>Key := ''k'', Label := ''label''\<rparr>), KKeys]" "''k''"]
  by (simp add: sample_op_simps mem_op_lawful std_vault.wf_def mem_items_def op_store.listed_def opstd_okitem_def
      utf8_Item_def zero_Item_def byte_val_def)

definition one_field :: "('w, 'x) OPBaseKeyring_scheme \<Rightarrow> OPItem \<Rightarrow> bool" where
  "one_field k it \<longleftrightarrow> (case opi_Fields it of
     [f] \<Rightarrow> fld_Title f = ItemFieldTitle k \<and> fld_Type f = OPStandardItemFieldType | _ \<Rightarrow> False)"

lemma one_field_pruned:
  assumes "length (concealed it) = 1" "fld_Title (concealed it ! 0) = ItemFieldTitle k"
  shows "one_field k (prune it)"
proof -
  from assms(1) obtain f where f: "concealed it = [f]" by (auto simp: length_Suc_conv)
  then have "f \<in> set (concealed it)" by simp
  then have "fld_Type f = OPStandardItemFieldType" by simp
  with f assms show ?thesis by (simp add: one_field_def)
qed

lemma hydrate_one_field:
  "hydrate_loop k os acc w = (Inr its, w') \<Longrightarrow> list_all (one_field k) acc \<Longrightarrow>
     list_all (one_field k) its"
proof (induction k os acc w arbitrary: its w' rule: hydrate_loop.induct)
  case (2 k ov os acc w)
  show ?case
  proof (cases "ItemTag k \<notin> set (ovw_Tags ov) \<or> ovw_State ov \<noteq> ItemStateActive \<or>
      ovw_Category ov \<noteq> OPStandardItemCategory")
    case True
    with 2 show ?thesis by auto
  next
    case False
    then obtain it w1 where
      get: "with_client k (\<lambda>c. op_Get c (Timeout k) (VaultID k) (ovw_ID ov)) w = (Inr it, w1)"
      using "2.prems"(1) by (auto split: prod.splits sum.splits)
    show ?thesis
      using "2.prems" "2.IH"(2,3) [OF False get [symmetric] refl refl] False get one_field_pruned
      by (auto simp: concealed_loop_filter Let_def split: if_splits)
  qed
qed simp

lemma GetOPItems_one_field:
  "opstd_GetOPItems k w = (Inr its, w') \<Longrightarrow> list_all (one_field k) its"
  using hydrate_one_field by (fastforce simp: opstd_GetOPItems_def go_tryE_eq_Inr)

lemma single_item_in: "single_item its = Inr it \<Longrightarrow> it \<in> set its"
  by (auto simp: single_item_def split: if_splits)

lemma GetOPItem_one_field:
  assumes "opstd_GetOPItem k key w = (Inr it, w')"
  shows "one_field k it"
proof -
  from assms obtain its where "opstd_GetOPItems k w = (Inr its, w')"
    "single_item (filter (\<lambda>i. opi_Title i = GetOPItemTitleFromKey k key) its) = Inr it"
    by (auto simp: opstd_GetOPItem_def go_try_eq_Inr Let_def go_lift_def)
  with GetOPItems_one_field [of k w its w'] single_item_in show ?thesis
    by (fastforce simp: list_all_iff)
qed

text \<open>
  \<^bold>\<open>C9.\<close> Whatever the client returns, every item \<open>GetOPItems\<close> and \<open>GetOPItem\<close> return has exactly
  one field, concealed and with the keyring's title: the accesses to \<open>Fields[0]\<close> in \<open>Get\<close> and \<open>Set\<close>
  are within bounds.
\<close>

theorem OPItems_have_one_field:
  "(case opstd_GetOPItems k w of (Inr its, w') \<Rightarrow> list_all (one_field k) its | (Inl e, w') \<Rightarrow> True) \<and>
   (case opstd_GetOPItem k key w of (Inr it, w') \<Rightarrow> one_field k it | (Inl e, w') \<Rightarrow> True)"
  using GetOPItems_one_field [of k w] GetOPItem_one_field [of k key w]
  by (auto split: prod.splits sum.splits)

end
