(* ===== verification/OP_Connect.thy ===== *)
theory OP_Connect
  imports OP_Standard
begin

text \<open>
  \<open>opconnect.go\<close>: the backend over a 1Password Connect server. Its methods have value receivers:
  each call works on a copy of the keyring, so the client that \<open>InitializeOPConnectClient\<close> stores
  in the copy is gone when the call returns. The Connect client and its constructor are
  parameters, with the documented behaviour stated as \<open>lawful_connect\<close>. Pointers the client returns
  without an error are not nil.
\<close>

section \<open>The client\<close>

datatype ConnectCategory = ApiCredential | OtherConnectCategory string
datatype ConnectFieldType = FieldTypeConcealed | OtherConnectFieldType string

record ConnectField =
  cf_ID :: string
  cf_Type :: ConnectFieldType
  cf_Label :: string
  cf_Value :: string

record ConnectItem =
  ci_ID :: string
  ci_Title :: string
  ci_Category :: ConnectCategory
  ci_Tags :: "string list"
  ci_Vault :: string
  ci_Fields :: "ConnectField list"
  ci_UpdatedAt :: time

record 'w OPConnectClientAPI =
  oc_CreateItem :: "ConnectItem \<Rightarrow> string \<Rightarrow> ('w, ConnectItem) call"
  oc_DeleteItemByID :: "string \<Rightarrow> string \<Rightarrow> ('w, unit) call"
  oc_GetItemByUUID :: "string \<Rightarrow> string \<Rightarrow> ('w, ConnectItem) call"
  oc_GetItems :: "string \<Rightarrow> ('w, ConnectItem list) call"
  oc_GetItemsByTitle :: "string \<Rightarrow> string \<Rightarrow> ('w, ConnectItem list) call"
  oc_UpdateItem :: "ConnectItem \<Rightarrow> string \<Rightarrow> ('w, ConnectItem) call"

definition OPConnectEnvHost :: string where "OPConnectEnvHost = ''OP_CONNECT_HOST''"
definition OPConnectEnvToken :: string where "OPConnectEnvToken = ''OP_CONNECT_TOKEN''"
definition OPConnectItemCategory :: ConnectCategory where "OPConnectItemCategory = ApiCredential"
definition OPConnectItemFieldType :: ConnectFieldType where
  "OPConnectItemFieldType = FieldTypeConcealed"

abbreviation OPConnectErrKeyring :: goerr where "OPConnectErrKeyring \<equiv> Sentinel V_OPConnectErrKeyring"
definition OPConnectErrHost :: goerr where
  "OPConnectErrHost = Wrapf ''OP_CONNECT_HOST'' [OPConnectErrKeyring, ErrEnvUnsetOrEmpty]"

record 'w OPConnectKeyring = "'w OPBaseKeyring" +
  Host :: string
  CClient :: "'w OPConnectClientAPI option"

section \<open>Opening\<close>

definition NewOPConnectKeyring :: "(string \<Rightarrow> string) \<Rightarrow> 'w Config \<Rightarrow> 'w OPConnectKeyring res" where
  "NewOPConnectKeyring getenv cfg =
     (let errs = [];
          (vaultID, errs) = from_env getenv (OPVaultID cfg) OPEnvVaultID OPErrVaultID errs;
          itemTitlePrefix = or_default (cfg_OPItemTitlePrefix cfg) OPItemTitlePrefix;
          itemTag = or_default (cfg_OPItemTag cfg) OPItemTag;
          itemFieldTitle = or_default (cfg_OPItemFieldTitle cfg) OPItemFieldTitle;
          (host, errs) = from_env getenv (OPConnectHost cfg) OPConnectEnvHost OPConnectErrHost errs
      in if length errs > 0 then Inl (Joined errs)
         else Inr \<lparr>VaultID = vaultID, ItemTitlePrefix = itemTitlePrefix, ItemTag = itemTag,
                ItemFieldTitle = itemFieldTitle, TokenEnvs = [OPConnectTokenEnv cfg, OPConnectEnvToken],
                TokenFunc = OPTokenFunc cfg, Host = host, CClient = None\<rparr>)"

text \<open>
  The arguments of the operations that stand for the outside: the process environment, the SDK's
  constructor \<open>connect.NewClient\<close>, and the clock.
\<close>

record 'w connect_env =
  ce_getenv :: "string \<Rightarrow> string"
  ce_NewClient :: "string \<Rightarrow> string \<Rightarrow> 'w OPConnectClientAPI"
  ce_now :: time

definition InitializeOPConnectClient ::
  "'w connect_env \<Rightarrow> 'w OPConnectKeyring \<Rightarrow> ('w, 'w OPConnectKeyring) call" where
  "InitializeOPConnectClient env k =
     (case CClient k of
        Some _ \<Rightarrow> go_return k
      | None \<Rightarrow>
          go_try (GetOPToken (ce_getenv env) k ''Enter 1Password Connect token'') (\<lambda>token.
            go_return (k\<lparr>CClient := Some (ce_NewClient env (Host k) token)\<rparr>)))"

definition with_cclient ::
  "('w, 'x) OPConnectKeyring_scheme \<Rightarrow> ('w OPConnectClientAPI \<Rightarrow> ('w, 'a) call) \<Rightarrow> ('w, 'a) call" where
  "with_cclient k f =
     (case CClient k of None \<Rightarrow> go_fail (GoPanic ''nil pointer dereference'') | Some c \<Rightarrow> f c)"

section \<open>Finding items\<close>

fun connect_fields_loop :: "OPItemField list \<Rightarrow> ConnectField list \<Rightarrow> OPItemField list" where
  "connect_fields_loop opItemFields [] = opItemFields"
| "connect_fields_loop opItemFields (f # fs) =
     connect_fields_loop
       (if cf_Type f = OPConnectItemFieldType
        then opItemFields @ [\<lparr>fld_ID = cf_ID f, fld_Title = cf_Label f,
               fld_Type = OPStandardItemFieldType, fld_Value = cf_Value f\<rparr>]
        else opItemFields) fs"

fun PruneAndHydrateOPItemOverviews ::
  "('w, 'x) OPConnectKeyring_scheme \<Rightarrow> ConnectItem list \<Rightarrow> OPItem list \<Rightarrow> ('w, OPItem list) call" where
  "PruneAndHydrateOPItemOverviews k [] opItems w = (Inr opItems, w)"
| "PruneAndHydrateOPItemOverviews k (ov # ovs) opItems w =
     (if ItemTag k \<notin> set (ci_Tags ov) \<or> ci_Category ov \<noteq> OPConnectItemCategory
      then PruneAndHydrateOPItemOverviews k ovs opItems w
      else
        (case with_cclient k (\<lambda>c. oc_GetItemByUUID c (ci_ID ov) (VaultID k)) w of
           (Inl err, w) \<Rightarrow> (Inl (wrap_err ''unable to get item'' err), w)
         | (Inr opConnectItem, w) \<Rightarrow>
             (let opItemFields = connect_fields_loop [] (ci_Fields opConnectItem) in
              if length opItemFields \<noteq> 1 \<or> fld_Title (opItemFields ! 0) \<noteq> ItemFieldTitle k
              then PruneAndHydrateOPItemOverviews k ovs opItems w
              else PruneAndHydrateOPItemOverviews k ovs (opItems @
                [\<lparr>opi_ID = ci_ID opConnectItem, opi_Title = ci_Title opConnectItem,
                  opi_Category = OPStandardItemCategory, opi_VaultID = ci_Vault opConnectItem,
                  opi_Fields = opItemFields, opi_Tags = ci_Tags opConnectItem,
                  opi_UpdatedAt = ci_UpdatedAt opConnectItem\<rparr>]) w)))"

definition opc_GetOPItem ::
  "('w, 'x) OPConnectKeyring_scheme \<Rightarrow> string \<Rightarrow> ('w, OPItem) call" where
  "opc_GetOPItem k key =
     (let opItemTitle = GetOPItemTitleFromKey k key in
      go_tryE (wrap_err ''unable to get item overviews with title'')
        (with_cclient k (\<lambda>c. oc_GetItemsByTitle c opItemTitle (VaultID k)))
        (\<lambda>overviews. go_try (PruneAndHydrateOPItemOverviews k overviews [])
           (\<lambda>opItems. go_lift (single_item opItems))))"

definition opc_GetOPItems :: "('w, 'x) OPConnectKeyring_scheme \<Rightarrow> ('w, OPItem list) call" where
  "opc_GetOPItems k =
     go_tryE (wrap_err ''unable to get item overviews'')
       (with_cclient k (\<lambda>c. oc_GetItems c (VaultID k)))
       (\<lambda>overviews. go_try (PruneAndHydrateOPItemOverviews k overviews []) go_return)"

section \<open>The operations\<close>

definition opc_Get :: "'w connect_env \<Rightarrow> 'w OPConnectKeyring \<Rightarrow> string \<Rightarrow> ('w, Item) call" where
  "opc_Get env k key =
     go_try (InitializeOPConnectClient env k) (\<lambda>k.
     go_try (opc_GetOPItem k key) (\<lambda>opItem.
       go_lift (GetItemFromOPItemFieldValue (fld_Value (opi_Fields opItem ! 0)))))"

definition opc_GetMetadata :: "'w OPConnectKeyring \<Rightarrow> string \<Rightarrow> ('w, Metadata) call" where
  "opc_GetMetadata k key = go_return zero_Metadata"

definition opc_Set :: "'w connect_env \<Rightarrow> 'w OPConnectKeyring \<Rightarrow> Item \<Rightarrow> ('w, unit) call" where
  "opc_Set env k item =
     go_try (InitializeOPConnectClient env k) (\<lambda>k w.
     (case opc_GetOPItem k (Key item) w of (r, w) \<Rightarrow>
        (case (case r of Inr opItem \<Rightarrow> Inr (Some opItem)
               | Inl err \<Rightarrow> if errors_Is err ErrKeyNotFound then Inr None else Inl err) of
           Inl err \<Rightarrow> (Inl err, w)
         | Inr found \<Rightarrow>
             (let opItemTitle = GetOPItemTitleFromKey k (Key item) in
              case GetOPItemFieldValueFromItem item of
                Inl err \<Rightarrow> (Inl err, w)
              | Inr opItemFieldValue \<Rightarrow>
                  (let field = \<lparr>cf_ID = '''', cf_Type = OPConnectItemFieldType,
                         cf_Label = ItemFieldTitle k, cf_Value = opItemFieldValue\<rparr>;
                       opConnectItem = \<lparr>ci_ID = '''', ci_Title = opItemTitle,
                         ci_Category = OPConnectItemCategory, ci_Tags = [ItemTag k],
                         ci_Vault = VaultID k, ci_Fields = [field], ci_UpdatedAt = 0\<rparr>
                   in case found of
                        None \<Rightarrow>
                          go_tryE (wrap_err ''unable to create item'')
                            (with_cclient k (\<lambda>c. oc_CreateItem c opConnectItem (VaultID k)))
                            (\<lambda>_. go_return ()) w
                      | Some opItem \<Rightarrow>
                          (let opConnectItem = opConnectItem\<lparr>ci_ID := opi_ID opItem\<rparr>;
                               opConnectItem = opConnectItem\<lparr>ci_Fields :=
                                 [field\<lparr>cf_ID := fld_ID (opi_Fields opItem ! 0)\<rparr>]\<rparr>;
                               opConnectItem = opConnectItem\<lparr>ci_UpdatedAt := ce_now env\<rparr>
                           in go_tryE (wrap_err ''unable to update item'')
                                (with_cclient k (\<lambda>c. oc_UpdateItem c opConnectItem (VaultID k)))
                                (\<lambda>_. go_return ()) w))))))"

definition opc_Remove :: "'w connect_env \<Rightarrow> 'w OPConnectKeyring \<Rightarrow> string \<Rightarrow> ('w, unit) call" where
  "opc_Remove env k key =
     go_try (InitializeOPConnectClient env k) (\<lambda>k.
     go_try (opc_GetOPItem k key) (\<lambda>opItem.
       go_tryE (wrap_err ''unable to delete item'')
         (with_cclient k (\<lambda>c. oc_DeleteItemByID c (opi_ID opItem) (VaultID k)))
         (\<lambda>_. go_return ())))"

definition opc_Keys :: "'w connect_env \<Rightarrow> 'w OPConnectKeyring \<Rightarrow> ('w, string list) call" where
  "opc_Keys env k =
     go_try (InitializeOPConnectClient env k) (\<lambda>k.
     go_try (opc_GetOPItems k) (\<lambda>opItems. go_lift (keys_of_items k opItems)))"

section \<open>Laws of the client\<close>

text \<open>
  \<open>vault w v\<close> lists the items of the vault \<open>v\<close>. Listings return items without their fields; what
  \<open>summary\<close> keeps of an item is what the source reads of them.
\<close>

definition summary :: "ConnectItem \<Rightarrow> ConnectItem" where
  "summary it = it\<lparr>ci_Fields := []\<rparr>"

definition same_cfields :: "ConnectField list \<Rightarrow> ConnectField list \<Rightarrow> bool" where
  "same_cfields fs gs =
     (map (\<lambda>f. (cf_Type f, cf_Label f, cf_Value f)) fs = map (\<lambda>f. (cf_Type f, cf_Label f, cf_Value f)) gs)"

definition stored_as :: "ConnectItem \<Rightarrow> ConnectItem \<Rightarrow> bool" where
  "stored_as it new \<longleftrightarrow> ci_Title new = ci_Title it \<and> ci_Category new = ci_Category it \<and>
     ci_Tags new = ci_Tags it \<and> same_cfields (ci_Fields new) (ci_Fields it)"

definition lawful_connect ::
  "'w OPConnectClientAPI \<Rightarrow> ('w \<Rightarrow> string \<Rightarrow> ConnectItem list) \<Rightarrow> (string \<Rightarrow> bool) \<Rightarrow> bool" where
  "lawful_connect c vault fits \<longleftrightarrow>
     (\<forall>w v. distinct (map ci_ID (vault w v))) \<and>
     (\<forall>v w. oc_GetItems c v w = (Inr (map summary (vault w v)), w)) \<and>
     (\<forall>t v w. oc_GetItemsByTitle c t v w =
        (Inr (map summary (filter (\<lambda>it. ci_Title it = t) (vault w v))), w)) \<and>
     (\<forall>v w. \<forall>it\<in>set (vault w v). oc_GetItemByUUID c (ci_ID it) v w = (Inr it, w)) \<and>
     (\<forall>it v w. (\<forall>f\<in>set (ci_Fields it). fits (cf_Value f)) \<longrightarrow>
        (\<exists>new w'. oc_CreateItem c it v w = (Inr new, w') \<and> stored_as it new \<and>
           set (vault w' v) = insert new (set (vault w v)))) \<and>
     (\<forall>v w. \<forall>old\<in>set (vault w v). \<forall>it. ci_ID it = ci_ID old \<longrightarrow>
        (\<forall>f\<in>set (ci_Fields it). fits (cf_Value f)) \<longrightarrow>
        (\<exists>new w'. oc_UpdateItem c it v w = (Inr new, w') \<and> stored_as it new \<and>
           set (vault w' v) = insert new {x \<in> set (vault w v). ci_ID x \<noteq> ci_ID old})) \<and>
     (\<forall>v w. \<forall>it\<in>set (vault w v).
        (\<exists>w'. oc_DeleteItemByID c (ci_ID it) v w = (Inr (), w') \<and>
           set (vault w' v) = {x \<in> set (vault w v). ci_ID x \<noteq> ci_ID it}))"

lemma lawful_connect_simps:
  assumes "lawful_connect c vault fits"
  shows "distinct (map ci_ID (vault w v))"
    and "oc_GetItems c v w = (Inr (map summary (vault w v)), w)"
    and "oc_GetItemsByTitle c t v w =
      (Inr (map summary (filter (\<lambda>it. ci_Title it = t) (vault w v))), w)"
    and "it \<in> set (vault w v) \<Longrightarrow> oc_GetItemByUUID c (ci_ID it) v w = (Inr it, w)"
  using assms by (simp_all add: lawful_connect_def)

lemma lawful_connect_Create:
  "lawful_connect c vault fits \<Longrightarrow> \<forall>f\<in>set (ci_Fields it). fits (cf_Value f) \<Longrightarrow>
   \<exists>new w'. oc_CreateItem c it v w = (Inr new, w') \<and> stored_as it new \<and>
     set (vault w' v) = insert new (set (vault w v))"
  by (simp add: lawful_connect_def)

lemma lawful_connect_Update:
  assumes "lawful_connect c vault fits" "old \<in> set (vault w v)" "ci_ID it = ci_ID old"
    "\<forall>f\<in>set (ci_Fields it). fits (cf_Value f)"
  shows "\<exists>new w'. oc_UpdateItem c it v w = (Inr new, w') \<and> stored_as it new \<and>
     set (vault w' v) = insert new {x \<in> set (vault w v). ci_ID x \<noteq> ci_ID old}"
  using assms by (simp add: lawful_connect_def)

lemma lawful_connect_Delete:
  "lawful_connect c vault fits \<Longrightarrow> it \<in> set (vault w v) \<Longrightarrow>
   \<exists>w'. oc_DeleteItemByID c (ci_ID it) v w = (Inr (), w') \<and>
     set (vault w' v) = {x \<in> set (vault w v). ci_ID x \<noteq> ci_ID it}"
  by (simp add: lawful_connect_def)

section \<open>Items of the keyring among those of the vault\<close>

abbreviation cfield_of :: "ConnectField \<Rightarrow> OPItemField" where
  "cfield_of f \<equiv> \<lparr>fld_ID = cf_ID f, fld_Title = cf_Label f, fld_Type = OPStandardItemFieldType,
     fld_Value = cf_Value f\<rparr>"

abbreviation cconcealed :: "ConnectItem \<Rightarrow> ConnectField list" where
  "cconcealed it \<equiv> filter (\<lambda>f. cf_Type f = OPConnectItemFieldType) (ci_Fields it)"

lemma connect_fields_loop_eq:
  "connect_fields_loop acc fs =
     acc @ map cfield_of (filter (\<lambda>f. cf_Type f = OPConnectItemFieldType) fs)"
  by (induction fs arbitrary: acc) simp_all

definition oc_match :: "('w, 'x) OPBaseKeyring_scheme \<Rightarrow> ConnectItem \<Rightarrow> bool" where
  "oc_match k it \<longleftrightarrow> ItemTag k \<in> set (ci_Tags it) \<and> ci_Category it = OPConnectItemCategory \<and>
     length (cconcealed it) = 1 \<and> cf_Label (cconcealed it ! 0) = ItemFieldTitle k"

definition oc_value :: "ConnectItem \<Rightarrow> string" where
  "oc_value it = cf_Value (cconcealed it ! 0)"

abbreviation converted :: "ConnectItem \<Rightarrow> OPItem" where
  "converted it \<equiv> \<lparr>opi_ID = ci_ID it, opi_Title = ci_Title it, opi_Category = OPStandardItemCategory,
     opi_VaultID = ci_Vault it, opi_Fields = map cfield_of (cconcealed it), opi_Tags = ci_Tags it,
     opi_UpdatedAt = ci_UpdatedAt it\<rparr>"

interpretation con_vault: titled_vault "oc_match k" ci_Title ci_ID oc_value "GetOPItemTitleFromKey k"
  for k :: "('w, 'x) OPBaseKeyring_scheme"
  by unfold_locales (simp add: op_names.name_inject)

abbreviation oc_wf :: "('w, 'x) OPBaseKeyring_scheme \<Rightarrow> ConnectItem list \<Rightarrow> bool" where
  "oc_wf k \<equiv> titled_vault.wf (oc_match k) ci_Title ci_ID oc_value (GetOPItemTitleFromKey k)"

abbreviation oc_lookup ::
  "('w, 'x) OPBaseKeyring_scheme \<Rightarrow> ConnectItem list \<Rightarrow> string \<Rightarrow> ConnectItem option" where
  "oc_lookup k \<equiv> titled_vault.lookup (oc_match k) ci_Title (GetOPItemTitleFromKey k)"

abbreviation oc_vview ::
  "('w, 'x) OPBaseKeyring_scheme \<Rightarrow> ConnectItem list \<Rightarrow> string \<Rightarrow> Item option" where
  "oc_vview k \<equiv> titled_vault.vview (oc_match k) ci_Title oc_value (GetOPItemTitleFromKey k)"

lemma hydrate_connect:
  assumes "CClient k = Some c"
    and "\<forall>it\<in>set its. oc_GetItemByUUID c (ci_ID it) (VaultID k) w = (Inr it, w)"
  shows "PruneAndHydrateOPItemOverviews k (map summary its) acc w =
    (Inr (acc @ map converted (filter (oc_match k) its)), w)"
  using assms
proof (induction its arbitrary: acc)
  case (Cons it its)
  have len: "(length (map cfield_of (cconcealed it)) \<noteq> 1 \<or>
      fld_Title (map cfield_of (cconcealed it) ! 0) \<noteq> ItemFieldTitle k) \<longleftrightarrow>
    \<not> (length (cconcealed it) = 1 \<and> cf_Label (cconcealed it ! 0) = ItemFieldTitle k)"
    by (cases "cconcealed it") simp_all
  show ?case using Cons len
    by (auto simp: summary_def oc_match_def with_cclient_def Let_def connect_fields_loop_eq)
qed simp

lemma opc_GetOPItems_lawful:
  assumes "CClient k = Some c" "lawful_connect c vault fits"
  shows "opc_GetOPItems k w = (Inr (map converted (filter (oc_match k) (vault w (VaultID k)))), w)"
  using assms hydrate_connect [OF assms(1), of "vault w (VaultID k)" w "[]"]
  by (simp add: opc_GetOPItems_def call_simps with_cclient_def lawful_connect_simps)

lemma opc_GetOPItem_lawful:
  assumes "CClient k = Some c" "lawful_connect c vault fits" "oc_wf k (vault w (VaultID k))"
  shows "opc_GetOPItem k key w =
    (case oc_lookup k (vault w (VaultID k)) key of
       None \<Rightarrow> (Inl ErrKeyNotFound, w) | Some it \<Rightarrow> (Inr (converted it), w))"
proof -
  let ?t = "GetOPItemTitleFromKey k key"
  let ?its = "filter (\<lambda>it. ci_Title it = ?t) (vault w (VaultID k))"
  have "PruneAndHydrateOPItemOverviews k (map summary ?its) [] w =
      (Inr (map converted (filter (oc_match k) ?its)), w)"
    using hydrate_connect [OF assms(1), of ?its w "[]"] assms(2)
    by (simp add: lawful_connect_simps)
  moreover have "filter (oc_match k) ?its =
      filter (\<lambda>it. ci_Title it = ?t) (filter (oc_match k) (vault w (VaultID k)))"
    by (simp add: conj_commute)
  ultimately show ?thesis
    using con_vault.filter_title [OF assms(3), of key] assms(1,2)
    by (auto simp: opc_GetOPItem_def call_simps single_item_def Let_def with_cclient_def
        lawful_connect_simps simp del: filter_filter split: option.splits)
qed

section \<open>The keyring contract\<close>

text \<open>
  The keyring can connect: it has a lawful client, or a token can always be had without
  touching the vault, and the client made with it is lawful.
\<close>

definition connects ::
  "'w connect_env \<Rightarrow> 'w OPConnectKeyring \<Rightarrow> ('w \<Rightarrow> string \<Rightarrow> ConnectItem list) \<Rightarrow> (string \<Rightarrow> bool) \<Rightarrow> bool" where
  "connects env k vault fits \<longleftrightarrow>
     (case CClient k of
        Some c \<Rightarrow> lawful_connect c vault fits
      | None \<Rightarrow> (\<forall>w. \<exists>t w'.
          GetOPToken (ce_getenv env) k ''Enter 1Password Connect token'' w = (Inr t, w') \<and>
          vault w' = vault w \<and> lawful_connect (ce_NewClient env (Host k) t) vault fits))"

lemma Initialize_connects:
  assumes "connects env k vault fits"
  shows "\<exists>c w'. InitializeOPConnectClient env k w = (Inr (k\<lparr>CClient := Some c\<rparr>), w') \<and>
    vault w' = vault w \<and> lawful_connect c vault fits"
proof (cases "CClient k")
  case (Some c)
  then have "k\<lparr>CClient := Some c\<rparr> = k" by simp
  with Some assms show ?thesis
    by (intro exI [of _ c] exI [of _ w])
      (simp add: connects_def InitializeOPConnectClient_def call_simps)
next
  case None
  with assms have "\<exists>t w'.
    GetOPToken (ce_getenv env) k ''Enter 1Password Connect token'' w = (Inr t, w') \<and>
    vault w' = vault w \<and> lawful_connect (ce_NewClient env (Host k) t) vault fits"
    by (simp add: connects_def)
  with None show ?thesis by (auto simp: InitializeOPConnectClient_def call_simps)
qed

lemma GetOPItemTitleFromKey_client [simp]:
  "GetOPItemTitleFromKey (k\<lparr>CClient := c\<rparr>) = GetOPItemTitleFromKey k"
  by (rule ext) (simp add: GetOPItemTitleFromKey_def)

lemma oc_match_client [simp]: "oc_match (k\<lparr>CClient := c\<rparr>) = oc_match k"
  by (rule ext) (simp add: oc_match_def)

lemma cconcealed_single:
  assumes "oc_match k it"
  shows "\<exists>f. cconcealed it = [f] \<and> oc_value it = cf_Value f"
  using assms by (auto simp: oc_match_def oc_value_def length_Suc_conv)

lemma opc_Get_lawful:
  assumes con: "connects env k vault fits" and wf: "oc_wf k (vault w (VaultID k))"
  shows "\<exists>w'. vault w' = vault w \<and> opc_Get env k key w =
    (case oc_vview k (vault w (VaultID k)) key of
       None \<Rightarrow> (Inl ErrKeyNotFound, w') | Some i \<Rightarrow> (Inr i, w'))"
proof -
  from Initialize_connects [OF con, of w] obtain c w1 where
    init: "InitializeOPConnectClient env k w = (Inr (k\<lparr>CClient := Some c\<rparr>), w1)"
    and w1: "vault w1 = vault w" and law: "lawful_connect c vault fits" by blast
  have item: "opc_GetOPItem (k\<lparr>CClient := Some c\<rparr>) key w1 =
    (case oc_lookup k (vault w (VaultID k)) key of
       None \<Rightarrow> (Inl ErrKeyNotFound, w1) | Some it \<Rightarrow> (Inr (converted it), w1))"
    using opc_GetOPItem_lawful [of "k\<lparr>CClient := Some c\<rparr>" c vault fits w1 key] law wf
    by (simp add: w1)
  show ?thesis
  proof (cases "oc_lookup k (vault w (VaultID k)) key")
    case None
    with item init w1 show ?thesis
      by (auto simp: opc_Get_def call_simps con_vault.vview_def)
  next
    case (Some it)
    then have it: "it \<in> set (vault w (VaultID k))" "oc_match k it"
      using con_vault.lookup_Some [OF wf] by blast+
    then obtain i where "json_Unmarshal_Item (oc_value it) = Inr i"
      using wf by (auto simp: con_vault.wf_def)
    with Some cconcealed_single [OF it(2)] item init w1 show ?thesis
      by (auto simp: opc_Get_def call_simps con_vault.vview_def GetItemFromOPItemFieldValue_def)
  qed
qed

text \<open>An item that carries one concealed field of the keyring is one of its items.\<close>

lemma oc_match_one:
  assumes "stored_as it new" "ci_Fields it = [f]" "cf_Type f = OPConnectItemFieldType"
    "cf_Label f = ItemFieldTitle k" "ci_Category it = OPConnectItemCategory" "ci_Tags it = [ItemTag k]"
  shows "oc_match k new \<and> oc_value new = cf_Value f \<and> ci_Title new = ci_Title it"
  using assms by (auto simp: stored_as_def same_cfields_def oc_match_def oc_value_def map_eq_Cons_conv)

lemma opc_Set_lawful:
  assumes con: "connects env k vault fits" and wf: "oc_wf k (vault w (VaultID k))"
    and ok: "opstd_okitem fits i"
  shows "\<exists>w'. opc_Set env k i w = (Inr (), w') \<and> oc_wf k (vault w' (VaultID k)) \<and>
    oc_vview k (vault w' (VaultID k)) = (oc_vview k (vault w (VaultID k)))(Key i \<mapsto> i)"
proof -
  from Initialize_connects [OF con, of w] obtain c w1 where
    init: "InitializeOPConnectClient env k w = (Inr (k\<lparr>CClient := Some c\<rparr>), w1)"
    and w1: "vault w1 = vault w" and law: "lawful_connect c vault fits" by blast
  have item: "opc_GetOPItem (k\<lparr>CClient := Some c\<rparr>) (Key i) w1 =
    (case oc_lookup k (vault w (VaultID k)) (Key i) of
       None \<Rightarrow> (Inl ErrKeyNotFound, w1) | Some it \<Rightarrow> (Inr (converted it), w1))"
    using opc_GetOPItem_lawful [of "k\<lparr>CClient := Some c\<rparr>" c vault fits w1 "Key i"] law wf
    by (simp add: w1)
  have dec: "json_Unmarshal_Item (item.text_of i) = Inr i" "fits (item.text_of i)"
    using ok item.dec_text [of i] by (simp_all add: opstd_okitem_def)
  let ?t = "GetOPItemTitleFromKey k (Key i)"
  show ?thesis
  proof (cases "oc_lookup k (vault w (VaultID k)) (Key i)")
    case None
    let ?f = "\<lparr>cf_ID = '''', cf_Type = OPConnectItemFieldType, cf_Label = ItemFieldTitle k,
      cf_Value = item.text_of i\<rparr>"
    let ?it = "\<lparr>ci_ID = '''', ci_Title = ?t, ci_Category = OPConnectItemCategory,
      ci_Tags = [ItemTag k], ci_Vault = VaultID k, ci_Fields = [?f], ci_UpdatedAt = 0\<rparr>"
    from lawful_connect_Create [OF law, of ?it "VaultID k" w1] dec obtain new w' where
      cr: "oc_CreateItem c ?it (VaultID k) w1 = (Inr new, w')" and st: "stored_as ?it new"
      and its: "set (vault w' (VaultID k)) = insert new (set (vault w (VaultID k)))"
      by (auto simp: w1)
    from oc_match_one [OF st, of ?f k] have m: "oc_match k new" "oc_value new = item.text_of i"
      "ci_Title new = ?t" by simp_all
    have "opc_Set env k i w = (Inr (), w')"
      using None cr init item
      by (simp add: opc_Set_def GetOPItemFieldValueFromItem_def item.enc_text with_cclient_def
          call_simps Let_def)
    moreover have "oc_vview k (vault w (VaultID k)) (Key i) = None"
      using None by (simp add: con_vault.vview_def)
    ultimately show ?thesis
      using con_vault.vview_insert [OF wf its _ lawful_connect_simps(1) [OF law] m(1,3)] dec(1) m(2)
      by simp
  next
    case (Some old)
    then have old: "old \<in> set (vault w (VaultID k))" "oc_match k old" "ci_Title old = ?t"
      using con_vault.lookup_Some [OF wf] by blast+
    from cconcealed_single [OF old(2)] obtain g where g: "cconcealed old = [g]" by blast
    let ?f = "\<lparr>cf_ID = cf_ID g, cf_Type = OPConnectItemFieldType, cf_Label = ItemFieldTitle k,
      cf_Value = item.text_of i\<rparr>"
    let ?it = "\<lparr>ci_ID = ci_ID old, ci_Title = ?t, ci_Category = OPConnectItemCategory,
      ci_Tags = [ItemTag k], ci_Vault = VaultID k, ci_Fields = [?f], ci_UpdatedAt = ce_now env\<rparr>"
    from lawful_connect_Update [OF law, of old w1 "VaultID k" ?it] old(1) dec obtain new w' where
      up: "oc_UpdateItem c ?it (VaultID k) w1 = (Inr new, w')" and st: "stored_as ?it new"
      and its: "set (vault w' (VaultID k)) =
        insert new {x \<in> set (vault w (VaultID k)). ci_ID x \<noteq> ci_ID old}"
      by (auto simp: w1)
    from oc_match_one [OF st, of ?f k] have m: "oc_match k new" "oc_value new = item.text_of i"
      "ci_Title new = ?t" by simp_all
    have "opc_Set env k i w = (Inr (), w')"
      using Some up init item g
      by (simp add: opc_Set_def GetOPItemFieldValueFromItem_def item.enc_text with_cclient_def
          call_simps Let_def)
    moreover from its con_vault.same_ident [OF wf old(1,2,3)]
    have its': "set (vault w' (VaultID k)) = insert new
        {x \<in> set (vault w (VaultID k)). oc_match k x \<longrightarrow> ci_Title x \<noteq> ?t}" by simp
    ultimately show ?thesis
      using con_vault.vview_insert [OF wf its' _ lawful_connect_simps(1) [OF law] m(1,3)] dec(1) m(2)
      by simp
  qed
qed

lemma opc_Remove_lawful:
  assumes con: "connects env k vault fits" and wf: "oc_wf k (vault w (VaultID k))"
  shows "\<exists>r w'. opc_Remove env k key w = (r, w') \<and>
    r = (if oc_vview k (vault w (VaultID k)) key = None then Inl ErrKeyNotFound else Inr ()) \<and>
    oc_wf k (vault w' (VaultID k)) \<and>
    oc_vview k (vault w' (VaultID k)) = (oc_vview k (vault w (VaultID k)))(key := None)"
proof -
  from Initialize_connects [OF con, of w] obtain c w1 where
    init: "InitializeOPConnectClient env k w = (Inr (k\<lparr>CClient := Some c\<rparr>), w1)"
    and w1: "vault w1 = vault w" and law: "lawful_connect c vault fits" by blast
  have item: "opc_GetOPItem (k\<lparr>CClient := Some c\<rparr>) key w1 =
    (case oc_lookup k (vault w (VaultID k)) key of
       None \<Rightarrow> (Inl ErrKeyNotFound, w1) | Some it \<Rightarrow> (Inr (converted it), w1))"
    using opc_GetOPItem_lawful [of "k\<lparr>CClient := Some c\<rparr>" c vault fits w1 key] law wf
    by (simp add: w1)
  show ?thesis
  proof (cases "oc_lookup k (vault w (VaultID k)) key")
    case None
    then have "oc_vview k (vault w (VaultID k)) key = None" by (simp add: con_vault.vview_def)
    with None wf item init w1 show ?thesis
      by (simp add: opc_Remove_def call_simps fun_upd_idem)
  next
    case (Some it)
    then have it: "it \<in> set (vault w (VaultID k))" "oc_match k it"
      "ci_Title it = GetOPItemTitleFromKey k key"
      using con_vault.lookup_Some [OF wf] by blast+
    from lawful_connect_Delete [OF law, of it w1 "VaultID k"] it(1) obtain w' where
      w': "oc_DeleteItemByID c (ci_ID it) (VaultID k) w1 = (Inr (), w')"
      and its: "set (vault w' (VaultID k)) = {x \<in> set (vault w (VaultID k)). ci_ID x \<noteq> ci_ID it}"
      by (auto simp: w1)
    from its have "oc_wf k (vault w' (VaultID k)) \<and>
      oc_vview k (vault w' (VaultID k)) = (oc_vview k (vault w (VaultID k)))(key := None)"
      using con_vault.vview_delete [OF wf _ lawful_connect_simps(1) [OF law]]
        con_vault.same_ident [OF wf it] by simp
    moreover have "oc_vview k (vault w (VaultID k)) key \<noteq> None"
      using Some by (simp add: con_vault.vview_def)
    moreover have "opc_Remove env k key w = (Inr (), w')"
      using Some w' init item by (simp add: opc_Remove_def call_simps with_cclient_def)
    ultimately show ?thesis by simp
  qed
qed

lemma opc_Keys_lawful:
  assumes con: "connects env k vault fits" and wf: "oc_wf k (vault w (VaultID k))"
  shows "\<exists>ks w'. opc_Keys env k w = (Inr ks, w') \<and> vault w' = vault w \<and>
    set ks = dom (oc_vview k (vault w (VaultID k))) \<and> distinct ks"
proof -
  from Initialize_connects [OF con, of w] obtain c w1 where
    init: "InitializeOPConnectClient env k w = (Inr (k\<lparr>CClient := Some c\<rparr>), w1)"
    and w1: "vault w1 = vault w" and law: "lawful_connect c vault fits" by blast
  let ?its = "filter (oc_match k) (vault w (VaultID k))"
  let ?ks = "map (\<lambda>it. GetKeyFromOPItemTitle k (ci_Title it)) ?its"
  have "keys_of_items (k\<lparr>CClient := Some c\<rparr>) (map converted ?its) = Inr ?ks"
    using con_vault.distinct_titles [OF wf]
    by (simp add: keys_of_items_eq comp_def GetKeyFromOPItemTitle_def)
  moreover have "opc_GetOPItems (k\<lparr>CClient := Some c\<rparr>) w1 = (Inr (map converted ?its), w1)"
    using opc_GetOPItems_lawful [of "k\<lparr>CClient := Some c\<rparr>" c vault fits w1] law by (simp add: w1)
  ultimately have run: "opc_Keys env k w = (Inr ?ks, w1)"
    using init by (simp add: opc_Keys_def call_simps)
  have titles: "\<forall>t\<in>set (map ci_Title ?its). \<exists>key. t = GetOPItemTitleFromKey k key"
    using wf by (auto simp: con_vault.wf_def)
  have "set ?ks = dom (oc_vview k (vault w (VaultID k))) \<and> distinct ?ks"
    using titles_are_keys [OF titles con_vault.distinct_titles [OF wf]]
      con_vault.titles_dom [OF wf] by (simp add: comp_def)
  with run w1 show ?thesis by blast
qed

record 'w opc_state =
  opc_vault :: "'w \<Rightarrow> string \<Rightarrow> ConnectItem list"
  opc_env :: "'w connect_env"
  opc_keyring :: "'w OPConnectKeyring"
  opc_world :: 'w

abbreviation opc_items :: "'w opc_state \<Rightarrow> ConnectItem list" where
  "opc_items s \<equiv> opc_vault s (opc_world s) (VaultID (opc_keyring s))"

definition opc_inv :: "(string \<Rightarrow> bool) \<Rightarrow> 'w opc_state \<Rightarrow> bool" where
  "opc_inv fits s \<longleftrightarrow> connects (opc_env s) (opc_keyring s) (opc_vault s) fits \<and>
     oc_wf (opc_keyring s) (opc_items s)"

definition opc_view :: "'w opc_state \<Rightarrow> string \<Rightarrow> Item option" where
  "opc_view s = oc_vview (opc_keyring s) (opc_items s)"

definition opc_lift ::
  "('w connect_env \<Rightarrow> 'w OPConnectKeyring \<Rightarrow> ('w, 'a) call) \<Rightarrow> ('w opc_state, 'a) call" where
  "opc_lift m s =
     (case m (opc_env s) (opc_keyring s) (opc_world s) of (r, w) \<Rightarrow> (r, s\<lparr>opc_world := w\<rparr>))"

interpretation opc: keyring_reports_missing "opc_inv fits" opc_view
  "\<lambda>_. True" "opstd_okitem fits" "\<lambda>i. i"
  "\<lambda>key. opc_lift (\<lambda>env k. opc_Get env k key)" "\<lambda>i. opc_lift (\<lambda>env k. opc_Set env k i)"
  "\<lambda>key. opc_lift (\<lambda>env k. opc_Remove env k key)" "opc_lift opc_Keys"
  for fits
proof (unfold_locales, goal_cases)
  case (1 i)
  then show ?case by simp
next
  case (2 s k v)
  then show ?case
    using opc_Get_lawful [of "opc_env s" "opc_keyring s" "opc_vault s" fits "opc_world s" k]
    by (auto simp: opc_inv_def opc_view_def opc_lift_def)
next
  case (3 s k)
  then show ?case
    using opc_Get_lawful [of "opc_env s" "opc_keyring s" "opc_vault s" fits "opc_world s" k]
    by (auto simp: opc_inv_def opc_view_def opc_lift_def)
next
  case (4 s i)
  then show ?case
    using opc_Set_lawful [of "opc_env s" "opc_keyring s" "opc_vault s" fits "opc_world s" i]
    by (auto simp: opc_inv_def opc_view_def opc_lift_def)
next
  case (5 s k)
  then show ?case
    using opc_Remove_lawful [of "opc_env s" "opc_keyring s" "opc_vault s" fits "opc_world s" k]
    by (auto simp: opc_inv_def opc_view_def opc_lift_def)
next
  case (6 s)
  then show ?case
    using opc_Keys_lawful [of "opc_env s" "opc_keyring s" "opc_vault s" fits "opc_world s"]
    by (auto simp: opc_inv_def opc_view_def opc_lift_def)
next
  case (7 s k)
  then show ?case
    using opc_Remove_lawful [of "opc_env s" "opc_keyring s" "opc_vault s" fits "opc_world s" k]
    by (auto simp: opc_inv_def opc_view_def opc_lift_def)
qed

section \<open>An in-memory Connect server\<close>

type_synonym mem_connect_vault = "(string \<times> ConnectItem) list"

interpretation con_store: id_store ci_ID "\<lambda>i it. it\<lparr>ci_ID := i\<rparr>"
  by unfold_locales simp_all

definition mem_connect_items :: "mem_connect_vault \<Rightarrow> string \<Rightarrow> ConnectItem list" where
  "mem_connect_items w v = con_store.listed w"

definition mem_connect :: "mem_connect_vault OPConnectClientAPI" where
  "mem_connect =
    \<lparr>oc_CreateItem = (\<lambda>it v w. let it = it\<lparr>ci_ID := fresh_ID w\<rparr> in (Inr it, (fresh_ID w, it) # w)),
     oc_DeleteItemByID = (\<lambda>i v w. (Inr (), AList.delete i w)),
     oc_GetItemByUUID = (\<lambda>i v w. case map_of w i of
        None \<Rightarrow> (Inl (Foreign ''not found''), w) | Some it \<Rightarrow> (Inr (it\<lparr>ci_ID := i\<rparr>), w)),
     oc_GetItems = (\<lambda>v w. (Inr (map summary (mem_connect_items w v)), w)),
     oc_GetItemsByTitle = (\<lambda>t v w.
        (Inr (map summary (filter (\<lambda>it. ci_Title it = t) (mem_connect_items w v))), w)),
     oc_UpdateItem = (\<lambda>it v w. (Inr it, AList.update (ci_ID it) it w))\<rparr>"

lemma mem_connect_lawful: "lawful_connect mem_connect mem_connect_items (\<lambda>_. True)"
  unfolding lawful_connect_def
proof (intro conjI allI ballI impI, goal_cases)
  case (1 w v)
  show ?case by (simp add: mem_connect_items_def con_store.idents_listed)
next
  case (2 v w)
  show ?case by (simp add: mem_connect_def)
next
  case (3 t v w)
  show ?case by (simp add: mem_connect_def)
next
  case (4 v w it)
  then show ?case using con_store.find_listed [of it w]
    by (auto simp: mem_connect_def mem_connect_items_def)
next
  case (5 it v w)
  have "set (mem_connect_items ((fresh_ID w, it\<lparr>ci_ID := fresh_ID w\<rparr>) # w) v) =
      insert (it\<lparr>ci_ID := fresh_ID w\<rparr>) (set (mem_connect_items w v))"
    unfolding mem_connect_items_def by (intro con_store.listed_new) (simp_all add: fresh_ID_new)
  then show ?case by (simp add: mem_connect_def stored_as_def same_cfields_def Let_def)
next
  case (6 v w old it)
  have "map_of (AList.update (ci_ID it) it w) = (map_of w)(ci_ID it \<mapsto> it)"
    by (simp add: update_conv')
  from con_store.listed_update [OF this] 6 show ?case
    by (simp add: mem_connect_def mem_connect_items_def stored_as_def same_cfields_def)
next
  case (7 v w it)
  have "map_of (AList.delete (ci_ID it) w) = (map_of w)(ci_ID it := None)"
    by (simp add: delete_conv')
  from con_store.listed_delete [OF this] show ?case by (simp add: mem_connect_def mem_connect_items_def)
qed

section \<open>Properties\<close>

definition opc_step :: "kop \<Rightarrow> 'w opc_state \<Rightarrow> 'w opc_state" where
  "opc_step = step_kop (\<lambda>key. opc_lift (\<lambda>env k. opc_Get env k key))
     (\<lambda>i. opc_lift (\<lambda>env k. opc_Set env k i))
     (\<lambda>key. opc_lift (\<lambda>env k. opc_Remove env k key)) (opc_lift opc_Keys)"

text \<open>
  \<^bold>\<open>C11.\<close> Over a Connect server that behaves as documented and a token that can be had, starting from a
  vault whose items of this keyring have distinct prefixed titles and readable values, any
  sequence of calls makes the Connect keyring the map that the calls describe.
\<close>

theorem opc_history:
  assumes "connects (opc_env s) (opc_keyring s) (opc_vault s) fits"
    and "oc_wf (opc_keyring s) (opc_items s)"
    and "list_all (ok_kop (\<lambda>_. True) (opstd_okitem fits)) ps"
  shows "get_answers (\<lambda>i. i) (fold (spec_kop (\<lambda>i. i)) ps (opc_view s) key)
      (fst (opc_lift (\<lambda>env k. opc_Get env k key) (fold opc_step ps s))) \<and>
    (\<exists>ks. fst (opc_lift opc_Keys (fold opc_step ps s)) = Inr ks \<and>
       distinct ks \<and> set ks = dom (fold (spec_kop (\<lambda>i. i)) ps (opc_view s)))"
proof -
  have "opc_inv fits s" using assms(1,2) by (simp add: opc_inv_def)
  from opc.history [OF this assms(3) TrueI, of key] show ?thesis by (simp add: opc_step_def)
qed

definition sample_connect_state :: "mem_connect_vault opc_state" where
  "sample_connect_state =
     \<lparr>opc_vault = mem_connect_items,
      opc_env = \<lparr>ce_getenv = (\<lambda>v. if v = ''OP_CONNECT_TOKEN'' then ''t'' else ''''),
                 ce_NewClient = (\<lambda>h t. mem_connect), ce_now = 7\<rparr>,
      opc_keyring = \<lparr>VaultID = ''v'', ItemTitlePrefix = ''keyring'', ItemTag = ''keyring'',
        ItemFieldTitle = ''keyring'', TokenEnvs = ['''', ''OP_CONNECT_TOKEN''], TokenFunc = None,
        Host = ''h'', CClient = None\<rparr>,
      opc_world = []\<rparr>"

lemma sample_connects:
  "connects (opc_env sample_connect_state) (opc_keyring sample_connect_state)
     (opc_vault sample_connect_state) (\<lambda>_. True)"
  by (simp add: connects_def sample_connect_state_def GetOPToken_def call_simps mem_connect_lawful)

theorem opc_history_witness:
  "fst (opc_lift (\<lambda>env k. opc_Get env k ''k'') (fold opc_step
     [KSet (zero_Item\<lparr>Key := ''k'', Data := Some ''1''\<rparr>), KRemove ''k'',
      KSet (zero_Item\<lparr>Key := ''k'', Label := ''label''\<rparr>), KKeys] sample_connect_state)) =
   Inr (zero_Item\<lparr>Key := ''k'', Label := ''label''\<rparr>)"
  using opc_history [OF sample_connects, of
     "[KSet (zero_Item\<lparr>Key := ''k'', Data := Some ''1''\<rparr>), KRemove ''k'',
       KSet (zero_Item\<lparr>Key := ''k'', Label := ''label''\<rparr>), KKeys]" "''k''"]
  by (simp add: sample_connect_state_def con_vault.wf_def mem_connect_items_def
      con_store.listed_def opstd_okitem_def utf8_Item_def zero_Item_def byte_val_def)

text \<open>
  \<^bold>\<open>C20.\<close> A Connect keyring that was opened without a client asks for its token in every call:
  whatever was called before, each of \<open>Get\<close>, \<open>Set\<close>, \<open>Remove\<close> and \<open>Keys\<close> first runs the token
  function when no environment variable holds a token, and makes a new client with the answer. The
  check \<open>if k.Client != nil\<close> of \<open>InitializeOPConnectClient\<close> never helps, since every method
  sets the client of a copy.
\<close>

theorem connect_asks_every_time:
  assumes "CClient k = None" "TokenFunc k = Some f"
    and "list_all (\<lambda>e. ce_getenv env e = '''') (TokenEnvs k)"
  shows "opc_Get env k key = go_try (f ''Enter 1Password Connect token'')
      (\<lambda>t. opc_Get env (k\<lparr>CClient := Some (ce_NewClient env (Host k) t)\<rparr>) key) \<and>
    opc_Set env k i = go_try (f ''Enter 1Password Connect token'')
      (\<lambda>t. opc_Set env (k\<lparr>CClient := Some (ce_NewClient env (Host k) t)\<rparr>) i) \<and>
    opc_Remove env k key = go_try (f ''Enter 1Password Connect token'')
      (\<lambda>t. opc_Remove env (k\<lparr>CClient := Some (ce_NewClient env (Host k) t)\<rparr>) key) \<and>
    opc_Keys env k = go_try (f ''Enter 1Password Connect token'')
      (\<lambda>t. opc_Keys env (k\<lparr>CClient := Some (ce_NewClient env (Host k) t)\<rparr>))"
proof -
  have "token_env_loop (ce_getenv env) (TokenEnvs k) = None"
    using assms(3) by (simp add: token_env_loop_None list_all_iff)
  with assms have init: "InitializeOPConnectClient env k w =
    go_try (f ''Enter 1Password Connect token'')
      (\<lambda>t. go_return (k\<lparr>CClient := Some (ce_NewClient env (Host k) t)\<rparr>)) w" for w
    by (simp add: InitializeOPConnectClient_def GetOPToken_def)
  have again: "InitializeOPConnectClient env (k\<lparr>CClient := Some c\<rparr>) w =
    (Inr (k\<lparr>CClient := Some c\<rparr>), w)" for c w
    by (simp add: InitializeOPConnectClient_def call_simps)
  show ?thesis
    by (auto simp: fun_eq_iff opc_Get_def opc_Set_def opc_Remove_def opc_Keys_def go_try_def
        init again go_return_def split: prod.splits sum.splits)
qed

definition asking_env :: "nat connect_env" where
  "asking_env = \<lparr>ce_getenv = (\<lambda>_. ''''),
     ce_NewClient = (\<lambda>h t. \<lparr>oc_CreateItem = (\<lambda>it v w. (Inr it, w)),
        oc_DeleteItemByID = (\<lambda>i v w. (Inr (), w)),
        oc_GetItemByUUID = (\<lambda>i v w. (Inl (Foreign ''none''), w)),
        oc_GetItems = (\<lambda>v w. (Inr [], w)), oc_GetItemsByTitle = (\<lambda>t v w. (Inr [], w)),
        oc_UpdateItem = (\<lambda>it v w. (Inr it, w))\<rparr>), ce_now = 0\<rparr>"

definition asking_keyring :: "nat OPConnectKeyring" where
  "asking_keyring = \<lparr>VaultID = ''v'', ItemTitlePrefix = ''p'', ItemTag = ''t'',
     ItemFieldTitle = ''f'', TokenEnvs = [''E''], TokenFunc = Some (\<lambda>p n. (Inr ''token'', Suc n)),
     Host = ''h'', CClient = None\<rparr>"

theorem connect_asks_every_time_witness:
  "opc_Keys asking_env asking_keyring 4 = (Inr [], 5) \<and>
   opc_Get asking_env asking_keyring ''k'' 5 = (Inl ErrKeyNotFound, 6)"
  using connect_asks_every_time [of asking_keyring "\<lambda>p n. (Inr ''token'', Suc n)" asking_env
      "''k''" zero_Item]
  by (simp add: asking_env_def asking_keyring_def opc_Keys_def opc_Get_def
      InitializeOPConnectClient_def opc_GetOPItems_def opc_GetOPItem_def with_cclient_def
      single_item_def keys_of_items_def call_simps)

end
