(* ===== verification/OP_Accounts.thy ===== *)
theory OP_Accounts
  imports OP_Connect
begin

text \<open>
  \<open>opsrvaccount.go\<close> and \<open>opdesktop.go\<close>: the two backends over the 1Password SDK. They differ in
  how they authenticate; the operations are those of \<open>OP_Standard\<close>. Their methods have pointer
  receivers, so the client made by \<open>InitializeClient\<close> stays in the keyring: an operation is a
  call on the pair of the keyring and the world.
\<close>

section \<open>The SDK\<close>

text \<open>\<open>'c\<close> is the type of the full client, which is only kept and asked for its items client.\<close>

record ('w, 'c) onepassword_sdk =
  sdk_NewTokenClient :: "string \<Rightarrow> ('w, 'c) call"
  sdk_NewDesktopClient :: "string \<Rightarrow> ('w, 'c) call"
  sdk_Items :: "'c \<Rightarrow> 'w OPStandardClientAPI"

section \<open>Service accounts\<close>

definition OPSrvAccountEnvToken :: string where
  "OPSrvAccountEnvToken = ''OP_SERVICE_ACCOUNT_TOKEN''"

abbreviation OPSrvAccountErrClient :: goerr where
  "OPSrvAccountErrClient \<equiv> Sentinel V_OPSrvAccountErrClient"
abbreviation OPSrvAccountErrKeyring :: goerr where
  "OPSrvAccountErrKeyring \<equiv> Sentinel V_OPSrvAccountErrKeyring"
definition OPSrvAccountErrNewClient :: goerr where
  "OPSrvAccountErrNewClient = Wrapf ''NewClient returned an error'' [OPSrvAccountErrClient]"
definition OPSrvAccountErrTimeout :: goerr where
  "OPSrvAccountErrTimeout = Wrapf ''Timeout must be a non-zero duration'' [OPSrvAccountErrKeyring]"

record ('w, 'c) OPSrvAccountKeyring = "'w OPStandardKeyring" +
  fullClient :: "'c option"

definition NewOPSrvAccountKeyring ::
  "(string \<Rightarrow> string) \<Rightarrow> 'w Config \<Rightarrow> ('w, 'c) OPSrvAccountKeyring res" where
  "NewOPSrvAccountKeyring getenv cfg =
     (let errs = [];
          timeout = OPTimeout cfg;
          errs = (if timeout = 0 then errs @ [OPSrvAccountErrTimeout] else errs);
          (vaultID, errs) = from_env getenv (OPVaultID cfg) OPEnvVaultID OPErrVaultID errs;
          itemTitlePrefix = or_default (cfg_OPItemTitlePrefix cfg) OPItemTitlePrefix;
          itemTag = or_default (cfg_OPItemTag cfg) OPItemTag;
          itemFieldTitle = or_default (cfg_OPItemFieldTitle cfg) OPItemFieldTitle
      in if length errs > 0 then Inl (Joined errs)
         else Inr \<lparr>VaultID = vaultID, ItemTitlePrefix = itemTitlePrefix, ItemTag = itemTag,
                ItemFieldTitle = itemFieldTitle, TokenEnvs = [OPTokenEnv cfg, OPSrvAccountEnvToken],
                TokenFunc = OPTokenFunc cfg, Timeout = timeout, Client = None,
                fullClient = None\<rparr>)"

type_synonym ('w, 'c) srv_state = "('w, 'c) OPSrvAccountKeyring \<times> 'w"

definition srv_InitializeClient ::
  "('w, 'c) onepassword_sdk \<Rightarrow> (string \<Rightarrow> string) \<Rightarrow> (('w, 'c) srv_state, unit) call" where
  "srv_InitializeClient sdk getenv = (\<lambda>(k, w).
     (case Client k of
        Some _ \<Rightarrow> (Inr (), (k, w))
      | None \<Rightarrow>
          (case GetOPToken getenv k ''Enter 1Password service account token'' w of
             (Inl err, w) \<Rightarrow> (Inl err, (k, w))
           | (Inr token, w) \<Rightarrow>
               (case sdk_NewTokenClient sdk token w of
                  (Inl err, w) \<Rightarrow>
                    (Inl (Wrapf ''client'' [OPSrvAccountErrNewClient, err]), (k, w))
                | (Inr client, w) \<Rightarrow>
                    (Inr (), (k\<lparr>fullClient := Some client, Client := Some (sdk_Items sdk client)\<rparr>, w))))))"

text \<open>A call of a method of the embedded \<open>OPStandardKeyring\<close>, which gets a copy of it.\<close>

definition embedded :: "('k \<Rightarrow> ('w, 'a) call) \<Rightarrow> ('k \<times> 'w, 'a) call" where
  "embedded m = (\<lambda>(k, w). case m k w of (r, w) \<Rightarrow> (r, (k, w)))"

definition srv_Get ::
  "('w, 'c) onepassword_sdk \<Rightarrow> (string \<Rightarrow> string) \<Rightarrow> string \<Rightarrow> (('w, 'c) srv_state, Item) call" where
  "srv_Get sdk getenv key =
     go_try (srv_InitializeClient sdk getenv) (\<lambda>_. embedded (\<lambda>k. opstd_Get k key))"

definition srv_GetMetadata :: "string \<Rightarrow> (('w, 'c) srv_state, Metadata) call" where
  "srv_GetMetadata key = embedded (\<lambda>k. opstd_GetMetadata k key)"

definition srv_Set ::
  "('w, 'c) onepassword_sdk \<Rightarrow> (string \<Rightarrow> string) \<Rightarrow> time \<Rightarrow> Item \<Rightarrow> (('w, 'c) srv_state, unit) call" where
  "srv_Set sdk getenv now item =
     go_try (srv_InitializeClient sdk getenv) (\<lambda>_. embedded (\<lambda>k. opstd_Set now k item))"

definition srv_Remove ::
  "('w, 'c) onepassword_sdk \<Rightarrow> (string \<Rightarrow> string) \<Rightarrow> string \<Rightarrow> (('w, 'c) srv_state, unit) call" where
  "srv_Remove sdk getenv key =
     go_try (srv_InitializeClient sdk getenv) (\<lambda>_. embedded (\<lambda>k. opstd_Remove k key))"

definition srv_Keys ::
  "('w, 'c) onepassword_sdk \<Rightarrow> (string \<Rightarrow> string) \<Rightarrow> (('w, 'c) srv_state, string list) call" where
  "srv_Keys sdk getenv = go_try (srv_InitializeClient sdk getenv) (\<lambda>_. embedded opstd_Keys)"

section \<open>The desktop application\<close>

definition OPDesktopEnvAccountID :: string where
  "OPDesktopEnvAccountID = ''OP_DESKTOP_ACCOUNT_ID''"

abbreviation OPDesktopErrClient :: goerr where "OPDesktopErrClient \<equiv> Sentinel V_OPDesktopErrClient"
abbreviation OPDesktopErrKeyring :: goerr where "OPDesktopErrKeyring \<equiv> Sentinel V_OPDesktopErrKeyring"
definition OPDesktopErrAccountID :: goerr where
  "OPDesktopErrAccountID = Wrapf ''OP_DESKTOP_ACCOUNT_ID'' [OPDesktopErrKeyring, ErrEnvUnsetOrEmpty]"
definition OPDesktopErrNewClient :: goerr where
  "OPDesktopErrNewClient = Wrapf ''NewClient returned an error'' [OPDesktopErrClient]"
definition OPDesktopErrTimeout :: goerr where
  "OPDesktopErrTimeout = Wrapf ''Timeout must be a non-zero duration'' [OPDesktopErrKeyring]"

record ('w, 'c) OPDesktopKeyring = "'w OPStandardKeyring" +
  DesktopAccountID :: string
  dfullClient :: "'c option"

definition NewOPDesktopKeyring ::
  "(string \<Rightarrow> string) \<Rightarrow> 'w Config \<Rightarrow> ('w, 'c) OPDesktopKeyring res" where
  "NewOPDesktopKeyring getenv cfg =
     (let errs = [];
          timeout = OPTimeout cfg;
          errs = (if timeout = 0 then errs @ [OPDesktopErrTimeout] else errs);
          (vaultID, errs) = from_env getenv (OPVaultID cfg) OPEnvVaultID OPErrVaultID errs;
          (accountID, errs) =
            from_env getenv (OPDesktopAccountID cfg) OPDesktopEnvAccountID OPDesktopErrAccountID errs;
          itemTitlePrefix = or_default (cfg_OPItemTitlePrefix cfg) OPItemTitlePrefix;
          itemTag = or_default (cfg_OPItemTag cfg) OPItemTag;
          itemFieldTitle = or_default (cfg_OPItemFieldTitle cfg) OPItemFieldTitle
      in if length errs > 0 then Inl (Joined errs)
         else Inr \<lparr>VaultID = vaultID, ItemTitlePrefix = itemTitlePrefix, ItemTag = itemTag,
                ItemFieldTitle = itemFieldTitle, TokenEnvs = [], TokenFunc = OPTokenFunc cfg,
                Timeout = timeout, Client = None, DesktopAccountID = accountID,
                dfullClient = None\<rparr>)"

type_synonym ('w, 'c) desktop_state = "('w, 'c) OPDesktopKeyring \<times> 'w"

definition desktop_InitializeClient ::
  "('w, 'c) onepassword_sdk \<Rightarrow> (('w, 'c) desktop_state, unit) call" where
  "desktop_InitializeClient sdk = (\<lambda>(k, w).
     (case Client k of
        Some _ \<Rightarrow> (Inr (), (k, w))
      | None \<Rightarrow>
          (case sdk_NewDesktopClient sdk (DesktopAccountID k) w of
             (Inl err, w) \<Rightarrow> (Inl (Wrapf ''client'' [OPDesktopErrNewClient, err]), (k, w))
           | (Inr client, w) \<Rightarrow>
               (Inr (), (k\<lparr>dfullClient := Some client, Client := Some (sdk_Items sdk client)\<rparr>, w)))))"

definition desktop_Get ::
  "('w, 'c) onepassword_sdk \<Rightarrow> string \<Rightarrow> (('w, 'c) desktop_state, Item) call" where
  "desktop_Get sdk key =
     go_try (desktop_InitializeClient sdk) (\<lambda>_. embedded (\<lambda>k. opstd_Get k key))"

definition desktop_GetMetadata :: "string \<Rightarrow> (('w, 'c) desktop_state, Metadata) call" where
  "desktop_GetMetadata key = embedded (\<lambda>k. opstd_GetMetadata k key)"

definition desktop_Set ::
  "('w, 'c) onepassword_sdk \<Rightarrow> time \<Rightarrow> Item \<Rightarrow> (('w, 'c) desktop_state, unit) call" where
  "desktop_Set sdk now item =
     go_try (desktop_InitializeClient sdk) (\<lambda>_. embedded (\<lambda>k. opstd_Set now k item))"

definition desktop_Remove ::
  "('w, 'c) onepassword_sdk \<Rightarrow> string \<Rightarrow> (('w, 'c) desktop_state, unit) call" where
  "desktop_Remove sdk key =
     go_try (desktop_InitializeClient sdk) (\<lambda>_. embedded (\<lambda>k. opstd_Remove k key))"

definition desktop_Keys ::
  "('w, 'c) onepassword_sdk \<Rightarrow> (('w, 'c) desktop_state, string list) call" where
  "desktop_Keys sdk = go_try (desktop_InitializeClient sdk) (\<lambda>_. embedded opstd_Keys)"

section \<open>The keyring contract\<close>

text \<open>
  What both backends rely on: a keyring that is \<open>ready\<close> gets, or already has, a lawful client, and
  this changes neither its names nor the vault. The contract is proved once from this.
\<close>

definition same_base :: "('w, 'x) OPBaseKeyring_scheme \<Rightarrow> ('v, 'y) OPBaseKeyring_scheme \<Rightarrow> bool" where
  "same_base k k' \<longleftrightarrow> VaultID k = VaultID k' \<and> ItemTitlePrefix k = ItemTitlePrefix k' \<and>
     ItemTag k = ItemTag k' \<and> ItemFieldTitle k = ItemFieldTitle k'"

lemma same_base_names:
  assumes "same_base k k'"
  shows "VaultID k' = VaultID k" "op_match k' = op_match k"
    "GetOPItemTitleFromKey k' = GetOPItemTitleFromKey k"
  using assms by (auto simp: same_base_def op_match_def GetOPItemTitleFromKey_def fun_eq_iff)

locale account_keyring =
  fixes init :: "(('w, 'x) OPStandardKeyring_scheme \<times> 'w, unit) call"
    and ready :: "('w, 'x) OPStandardKeyring_scheme \<Rightarrow> bool"
    and vault :: "'w \<Rightarrow> string \<Rightarrow> OPItem list"
    and fits :: "string \<Rightarrow> bool"
    and now :: time
  assumes init_ready: "ready k \<Longrightarrow>
    \<exists>k' c w'. init (k, w) = (Inr (), (k', w')) \<and> ready k' \<and> Client k' = Some c \<and>
      lawful_op c vault fits \<and> vault w' = vault w \<and> same_base k k'"
begin

definition acc_inv :: "('w, 'x) OPStandardKeyring_scheme \<times> 'w \<Rightarrow> bool" where
  "acc_inv s \<longleftrightarrow> ready (fst s) \<and> op_wf (fst s) (vault (snd s) (VaultID (fst s)))"

definition acc_view :: "('w, 'x) OPStandardKeyring_scheme \<times> 'w \<Rightarrow> string \<Rightarrow> Item option" where
  "acc_view s = op_vview (fst s) (vault (snd s) (VaultID (fst s)))"

lemma init_step:
  assumes "acc_inv s"
  shows "\<exists>k c w. init s = (Inr (), (k, w)) \<and> ready k \<and> Client k = Some c \<and>
    lawful_op c vault fits \<and> op_wf k (vault w (VaultID k)) \<and> acc_view s = op_vview k (vault w (VaultID k))"
proof -
  obtain k w where s: "s = (k, w)" by fastforce
  with assms init_ready [of k w] obtain k' c w' where
    init: "init (k, w) = (Inr (), (k', w'))" "ready k'" "Client k' = Some c" "lawful_op c vault fits"
      "vault w' = vault w" and base: "same_base k k'" by (auto simp: acc_inv_def)
  show ?thesis
    using assms init same_base_names [OF base]
    by (auto simp: s acc_inv_def acc_view_def)
qed

sublocale acc: keyring_reports_missing acc_inv acc_view
  "\<lambda>_. True" "opstd_okitem fits" "\<lambda>i. i"
  "\<lambda>key. go_try init (\<lambda>_. embedded (\<lambda>k. opstd_Get k key))"
  "\<lambda>i. go_try init (\<lambda>_. embedded (\<lambda>k. opstd_Set now k i))"
  "\<lambda>key. go_try init (\<lambda>_. embedded (\<lambda>k. opstd_Remove k key))"
  "go_try init (\<lambda>_. embedded opstd_Keys)"
proof (unfold_locales, goal_cases)
  case (1 i)
  then show ?case by simp
next
  case (2 s key v)
  from init_step [OF 2(1)] obtain k c w where
    i: "init s = (Inr (), (k, w))" "ready k" "Client k = Some c" "lawful_op c vault fits"
      "op_wf k (vault w (VaultID k))" "acc_view s = op_vview k (vault w (VaultID k))" by blast
  with 2 opstd_Get_lawful [OF i(3-5), of key] show ?case
    by (auto simp: call_simps embedded_def acc_inv_def acc_view_def)
next
  case (3 s key)
  from init_step [OF 3(1)] obtain k c w where
    i: "init s = (Inr (), (k, w))" "ready k" "Client k = Some c" "lawful_op c vault fits"
      "op_wf k (vault w (VaultID k))" "acc_view s = op_vview k (vault w (VaultID k))" by blast
  with 3 opstd_Get_lawful [OF i(3-5), of key] show ?case
    by (auto simp: call_simps embedded_def acc_inv_def acc_view_def)
next
  case (4 s x)
  from init_step [OF 4(1)] obtain k c w where
    i: "init s = (Inr (), (k, w))" "ready k" "Client k = Some c" "lawful_op c vault fits"
      "op_wf k (vault w (VaultID k))" "acc_view s = op_vview k (vault w (VaultID k))" by blast
  with opstd_Set_lawful [OF i(3-5) 4(2), of now] show ?case
    by (auto simp: call_simps embedded_def acc_inv_def acc_view_def)
next
  case (5 s key)
  from init_step [OF 5(1)] obtain k c w where
    i: "init s = (Inr (), (k, w))" "ready k" "Client k = Some c" "lawful_op c vault fits"
      "op_wf k (vault w (VaultID k))" "acc_view s = op_vview k (vault w (VaultID k))" by blast
  with opstd_Remove_lawful [OF i(3-5), of key] show ?case
    by (auto simp: call_simps embedded_def acc_inv_def acc_view_def)
next
  case (6 s)
  from init_step [OF 6] obtain k c w where
    i: "init s = (Inr (), (k, w))" "ready k" "Client k = Some c" "lawful_op c vault fits"
      "op_wf k (vault w (VaultID k))" "acc_view s = op_vview k (vault w (VaultID k))" by blast
  with opstd_Keys_lawful [OF i(3-5)] show ?case
    by (auto simp: call_simps embedded_def acc_inv_def acc_view_def)
next
  case (7 s key)
  from init_step [OF 7(1)] obtain k c w where
    i: "init s = (Inr (), (k, w))" "ready k" "Client k = Some c" "lawful_op c vault fits"
      "op_wf k (vault w (VaultID k))" "acc_view s = op_vview k (vault w (VaultID k))" by blast
  with 7 opstd_Remove_lawful [OF i(3-5), of key] show ?case
    by (auto simp: call_simps embedded_def)
qed

end

text \<open>Readiness of the two backends: a lawful client in place, or one that will be made.\<close>

definition srv_ready ::
  "('w, 'c) onepassword_sdk \<Rightarrow> (string \<Rightarrow> string) \<Rightarrow> ('w \<Rightarrow> string \<Rightarrow> OPItem list) \<Rightarrow> (string \<Rightarrow> bool) \<Rightarrow>
     ('w, 'c) OPSrvAccountKeyring \<Rightarrow> bool" where
  "srv_ready sdk getenv vault fits k \<longleftrightarrow>
     (case Client k of
        Some c \<Rightarrow> lawful_op c vault fits
      | None \<Rightarrow> (\<forall>w. \<exists>t w1 c w2.
          GetOPToken getenv k ''Enter 1Password service account token'' w = (Inr t, w1) \<and>
          sdk_NewTokenClient sdk t w1 = (Inr c, w2) \<and> vault w2 = vault w \<and>
          lawful_op (sdk_Items sdk c) vault fits))"

definition desktop_ready ::
  "('w, 'c) onepassword_sdk \<Rightarrow> ('w \<Rightarrow> string \<Rightarrow> OPItem list) \<Rightarrow> (string \<Rightarrow> bool) \<Rightarrow>
     ('w, 'c) OPDesktopKeyring \<Rightarrow> bool" where
  "desktop_ready sdk vault fits k \<longleftrightarrow>
     (case Client k of
        Some c \<Rightarrow> lawful_op c vault fits
      | None \<Rightarrow> (\<forall>w. \<exists>c w'. sdk_NewDesktopClient sdk (DesktopAccountID k) w = (Inr c, w') \<and>
          vault w' = vault w \<and> lawful_op (sdk_Items sdk c) vault fits))"

interpretation srv: account_keyring "srv_InitializeClient sdk getenv" "srv_ready sdk getenv vault fits"
  vault fits now for sdk getenv vault fits now
proof (unfold_locales, goal_cases)
  case (1 k w)
  show ?case
  proof (cases "Client k")
    case None
    with 1 have "\<exists>t w1 c w2.
      GetOPToken getenv k ''Enter 1Password service account token'' w = (Inr t, w1) \<and>
      sdk_NewTokenClient sdk t w1 = (Inr c, w2) \<and> vault w2 = vault w \<and>
      lawful_op (sdk_Items sdk c) vault fits" by (simp add: srv_ready_def)
    with None show ?thesis
      by (auto simp: srv_InitializeClient_def srv_ready_def same_base_def)
  qed (use 1 in \<open>auto simp: srv_InitializeClient_def srv_ready_def same_base_def\<close>)
qed

interpretation desktop: account_keyring "desktop_InitializeClient sdk" "desktop_ready sdk vault fits"
  vault fits now for sdk vault fits now
proof (unfold_locales, goal_cases)
  case (1 k w)
  show ?case
  proof (cases "Client k")
    case None
    with 1 have "\<exists>c w'. sdk_NewDesktopClient sdk (DesktopAccountID k) w = (Inr c, w') \<and>
      vault w' = vault w \<and> lawful_op (sdk_Items sdk c) vault fits" by (simp add: desktop_ready_def)
    with None show ?thesis
      by (auto simp: desktop_InitializeClient_def desktop_ready_def same_base_def)
  qed (use 1 in \<open>auto simp: desktop_InitializeClient_def desktop_ready_def same_base_def\<close>)
qed

section \<open>Properties\<close>

definition srv_step ::
  "('w, 'c) onepassword_sdk \<Rightarrow> (string \<Rightarrow> string) \<Rightarrow> time \<Rightarrow> kop \<Rightarrow> ('w, 'c) srv_state \<Rightarrow> ('w, 'c) srv_state" where
  "srv_step sdk getenv now = step_kop (srv_Get sdk getenv) (srv_Set sdk getenv now)
     (srv_Remove sdk getenv) (srv_Keys sdk getenv)"

definition desktop_step ::
  "('w, 'c) onepassword_sdk \<Rightarrow> time \<Rightarrow> kop \<Rightarrow> ('w, 'c) desktop_state \<Rightarrow> ('w, 'c) desktop_state" where
  "desktop_step sdk now = step_kop (desktop_Get sdk) (desktop_Set sdk now)
     (desktop_Remove sdk) (desktop_Keys sdk)"

text \<open>
  What the documentation of the configuration promises: the vault is the one named there, else the one
  of the environment variable; the names of items, tags and fields are those given, else the
  defaults; the token of a service account comes from the environment variable named in the
  configuration, else from the one of 1Password, else from the function given; the account of the
  desktop application from the configuration, else from the environment.
\<close>

definition op_settings :: "(string \<Rightarrow> string) \<Rightarrow> 'w Config \<Rightarrow> 'w OPBaseKeyring" where
  "op_settings getenv cfg =
     \<lparr>VaultID = (if OPVaultID cfg \<noteq> [] then OPVaultID cfg else getenv OPEnvVaultID),
      ItemTitlePrefix =
        (if cfg_OPItemTitlePrefix cfg \<noteq> [] then cfg_OPItemTitlePrefix cfg else OPItemTitlePrefix),
      ItemTag = (if cfg_OPItemTag cfg \<noteq> [] then cfg_OPItemTag cfg else OPItemTag),
      ItemFieldTitle =
        (if cfg_OPItemFieldTitle cfg \<noteq> [] then cfg_OPItemFieldTitle cfg else OPItemFieldTitle),
      TokenEnvs = [], TokenFunc = None\<rparr>"

definition srv_token :: "(string \<Rightarrow> string) \<Rightarrow> 'w Config \<Rightarrow> ('w, string) call" where
  "srv_token getenv cfg =
     (if getenv (OPTokenEnv cfg) \<noteq> [] then go_return (getenv (OPTokenEnv cfg))
      else if getenv OPSrvAccountEnvToken \<noteq> [] then go_return (getenv OPSrvAccountEnvToken)
      else case OPTokenFunc cfg of
        None \<Rightarrow> go_fail OPErrTokenFuncNil
      | Some f \<Rightarrow> f ''Enter 1Password service account token'')"

definition desktop_account :: "(string \<Rightarrow> string) \<Rightarrow> 'w Config \<Rightarrow> string" where
  "desktop_account getenv cfg =
     (if OPDesktopAccountID cfg \<noteq> [] then OPDesktopAccountID cfg else getenv OPDesktopEnvAccountID)"

lemma srv_constructed:
  assumes "OPTimeout cfg \<noteq> 0" "VaultID (op_settings getenv cfg) \<noteq> []"
  shows "\<exists>k. NewOPSrvAccountKeyring getenv cfg = Inr k \<and> same_base (op_settings getenv cfg) k \<and>
    Client k = None \<and> GetOPToken getenv k ''Enter 1Password service account token'' = srv_token getenv cfg"
  using assms
  by (auto simp: NewOPSrvAccountKeyring_def op_settings_def from_env_eq unset_in_def or_default_def
      same_base_def GetOPToken_def srv_token_def Let_def split: if_splits)

lemma desktop_constructed:
  assumes "OPTimeout cfg \<noteq> 0" "VaultID (op_settings getenv cfg) \<noteq> []" "desktop_account getenv cfg \<noteq> []"
  shows "\<exists>k. NewOPDesktopKeyring getenv cfg = Inr k \<and> same_base (op_settings getenv cfg) k \<and>
    Client k = None \<and> DesktopAccountID k = desktop_account getenv cfg"
  using assms
  by (auto simp: NewOPDesktopKeyring_def op_settings_def from_env_eq unset_in_def or_default_def
      same_base_def desktop_account_def Let_def split: if_splits)

text \<open>
  \<^bold>\<open>C12.\<close> With a timeout and a vault the constructor makes a service account keyring from any
  configuration. When a token can be had where the configuration says, and the SDK makes a client with it
  whose items behave as documented, then the new keyring is, after any sequence of calls, the map that
  the calls describe, starting from the items that the configured vault holds under the configured
  prefix, tag and field.
\<close>

theorem srv_history:
  fixes sdk :: "('w, 'c) onepassword_sdk" and cfg :: "'w Config"
  assumes "OPTimeout cfg \<noteq> 0" and "VaultID (op_settings getenv cfg) \<noteq> []"
    and "\<forall>w. \<exists>t w1 c w2. srv_token getenv cfg w = (Inr t, w1) \<and> sdk_NewTokenClient sdk t w1 = (Inr c, w2) \<and>
      vault w2 = vault w \<and> lawful_op (sdk_Items sdk c) vault fits"
    and "op_wf (op_settings getenv cfg) (vault w (VaultID (op_settings getenv cfg)))"
    and "list_all (ok_kop (\<lambda>_. True) (opstd_okitem fits)) ps"
  shows "\<exists>k. NewOPSrvAccountKeyring getenv cfg = Inr k \<and>
    get_answers (\<lambda>i. i) (fold (spec_kop (\<lambda>i. i)) ps
        (op_vview (op_settings getenv cfg) (vault w (VaultID (op_settings getenv cfg)))) key)
      (fst (srv_Get sdk getenv key (fold (srv_step sdk getenv now) ps (k, w)))) \<and>
    (\<exists>ks. fst (srv_Keys sdk getenv (fold (srv_step sdk getenv now) ps (k, w))) = Inr ks \<and>
       distinct ks \<and> set ks = dom (fold (spec_kop (\<lambda>i. i)) ps
        (op_vview (op_settings getenv cfg) (vault w (VaultID (op_settings getenv cfg))))))"
proof -
  from srv_constructed [OF assms(1,2)] obtain k :: "('w, 'c) OPSrvAccountKeyring" where
    k: "NewOPSrvAccountKeyring getenv cfg = Inr k" "same_base (op_settings getenv cfg) k" "Client k = None"
      "GetOPToken getenv k ''Enter 1Password service account token'' = srv_token getenv cfg" by blast
  note names = same_base_names [OF k(2)]
  have "srv.acc_inv sdk getenv vault fits (k, w)"
    using assms(3,4) k(3,4) names by (simp add: srv.acc_inv_def srv_ready_def)
  from srv.acc.history [OF this assms(5) TrueI, of key now] k(1) names show ?thesis
    unfolding srv_step_def srv_Get_def srv_Set_def srv_Remove_def srv_Keys_def srv.acc_view_def
    by auto
qed

definition mem_sdk :: "(mem_vault, string) onepassword_sdk" where
  "mem_sdk = \<lparr>sdk_NewTokenClient = (\<lambda>t w. if t = ''good'' then (Inr t, w) else (Inl (Foreign ''401''), w)),
     sdk_NewDesktopClient = (\<lambda>a w. if a = ''me'' then (Inr a, w) else (Inl (Foreign ''401''), w)),
     sdk_Items = (\<lambda>_. mem_op)\<rparr>"

definition sample_Config :: "'w Config" where
  "sample_Config = zero_Config\<lparr>OPTimeout := 5, OPVaultID := ''v'', OPTokenEnv := ''T'',
     OPDesktopAccountID := ''me''\<rparr>"

definition sample_getenv :: "string \<Rightarrow> string" where
  "sample_getenv v = (if v = ''T'' then ''good'' else '''')"

lemma sample_timeout: "OPTimeout sample_Config \<noteq> 0"
  by (simp add: sample_Config_def)

lemma sample_vault: "VaultID (op_settings sample_getenv sample_Config) \<noteq> []"
  by (simp add: op_settings_def sample_Config_def)

lemma sample_wf: "op_wf k (mem_items [] v)"
  by (simp add: mem_items_def op_store.listed_def std_vault.wf_def)

lemma sample_okitem: "opstd_okitem (\<lambda>_. True) (zero_Item\<lparr>Key := ''k'', Data := Some ''1''\<rparr>)"
  by (simp add: opstd_okitem_def utf8_Item_def zero_Item_def byte_val_def)

theorem srv_history_witness:
  "\<exists>k. NewOPSrvAccountKeyring sample_getenv sample_Config = Inr k \<and>
    fst (srv_Get mem_sdk sample_getenv ''k'' (fold (srv_step mem_sdk sample_getenv 7)
      [KSet (zero_Item\<lparr>Key := ''k'', Data := Some ''1''\<rparr>), KKeys, KRemove ''x''] (k, []))) =
    Inr (zero_Item\<lparr>Key := ''k'', Data := Some ''1''\<rparr>)"
proof -
  have "\<forall>w. \<exists>t w1 c w2. srv_token sample_getenv sample_Config w = (Inr t, w1) \<and>
      sdk_NewTokenClient mem_sdk t w1 = (Inr c, w2) \<and> mem_items w2 = mem_items w \<and>
      lawful_op (sdk_Items mem_sdk c) mem_items (\<lambda>_. True)"
    by (simp add: srv_token_def sample_getenv_def sample_Config_def call_simps mem_sdk_def mem_op_lawful)
  from srv_history [OF sample_timeout sample_vault this sample_wf, of "[KSet (zero_Item\<lparr>Key := ''k'',
      Data := Some ''1''\<rparr>), KKeys, KRemove ''x'']" "''k''" 7] sample_okitem
  obtain k where "NewOPSrvAccountKeyring sample_getenv sample_Config = Inr k"
    "fst (srv_Get mem_sdk sample_getenv ''k'' (fold (srv_step mem_sdk sample_getenv 7)
      [KSet (zero_Item\<lparr>Key := ''k'', Data := Some ''1''\<rparr>), KKeys, KRemove ''x''] (k, []))) =
    Inr (zero_Item\<lparr>Key := ''k'', Data := Some ''1''\<rparr>)" by auto
  then show ?thesis by blast
qed

text \<open>The same for a desktop keyring that the application lets in for the configured account.\<close>

theorem desktop_history:
  fixes sdk :: "('w, 'c) onepassword_sdk" and cfg :: "'w Config"
  assumes "OPTimeout cfg \<noteq> 0" and "VaultID (op_settings getenv cfg) \<noteq> []" and "desktop_account getenv cfg \<noteq> []"
    and "\<forall>w. \<exists>c w'. sdk_NewDesktopClient sdk (desktop_account getenv cfg) w = (Inr c, w') \<and>
      vault w' = vault w \<and> lawful_op (sdk_Items sdk c) vault fits"
    and "op_wf (op_settings getenv cfg) (vault w (VaultID (op_settings getenv cfg)))"
    and "list_all (ok_kop (\<lambda>_. True) (opstd_okitem fits)) ps"
  shows "\<exists>k. NewOPDesktopKeyring getenv cfg = Inr k \<and>
    get_answers (\<lambda>i. i) (fold (spec_kop (\<lambda>i. i)) ps
        (op_vview (op_settings getenv cfg) (vault w (VaultID (op_settings getenv cfg)))) key)
      (fst (desktop_Get sdk key (fold (desktop_step sdk now) ps (k, w)))) \<and>
    (\<exists>ks. fst (desktop_Keys sdk (fold (desktop_step sdk now) ps (k, w))) = Inr ks \<and>
       distinct ks \<and> set ks = dom (fold (spec_kop (\<lambda>i. i)) ps
        (op_vview (op_settings getenv cfg) (vault w (VaultID (op_settings getenv cfg))))))"
proof -
  from desktop_constructed [OF assms(1-3)] obtain k :: "('w, 'c) OPDesktopKeyring" where
    k: "NewOPDesktopKeyring getenv cfg = Inr k" "same_base (op_settings getenv cfg) k" "Client k = None"
      "DesktopAccountID k = desktop_account getenv cfg" by blast
  note names = same_base_names [OF k(2)]
  have "desktop.acc_inv sdk vault fits (k, w)"
    using assms(4,5) k(3,4) names by (simp add: desktop.acc_inv_def desktop_ready_def)
  from desktop.acc.history [OF this assms(6) TrueI, of key now] k(1) names show ?thesis
    unfolding desktop_step_def desktop_Get_def desktop_Set_def desktop_Remove_def desktop_Keys_def
      desktop.acc_view_def by auto
qed

theorem desktop_history_witness:
  "\<exists>k. NewOPDesktopKeyring sample_getenv sample_Config = Inr k \<and>
    fst (desktop_Get mem_sdk ''k'' (fold (desktop_step mem_sdk 7)
      [KSet (zero_Item\<lparr>Key := ''k'', Data := Some ''1''\<rparr>), KKeys, KRemove ''k''] (k, []))) =
    Inl ErrKeyNotFound"
proof -
  have account: "desktop_account sample_getenv sample_Config = ''me''"
    "desktop_account sample_getenv sample_Config \<noteq> []"
    by (simp_all add: desktop_account_def sample_Config_def)
  then have "\<forall>w. \<exists>c w'. sdk_NewDesktopClient mem_sdk (desktop_account sample_getenv sample_Config) w =
      (Inr c, w') \<and> mem_items w' = mem_items w \<and> lawful_op (sdk_Items mem_sdk c) mem_items (\<lambda>_. True)"
    by (simp add: mem_sdk_def mem_op_lawful)
  from desktop_history [OF sample_timeout sample_vault account(2) this sample_wf, of "[KSet (zero_Item\<lparr>Key := ''k'',
      Data := Some ''1''\<rparr>), KKeys, KRemove ''k'']" "''k''" 7] sample_okitem
  obtain k where "NewOPDesktopKeyring sample_getenv sample_Config = Inr k"
    "fst (desktop_Get mem_sdk ''k'' (fold (desktop_step mem_sdk 7)
      [KSet (zero_Item\<lparr>Key := ''k'', Data := Some ''1''\<rparr>), KKeys, KRemove ''k''] (k, []))) =
    Inl ErrKeyNotFound" by auto
  then show ?thesis by blast
qed

text \<open>With a client in place a call never touches the keyring, the SDK's constructor or the environment.\<close>

definition opstd_world_step ::
  "time \<Rightarrow> ('w, 'x) OPStandardKeyring_scheme \<Rightarrow> kop \<Rightarrow> 'w \<Rightarrow> 'w" where
  "opstd_world_step now k p w = step_kop (opstd_Get k) (opstd_Set now k) (opstd_Remove k) (opstd_Keys k) p w"

lemma srv_step_ready:
  assumes "Client k = Some c"
  shows "srv_step sdk getenv now p (k, w) = (k, opstd_world_step now k p w)"
  using assms
  by (cases p) (simp_all add: srv_step_def opstd_world_step_def srv_Get_def srv_Set_def srv_Remove_def
      srv_Keys_def srv_InitializeClient_def call_simps embedded_def split: prod.splits)

lemma srv_run_ready:
  "Client k = Some c \<Longrightarrow>
     fold (srv_step sdk getenv now) ps (k, w) = (k, fold (opstd_world_step now k) ps w)"
  by (induction ps arbitrary: w) (simp_all add: srv_step_ready)

text \<open>
  Once \<open>InitializeClient\<close> of a service account keyring has succeeded, no later call looks up
  a token, asks for one or makes a client: any sequence of calls ends in the same state whatever the
  environment and the SDK's constructor have become, and leaves the keyring as it is.
\<close>

theorem srv_client_made_once:
  assumes "srv_InitializeClient sdk getenv s = (Inr (), s')"
  shows "fst (fold (srv_step sdk' getenv' now) ps s') = fst s' \<and>
    fold (srv_step sdk' getenv' now) ps s' = fold (srv_step sdk getenv now) ps s'"
proof -
  obtain k' w' where s': "s' = (k', w')" by fastforce
  obtain k w where s: "s = (k, w)" by fastforce
  have "\<exists>c. Client k' = Some c"
    using assms unfolding s s'
    by (auto simp: srv_InitializeClient_def split: option.splits prod.splits sum.splits)
  then show ?thesis by (auto simp: s' srv_run_ready)
qed

theorem srv_client_made_once_witness:
  "fold (srv_step \<lparr>sdk_NewTokenClient = (\<lambda>t w. (Inl (Foreign ''down''), [])),
        sdk_NewDesktopClient = (\<lambda>a w. (Inl (Foreign ''down''), [])), sdk_Items = (\<lambda>_. mem_op)\<rparr>
      (\<lambda>_. '''') 7) [KKeys, KRemove ''k'']
      (snd (srv_InitializeClient mem_sdk sample_getenv
         (\<lparr>VaultID = ''v'', ItemTitlePrefix = ''p'', ItemTag = ''t'', ItemFieldTitle = ''f'',
           TokenEnvs = [''T''], TokenFunc = None, Timeout = 1, Client = None, fullClient = None\<rparr>, []))) =
   fold (srv_step mem_sdk sample_getenv 7) [KKeys, KRemove ''k'']
      (snd (srv_InitializeClient mem_sdk sample_getenv
         (\<lparr>VaultID = ''v'', ItemTitlePrefix = ''p'', ItemTag = ''t'', ItemFieldTitle = ''f'',
           TokenEnvs = [''T''], TokenFunc = None, Timeout = 1, Client = None, fullClient = None\<rparr>, [])))"
  (is "fold (srv_step ?sdk' ?env' 7) ?ps (snd (?init ?s)) = _")
proof -
  have "?init ?s = (Inr (), snd (?init ?s))"
    by (simp add: srv_InitializeClient_def GetOPToken_def sample_getenv_def mem_sdk_def call_simps)
  from srv_client_made_once [OF this, of ?sdk' ?env' 7 ?ps] show ?thesis by (rule conjunct2)
qed

text \<open>
  The three 1Password constructors check their settings as documented: each returns a keyring
  exactly when nothing is missing, and otherwise one error that \<open>errors.Is\<close> recognises as each of
  the missing settings and as none of the others.
\<close>

theorem op_constructors_report_all:
  "(case NewOPConnectKeyring getenv cfg of
      Inr k \<Rightarrow> \<not> unset_in getenv (OPVaultID cfg) OPEnvVaultID \<and>
        \<not> unset_in getenv (OPConnectHost cfg) OPConnectEnvHost \<and> VaultID k \<noteq> '''' \<and> Host k \<noteq> ''''
    | Inl e \<Rightarrow>
        (errors_Is e OPErrVaultID \<longleftrightarrow> unset_in getenv (OPVaultID cfg) OPEnvVaultID) \<and>
        (errors_Is e OPConnectErrHost \<longleftrightarrow> unset_in getenv (OPConnectHost cfg) OPConnectEnvHost) \<and>
        errors_Is e ErrEnvUnsetOrEmpty) \<and>
   (case NewOPSrvAccountKeyring getenv cfg of
      Inr k \<Rightarrow> OPTimeout cfg \<noteq> 0 \<and> \<not> unset_in getenv (OPVaultID cfg) OPEnvVaultID \<and>
        VaultID k \<noteq> '''' \<and> Timeout k \<noteq> 0
    | Inl e \<Rightarrow>
        (errors_Is e OPSrvAccountErrTimeout \<longleftrightarrow> OPTimeout cfg = 0) \<and>
        (errors_Is e OPErrVaultID \<longleftrightarrow> unset_in getenv (OPVaultID cfg) OPEnvVaultID)) \<and>
   (case NewOPDesktopKeyring getenv cfg of
      Inr k \<Rightarrow> OPTimeout cfg \<noteq> 0 \<and> \<not> unset_in getenv (OPVaultID cfg) OPEnvVaultID \<and>
        \<not> unset_in getenv (OPDesktopAccountID cfg) OPDesktopEnvAccountID \<and>
        DesktopAccountID k \<noteq> '''' \<and> Timeout k \<noteq> 0
    | Inl e \<Rightarrow>
        (errors_Is e OPDesktopErrTimeout \<longleftrightarrow> OPTimeout cfg = 0) \<and>
        (errors_Is e OPErrVaultID \<longleftrightarrow> unset_in getenv (OPVaultID cfg) OPEnvVaultID) \<and>
        (errors_Is e OPDesktopErrAccountID \<longleftrightarrow>
           unset_in getenv (OPDesktopAccountID cfg) OPDesktopEnvAccountID))"
proof (intro conjI)
  show "case NewOPConnectKeyring getenv cfg of
      Inr k \<Rightarrow> \<not> unset_in getenv (OPVaultID cfg) OPEnvVaultID \<and>
        \<not> unset_in getenv (OPConnectHost cfg) OPConnectEnvHost \<and> VaultID k \<noteq> '''' \<and> Host k \<noteq> ''''
    | Inl e \<Rightarrow>
        (errors_Is e OPErrVaultID \<longleftrightarrow> unset_in getenv (OPVaultID cfg) OPEnvVaultID) \<and>
        (errors_Is e OPConnectErrHost \<longleftrightarrow> unset_in getenv (OPConnectHost cfg) OPConnectEnvHost) \<and>
        errors_Is e ErrEnvUnsetOrEmpty"
    by (auto simp: NewOPConnectKeyring_def from_env_eq unset_in_def OPErrVaultID_def
        OPConnectErrHost_def)
qed (auto simp: NewOPSrvAccountKeyring_def NewOPDesktopKeyring_def from_env_eq unset_in_def Let_def
    OPErrVaultID_def OPSrvAccountErrTimeout_def OPDesktopErrTimeout_def OPDesktopErrAccountID_def)

end
