(* ===== verification/WH_Envelope.thy ===== *)
theory WH_Envelope
  imports Item_Json
begin

text \<open>
  \<open>winhello/envelope.go\<close> and the additional authenticated data of \<open>winhello/crypto.go\<close>: the JSON
  envelope in which an encrypted item is stored, its validation, writing and reading.
\<close>

section \<open>Constants and errors\<close>

definition winHelloEnvelopeVersion :: int where "winHelloEnvelopeVersion = 1"
definition winHelloProviderPassportKSP :: string where
  "winHelloProviderPassportKSP = ''Microsoft Passport Key Storage Provider''"
definition winHelloContentAlgAES256GCM :: string where "winHelloContentAlgAES256GCM = ''AES-256-GCM''"
definition winHelloAESGCMNonceSize :: nat where "winHelloAESGCMNonceSize = 12"
definition winHelloWrapAlgRSAPKCS1v15 :: string where "winHelloWrapAlgRSAPKCS1v15 = ''RSAES-PKCS1-v1_5''"

abbreviation errWinHelloEnvelopeVersion :: goerr where
  "errWinHelloEnvelopeVersion \<equiv> Sentinel V_errWinHelloEnvelopeVersion"
abbreviation errWinHelloEnvelopeProvider :: goerr where
  "errWinHelloEnvelopeProvider \<equiv> Sentinel V_errWinHelloEnvelopeProvider"
abbreviation errWinHelloEnvelopeKeyName :: goerr where
  "errWinHelloEnvelopeKeyName \<equiv> Sentinel V_errWinHelloEnvelopeKeyName"
abbreviation errWinHelloEnvelopeContentAlg :: goerr where
  "errWinHelloEnvelopeContentAlg \<equiv> Sentinel V_errWinHelloEnvelopeContentAlg"
abbreviation errWinHelloEnvelopeWrapAlg :: goerr where
  "errWinHelloEnvelopeWrapAlg \<equiv> Sentinel V_errWinHelloEnvelopeWrapAlg"
abbreviation errWinHelloEnvelopeNonce :: goerr where
  "errWinHelloEnvelopeNonce \<equiv> Sentinel V_errWinHelloEnvelopeNonce"
abbreviation errWinHelloEnvelopeWrappedCEK :: goerr where
  "errWinHelloEnvelopeWrappedCEK \<equiv> Sentinel V_errWinHelloEnvelopeWrappedCEK"
abbreviation errWinHelloEnvelopeCiphertext :: goerr where
  "errWinHelloEnvelopeCiphertext \<equiv> Sentinel V_errWinHelloEnvelopeCiphertext"
abbreviation errWinHelloEnvelopeAAD :: goerr where
  "errWinHelloEnvelopeAAD \<equiv> Sentinel V_errWinHelloEnvelopeAAD"

section \<open>The envelope\<close>

record winHelloEnvelope =
  env_Version :: int
  env_Provider :: string
  env_KeyName :: string
  env_ContentAlg :: string
  env_WrapAlg :: string
  env_Nonce :: slice
  env_WrappedCEK :: slice
  env_Ciphertext :: slice
  env_AAD :: slice

definition zero_winHelloEnvelope :: winHelloEnvelope where
  "zero_winHelloEnvelope = \<lparr>env_Version = 0, env_Provider = '''', env_KeyName = '''',
     env_ContentAlg = '''', env_WrapAlg = '''', env_Nonce = None, env_WrappedCEK = None,
     env_Ciphertext = None, env_AAD = None\<rparr>"

definition envelope_validate :: "winHelloEnvelope \<Rightarrow> goerr option" where
  "envelope_validate e =
     (if env_Version e \<noteq> winHelloEnvelopeVersion
      then Some (Wrapf ''version'' [errWinHelloEnvelopeVersion])
      else if env_Provider e \<noteq> winHelloProviderPassportKSP
      then Some (Wrapf ''provider'' [errWinHelloEnvelopeProvider])
      else if env_KeyName e = ''''
      then Some errWinHelloEnvelopeKeyName
      else if env_ContentAlg e \<noteq> winHelloContentAlgAES256GCM
      then Some (Wrapf ''content algorithm'' [errWinHelloEnvelopeContentAlg])
      else if env_WrapAlg e \<noteq> winHelloWrapAlgRSAPKCS1v15
      then Some (Wrapf ''wrap algorithm'' [errWinHelloEnvelopeWrapAlg])
      else if length (bytes_of (env_Nonce e)) \<noteq> winHelloAESGCMNonceSize
      then Some (Wrapf ''nonce size'' [errWinHelloEnvelopeNonce])
      else if length (bytes_of (env_WrappedCEK e)) = 0
      then Some errWinHelloEnvelopeWrappedCEK
      else if length (bytes_of (env_Ciphertext e)) = 0
      then Some errWinHelloEnvelopeCiphertext
      else if length (bytes_of (env_AAD e)) = 0
      then Some errWinHelloEnvelopeAAD
      else None)"

definition envelope_members :: "winHelloEnvelope \<Rightarrow> (string \<times> json) list" where
  "envelope_members e =
    [(''version'', JNum (itoa (env_Version e))), (''provider'', JStr (env_Provider e)),
     (''key_name'', JStr (env_KeyName e)), (''content_alg'', JStr (env_ContentAlg e)),
     (''wrap_alg'', JStr (env_WrapAlg e)), (''nonce'', json_of_slice (env_Nonce e)),
     (''wrapped_cek'', json_of_slice (env_WrappedCEK e)),
     (''ciphertext'', json_of_slice (env_Ciphertext e)), (''aad'', json_of_slice (env_AAD e))]"

definition envelope_fields :: "(string \<times> winHelloEnvelope field_decoder) list" where
  "envelope_fields =
    [(''version'', dec_int (\<lambda>i e. e\<lparr>env_Version := i\<rparr>)),
     (''provider'', dec_string (\<lambda>s e. e\<lparr>env_Provider := s\<rparr>)),
     (''key_name'', dec_string (\<lambda>s e. e\<lparr>env_KeyName := s\<rparr>)),
     (''content_alg'', dec_string (\<lambda>s e. e\<lparr>env_ContentAlg := s\<rparr>)),
     (''wrap_alg'', dec_string (\<lambda>s e. e\<lparr>env_WrapAlg := s\<rparr>)),
     (''nonce'', dec_bytes (\<lambda>b e. e\<lparr>env_Nonce := b\<rparr>)),
     (''wrapped_cek'', dec_bytes (\<lambda>b e. e\<lparr>env_WrappedCEK := b\<rparr>)),
     (''ciphertext'', dec_bytes (\<lambda>b e. e\<lparr>env_Ciphertext := b\<rparr>)),
     (''aad'', dec_bytes (\<lambda>b e. e\<lparr>env_AAD := b\<rparr>))]"

definition envelope_marshal :: "winHelloEnvelope \<Rightarrow> bytes res" where
  "envelope_marshal e =
     (case envelope_validate e of
        Some err \<Rightarrow> Inl err
      | None \<Rightarrow> Inr (object_text (envelope_members e)))"

definition parseWinHelloEnvelope :: "bytes \<Rightarrow> winHelloEnvelope res" where
  "parseWinHelloEnvelope data =
     (case json_Unmarshal envelope_fields zero_winHelloEnvelope data of
        Inl err \<Rightarrow> Inl err
      | Inr envelope \<Rightarrow>
          (case envelope_validate envelope of
             Some err \<Rightarrow> Inl err
           | None \<Rightarrow> Inr envelope))"

section \<open>Additional authenticated data\<close>

definition aad_members :: "string \<Rightarrow> string \<Rightarrow> (string \<times> json) list" where
  "aad_members serviceName itemKey =
    [(''backend'', JStr ''winhello''), (''version'', JNum (itoa winHelloEnvelopeVersion)),
     (''service_name'', JStr serviceName), (''item_key'', JStr itemKey)]"

definition winHelloAAD :: "string \<Rightarrow> string \<Rightarrow> bytes" where
  "winHelloAAD serviceName itemKey = object_text (aad_members serviceName itemKey)"

section \<open>Reading back what was written\<close>

lemma version_text [simp]: "itoa 1 = ''1''"
  using byte_of_val [of "CHR ''1''"] by (simp add: itoa_def decimal.simps byte_val_def)

lemma version_ok [simp]: "num_ok ''1''"
  by (simp add: num_ok_def is_digit_def byte_val_def)

lemma dec_version [simp]: "dec_int upd (JNum ''1'') r = (upd 1 r, None)"
  by (simp add: dec_int_def int_of_num_def is_digit_def byte_val_def in_int64_def)

lemma valid_ascii_lit: "list_all (\<lambda>c. byte_val c < 128) s \<Longrightarrow> valid_utf8 s"
  by (rule ascii_valid_utf8) (simp add: list_all_iff)

lemma envelope_names_utf8:
  "list_all (\<lambda>s. valid_utf8 s) [''version'', ''provider'', ''key_name'', ''content_alg'', ''wrap_alg'',
     ''nonce'', ''wrapped_cek'', ''ciphertext'', ''aad'', ''backend'', ''service_name'', ''item_key'',
     ''winhello'', winHelloProviderPassportKSP, winHelloContentAlgAES256GCM, winHelloWrapAlgRSAPKCS1v15]"
  by (simp add: byte_val_def winHelloProviderPassportKSP_def winHelloContentAlgAES256GCM_def
      winHelloWrapAlgRSAPKCS1v15_def)

lemma envelope_valid_fields:
  assumes "envelope_validate e = None"
  shows "env_Version e = 1" "env_Provider e = winHelloProviderPassportKSP"
    "env_ContentAlg e = winHelloContentAlgAES256GCM" "env_WrapAlg e = winHelloWrapAlgRSAPKCS1v15"
    "length (bytes_of (env_Nonce e)) = 12"
  using assms
  by (simp_all add: envelope_validate_def winHelloEnvelopeVersion_def winHelloAESGCMNonceSize_def
      split: if_splits)

lemma envelope_roundtrip:
  assumes "envelope_validate e = None" "valid_utf8 (env_KeyName e)"
  shows "parseWinHelloEnvelope (object_text (envelope_members e)) = Inr e"
proof -
  have "members_ok (envelope_members e)"
    using envelope_names_utf8 assms(2)
    by (simp add: members_ok_def envelope_members_def envelope_valid_fields [OF assms(1)]
        del: valid_utf8.simps)
  moreover have "decode_members envelope_fields (envelope_members e) zero_winHelloEnvelope None = (e, None)"
    by (simp add: envelope_members_def find_field_def envelope_fields_def zero_winHelloEnvelope_def
        envelope_valid_fields [OF assms(1)])
  ultimately show ?thesis
    using json_Unmarshal_object [of "envelope_members e" envelope_fields zero_winHelloEnvelope e] assms(1)
    by (simp add: parseWinHelloEnvelope_def envelope_members_def)
qed

text \<open>The additional data determines the service and the key, since it can be read back.\<close>

lemma aad_members_ok:
  "valid_utf8 s \<Longrightarrow> valid_utf8 k \<Longrightarrow> members_ok (aad_members s k)"
  using envelope_names_utf8
  by (simp add: members_ok_def aad_members_def winHelloEnvelopeVersion_def del: valid_utf8.simps)

lemma winHelloAAD_parse:
  "valid_utf8 s \<Longrightarrow> valid_utf8 k \<Longrightarrow> json_parse (winHelloAAD s k) = Some (JObj (aad_members s k))"
  unfolding winHelloAAD_def
  by (rule json_parse_object [OF _ aad_members_ok]) (simp_all add: aad_members_def)

lemma winHelloAAD_nonempty [simp]: "winHelloAAD s k \<noteq> []"
  by (simp add: winHelloAAD_def object_text_def)

section \<open>Properties\<close>

text \<open>
  \<^bold>\<open>C14.\<close> Writing an envelope succeeds exactly when it is valid, and then reading the bytes gives the
  same envelope back, field for field (the key name being well-formed UTF-8); and whatever
  bytes are read, an envelope that is returned is valid.
\<close>

theorem envelope_parse_marshal:
  assumes "valid_utf8 (env_KeyName e)"
  shows "((\<exists>b. envelope_marshal e = Inr b) \<longleftrightarrow> envelope_validate e = None) \<and>
    (case envelope_marshal e of Inr b \<Rightarrow> parseWinHelloEnvelope b = Inr e | Inl err \<Rightarrow>
       envelope_validate e = Some err) \<and>
    (case parseWinHelloEnvelope data of Inr e' \<Rightarrow> envelope_validate e' = None | Inl err \<Rightarrow> True)"
  using assms envelope_roundtrip [of e]
  by (auto simp: envelope_marshal_def parseWinHelloEnvelope_def split: option.splits sum.splits)

definition sample_envelope :: winHelloEnvelope where
  "sample_envelope = \<lparr>env_Version = 1, env_Provider = winHelloProviderPassportKSP,
     env_KeyName = ''S-1//ByteNess/k'', env_ContentAlg = winHelloContentAlgAES256GCM,
     env_WrapAlg = winHelloWrapAlgRSAPKCS1v15, env_Nonce = Some ''0123456789ab'',
     env_WrappedCEK = Some ''w'', env_Ciphertext = Some ''c'', env_AAD = Some ''a''\<rparr>"

theorem envelope_parse_marshal_witness:
  "\<exists>b. envelope_marshal sample_envelope = Inr b \<and> parseWinHelloEnvelope b = Inr sample_envelope"
proof -
  have "valid_utf8 (env_KeyName sample_envelope)"
    by (simp add: sample_envelope_def byte_val_def)
  from envelope_parse_marshal [OF this, of "''{}''"] show ?thesis
    by (auto simp: envelope_validate_def sample_envelope_def winHelloEnvelopeVersion_def
        winHelloAESGCMNonceSize_def)
qed

text \<open>
  \<^bold>\<open>C15.\<close> The additional authenticated data binds the service and the key: two items of different
  services or keys (well-formed UTF-8) never share it.
\<close>

theorem winHelloAAD_binds:
  assumes "valid_utf8 s" "valid_utf8 k" "valid_utf8 s'" "valid_utf8 k'"
  shows "winHelloAAD s k = winHelloAAD s' k' \<longleftrightarrow> s = s' \<and> k = k'"
proof
  assume "winHelloAAD s k = winHelloAAD s' k'"
  then have "Some (JObj (aad_members s k)) = Some (JObj (aad_members s' k'))"
    using winHelloAAD_parse [OF assms(1,2)] winHelloAAD_parse [OF assms(3,4)] by metis
  then show "s = s' \<and> k = k'" by (simp add: aad_members_def)
qed simp

theorem winHelloAAD_binds_witness:
  "winHelloAAD ''a'' ''b,c'' \<noteq> winHelloAAD ''a,b'' ''c''"
  using winHelloAAD_binds [of "''a''" "''b,c''" "''a,b''" "''c''"] by (simp add: byte_val_def)

end
