(* ===== verification/WH_Crypto.thy ===== *)
theory WH_Crypto
  imports WH_Envelope
begin

text \<open>
  \<open>winhello/crypto.go\<close>: an item is encrypted with a fresh content key under AES-GCM, and the
  content key is wrapped by a Windows Hello key. The cipher and the source of randomness are
  parameters; \<open>aes.NewCipher\<close>'s check of the key size and the panic of \<open>gcm.Open\<close> on a nonce of the
  wrong size are modelled. The buffers that held keys are the subject of \<open>WH_Memory\<close>.
\<close>

definition winHelloCEKSize :: nat where "winHelloCEKSize = 32"

abbreviation errWinHelloWrapKey :: goerr where "errWinHelloWrapKey \<equiv> Sentinel V_errWinHelloWrapKey"
abbreviation errWinHelloUnwrapKey :: goerr where
  "errWinHelloUnwrapKey \<equiv> Sentinel V_errWinHelloUnwrapKey"
abbreviation errWinHelloEncrypt :: goerr where "errWinHelloEncrypt \<equiv> Sentinel V_errWinHelloEncrypt"
abbreviation errWinHelloDecrypt :: goerr where "errWinHelloDecrypt \<equiv> Sentinel V_errWinHelloDecrypt"
abbreviation errWinHelloRandom :: goerr where "errWinHelloRandom \<equiv> Sentinel V_errWinHelloRandom"
abbreviation errWinHelloAADMismatch :: goerr where
  "errWinHelloAADMismatch \<equiv> Sentinel V_errWinHelloAADMismatch"
abbreviation errWinHelloKeyNameMismatch :: goerr where
  "errWinHelloKeyNameMismatch \<equiv> Sentinel V_errWinHelloKeyNameMismatch"
abbreviation errWinHelloKeyWrapper :: goerr where
  "errWinHelloKeyWrapper \<equiv> Sentinel V_errWinHelloKeyWrapper"
abbreviation errWinHelloMissingAAD :: goerr where
  "errWinHelloMissingAAD \<equiv> Sentinel V_errWinHelloMissingAAD"

section \<open>Primitives\<close>

record 'w crypto_env =
  rand_ReadFull :: "nat \<Rightarrow> ('w, bytes) call"
  gcm_seal :: "bytes \<Rightarrow> bytes \<Rightarrow> bytes \<Rightarrow> bytes \<Rightarrow> bytes"
  gcm_open :: "bytes \<Rightarrow> bytes \<Rightarrow> bytes \<Rightarrow> bytes \<Rightarrow> bytes option"

text \<open>A block cipher is its key; \<open>cipher.NewGCM\<close> never fails on an AES block.\<close>

definition aes_NewCipher :: "bytes \<Rightarrow> bytes res" where
  "aes_NewCipher key =
     (if length key \<in> {16, 24, 32} then Inr key else Inl (Foreign ''aes.KeySizeError''))"

definition gcm_Open ::
  "'w crypto_env \<Rightarrow> bytes \<Rightarrow> bytes \<Rightarrow> bytes \<Rightarrow> bytes \<Rightarrow> bytes res" where
  "gcm_Open c key nonce ciphertext aad =
     (if length nonce \<noteq> 12 then Inl (GoPanic ''incorrect nonce length given to GCM'')
      else case gcm_open c key nonce ciphertext aad of
        None \<Rightarrow> Inl (Foreign ''cipher: message authentication failed'')
      | Some plaintext \<Rightarrow> Inr plaintext)"

text \<open>The laws of the primitives: what was sealed opens, with a tag of 16 bytes in front of nothing.\<close>

definition lawful_crypto :: "'w crypto_env \<Rightarrow> ('w \<Rightarrow> 'w \<Rightarrow> bool) \<Rightarrow> bool" where
  "lawful_crypto c same \<longleftrightarrow>
     (\<forall>n w. \<exists>b w'. rand_ReadFull c n w = (Inr b, w') \<and> length b = n \<and> same w w') \<and>
     (\<forall>k n p a. length n = 12 \<longrightarrow> gcm_open c k n (gcm_seal c k n p a) a = Some p) \<and>
     (\<forall>k n p a. length (gcm_seal c k n p a) = length p + 16)"

section \<open>Envelope encryption\<close>

record 'w winHelloKeyWrapper =
  WrapKey :: "bytes \<Rightarrow> ('w, bytes) call"
  UnwrapKey :: "bytes \<Rightarrow> string \<Rightarrow> ('w, bytes) call"

definition encryptWinHelloEnvelope ::
  "'w crypto_env \<Rightarrow> slice \<Rightarrow> bytes \<Rightarrow> string \<Rightarrow> 'w winHelloKeyWrapper option \<Rightarrow> ('w, bytes) call" where
  "encryptWinHelloEnvelope c plaintext aad keyName wrapper =
     (case wrapper of
        None \<Rightarrow> go_fail errWinHelloKeyWrapper
      | Some wrapper \<Rightarrow>
          if length aad = 0 then go_fail errWinHelloMissingAAD
          else if keyName = '''' then go_fail errWinHelloEnvelopeKeyName
          else
            go_tryE (wrap_errs ''random'' [errWinHelloRandom]) (rand_ReadFull c winHelloCEKSize) (\<lambda>cek.
            go_tryE (wrap_errs ''encrypt'' [errWinHelloEncrypt]) (go_lift (aes_NewCipher cek)) (\<lambda>block.
            go_tryE (wrap_errs ''random'' [errWinHelloRandom]) (rand_ReadFull c 12) (\<lambda>nonce.
            let ciphertext = gcm_seal c block nonce (bytes_of plaintext) aad;
                wrapInput = cek
            in go_tryE (wrap_errs ''wrap'' [errWinHelloWrapKey]) (WrapKey wrapper wrapInput) (\<lambda>wrappedCEK.
                 go_lift (envelope_marshal
                   \<lparr>env_Version = winHelloEnvelopeVersion, env_Provider = winHelloProviderPassportKSP,
                    env_KeyName = keyName, env_ContentAlg = winHelloContentAlgAES256GCM,
                    env_WrapAlg = winHelloWrapAlgRSAPKCS1v15, env_Nonce = Some nonce,
                    env_WrappedCEK = Some wrappedCEK, env_Ciphertext = Some ciphertext,
                    env_AAD = Some aad\<rparr>))))))"

definition decryptWinHelloEnvelope ::
  "'w crypto_env \<Rightarrow> bytes \<Rightarrow> bytes \<Rightarrow> string \<Rightarrow> 'w winHelloKeyWrapper option \<Rightarrow> string \<Rightarrow> ('w, bytes) call" where
  "decryptWinHelloEnvelope c encoded aad expectedKeyName wrapper ctx =
     (case wrapper of
        None \<Rightarrow> go_fail errWinHelloKeyWrapper
      | Some wrapper \<Rightarrow>
          if length aad = 0 then go_fail errWinHelloMissingAAD
          else if expectedKeyName = '''' then go_fail errWinHelloEnvelopeKeyName
          else
            go_try (go_lift (parseWinHelloEnvelope encoded)) (\<lambda>envelope.
            if env_KeyName envelope \<noteq> expectedKeyName then go_fail errWinHelloKeyNameMismatch
            else if bytes_of (env_AAD envelope) \<noteq> aad then go_fail errWinHelloAADMismatch
            else
              go_tryE (wrap_errs ''unwrap'' [errWinHelloUnwrapKey])
                (UnwrapKey wrapper (bytes_of (env_WrappedCEK envelope)) ctx) (\<lambda>cek.
              go_tryE (wrap_errs ''decrypt'' [errWinHelloDecrypt]) (go_lift (aes_NewCipher cek)) (\<lambda>block.
              go_tryE (wrap_errs ''decrypt'' [errWinHelloDecrypt])
                (go_lift (gcm_Open c block (bytes_of (env_Nonce envelope))
                  (bytes_of (env_Ciphertext envelope)) aad)) go_return))))"

section \<open>Wrappers as an interface\<close>

text \<open>
  The plaintext of stored bytes under a wrapping key, given as the function from wrapped to content
  keys; and the envelopes that encryption writes for a plaintext of \<open>n\<close> bytes.
\<close>

definition opened ::
  "'w crypto_env \<Rightarrow> (bytes \<Rightarrow> bytes option) \<Rightarrow> bytes \<Rightarrow> bytes \<Rightarrow> string \<Rightarrow> bytes option" where
  "opened c unwraps b aad keyName =
     (case parseWinHelloEnvelope b of
        Inl _ \<Rightarrow> None
      | Inr e \<Rightarrow>
          if env_KeyName e = keyName \<and> bytes_of (env_AAD e) = aad then
            (case unwraps (bytes_of (env_WrappedCEK e)) of
               None \<Rightarrow> None
             | Some cek \<Rightarrow>
                 if length cek = 32
                 then gcm_open c cek (bytes_of (env_Nonce e)) (bytes_of (env_Ciphertext e)) aad
                 else None)
          else None)"

definition envelope_for :: "string \<Rightarrow> bytes \<Rightarrow> nat \<Rightarrow> winHelloEnvelope \<Rightarrow> bool" where
  "envelope_for keyName aad n e \<longleftrightarrow> envelope_validate e = None \<and> env_KeyName e = keyName \<and>
     env_AAD e = Some aad \<and> length (bytes_of (env_Ciphertext e)) = n + 16"

text \<open>
  What encryption relies on. \<open>ready w\<close> says the wrapping key is there in the world \<open>w\<close>, \<open>unwraps\<close>
  what that key unwraps, \<open>okctx\<close> which texts the prompt can show, and \<open>same\<close> that nothing the client can observe has moved.
\<close>

locale key_wrapper =
  fixes wrapper :: "'w winHelloKeyWrapper"
    and ready :: "'w \<Rightarrow> bool"
    and okctx :: "string \<Rightarrow> bool"
    and unwraps :: "bytes \<Rightarrow> bytes option"
    and same :: "'w \<Rightarrow> 'w \<Rightarrow> bool"
  assumes same_trans: "same a b \<Longrightarrow> same b c \<Longrightarrow> same a c"
    and ready_same: "ready w \<Longrightarrow> same w w' \<Longrightarrow> ready w'"
    and wrap_ok: "ready w \<Longrightarrow> length cek = 32 \<Longrightarrow>
      \<exists>wr w'. WrapKey wrapper cek w = (Inr wr, w') \<and> wr \<noteq> [] \<and> unwraps wr = Some cek \<and> same w w'"
    and unwrap_ok: "ready w \<Longrightarrow> unwraps wr = Some cek \<Longrightarrow> length cek = 32 \<Longrightarrow> okctx ctx \<Longrightarrow>
      \<exists>w'. UnwrapKey wrapper wr ctx w = (Inr cek, w') \<and> same w w'"
begin

lemma encrypt_opens:
  assumes c: "lawful_crypto c same" and r: "ready w" and "aad \<noteq> []" "keyName \<noteq> []"
    and utf8: "valid_utf8 keyName"
  shows "\<exists>e w'. encryptWinHelloEnvelope c plaintext aad keyName (Some wrapper) w =
      (Inr (object_text (envelope_members e)), w') \<and> same w w' \<and>
    envelope_for keyName aad (length (bytes_of plaintext)) e \<and>
    unwraps (bytes_of (env_WrappedCEK e)) \<noteq> None \<and>
    opened c unwraps (object_text (envelope_members e)) aad keyName = Some (bytes_of plaintext)"
proof -
  have rand: "\<exists>b w'. rand_ReadFull c n w = (Inr b, w') \<and> length b = n \<and> same w w'" for n w
    using c by (simp add: lawful_crypto_def)
  from rand [of 32 w] obtain cek w1 where
    1: "rand_ReadFull c 32 w = (Inr cek, w1)" "length cek = 32" "same w w1" by blast
  from rand [of 12 w1] obtain nonce w2 where
    2: "rand_ReadFull c 12 w1 = (Inr nonce, w2)" "length nonce = 12" "same w1 w2" by blast
  have s2: "same w w2" using same_trans [OF 1(3) 2(3)] .
  from wrap_ok [OF ready_same [OF r s2] 1(2)] obtain wr w3 where
    3: "WrapKey wrapper cek w2 = (Inr wr, w3)" "wr \<noteq> []" "unwraps wr = Some cek" "same w2 w3" by blast
  let ?ct = "gcm_seal c cek nonce (bytes_of plaintext) aad"
  let ?e = "\<lparr>env_Version = winHelloEnvelopeVersion, env_Provider = winHelloProviderPassportKSP,
    env_KeyName = keyName, env_ContentAlg = winHelloContentAlgAES256GCM,
    env_WrapAlg = winHelloWrapAlgRSAPKCS1v15, env_Nonce = Some nonce, env_WrappedCEK = Some wr,
    env_Ciphertext = Some ?ct, env_AAD = Some aad\<rparr>"
  have len: "length ?ct = length (bytes_of plaintext) + 16" using c by (simp add: lawful_crypto_def)
  then have "?ct \<noteq> []" by auto
  then have valid: "envelope_validate ?e = None"
    using 2(2) 3(2) assms(3,4) by (simp add: envelope_validate_def winHelloAESGCMNonceSize_def)
  have "encryptWinHelloEnvelope c plaintext aad keyName (Some wrapper) w =
      (Inr (object_text (envelope_members ?e)), w3)"
    using 1 2 3 assms(3,4) valid
    by (simp add: encryptWinHelloEnvelope_def call_simps winHelloCEKSize_def aes_NewCipher_def
        envelope_marshal_def Let_def)
  moreover have "opened c unwraps (object_text (envelope_members ?e)) aad keyName =
      Some (bytes_of plaintext)"
    using envelope_roundtrip [OF valid] utf8 1(2) 2(2) 3(3) c
    by (simp add: opened_def lawful_crypto_def)
  moreover have "envelope_for keyName aad (length (bytes_of plaintext)) ?e"
    using valid len by (simp add: envelope_for_def)
  ultimately show ?thesis using same_trans [OF s2 3(4)] 3(3) by fastforce
qed

lemma decrypt_opens:
  assumes "ready w" "opened c unwraps b aad keyName = Some p" "aad \<noteq> []" "keyName \<noteq> []"
    and ctx: "okctx ctx"
  shows "\<exists>w'. decryptWinHelloEnvelope c b aad keyName (Some wrapper) ctx w = (Inr p, w') \<and> same w w'"
proof -
  from assms(2) obtain e cek where
    e: "parseWinHelloEnvelope b = Inr e" "env_KeyName e = keyName" "bytes_of (env_AAD e) = aad"
      "length cek = 32" "unwraps (bytes_of (env_WrappedCEK e)) = Some cek"
      "gcm_open c cek (bytes_of (env_Nonce e)) (bytes_of (env_Ciphertext e)) aad = Some p"
    by (auto simp: opened_def split: sum.splits if_splits option.splits)
  from unwrap_ok [OF assms(1) e(5,4) ctx] obtain w' where
    w': "UnwrapKey wrapper (bytes_of (env_WrappedCEK e)) ctx w = (Inr cek, w')" "same w w'" by blast
  have "envelope_validate e = None"
    using e(1) by (simp add: parseWinHelloEnvelope_def split: sum.splits option.splits)
  from envelope_valid_fields(5) [OF this] e w' assms(3,4) show ?thesis
    by (simp add: decryptWinHelloEnvelope_def call_simps aes_NewCipher_def gcm_Open_def)
qed

end

section \<open>Properties\<close>

lemma parse_no_panic: "parseWinHelloEnvelope encoded \<noteq> Inl (GoPanic m)"
proof -
  have "json_Unmarshal envelope_fields zero_winHelloEnvelope encoded \<noteq> Inl (GoPanic m)"
    by (rule json_Unmarshal_no_panic) (simp add: envelope_fields_def)
  then show ?thesis
    by (auto simp: parseWinHelloEnvelope_def envelope_validate_def split: sum.splits option.splits if_splits)
qed

text \<open>
  \<^bold>\<open>C16.\<close> A tampered envelope is rejected before the user is asked for anything: whatever the wrapper
  and the cipher do, unless the bytes parse as a valid envelope that names the expected key and
  carries exactly the additional data recomputed for the item, decryption fails without calling the
  wrapper, and the world is as it was.
\<close>

theorem decrypt_rejects_before_unwrap:
  assumes "\<not> (\<exists>e. parseWinHelloEnvelope encoded = Inr e \<and> env_KeyName e = expectedKeyName \<and>
      bytes_of (env_AAD e) = aad \<and> aad \<noteq> [] \<and> expectedKeyName \<noteq> [])"
  shows "\<exists>err. decryptWinHelloEnvelope c encoded aad expectedKeyName wrapper ctx w = (Inl err, w)"
  using assms
  by (cases "parseWinHelloEnvelope encoded")
    (auto simp: decryptWinHelloEnvelope_def call_simps split: option.splits)

theorem decrypt_rejects_before_unwrap_witness:
  "\<exists>err. decryptWinHelloEnvelope
     \<lparr>rand_ReadFull = (\<lambda>n w. (Inr (replicate n CHR ''r''), w)), gcm_seal = (\<lambda>k n p a. p),
      gcm_open = (\<lambda>k n p a. Some p)\<rparr>
     (object_text (envelope_members sample_envelope)) (winHelloAAD ''svc'' ''k'') ''S-1//ByteNess/k''
     (Some \<lparr>WrapKey = (\<lambda>k n. (Inr k, Suc n)), UnwrapKey = (\<lambda>k x n. (Inr k, Suc n))\<rparr>) ''ctx'' 3 =
   (Inl err, 3 :: nat)"
proof (rule decrypt_rejects_before_unwrap)
  have "parseWinHelloEnvelope (object_text (envelope_members sample_envelope)) = Inr sample_envelope"
    by (rule envelope_roundtrip)
      (simp_all add: sample_envelope_def envelope_validate_def winHelloEnvelopeVersion_def
        winHelloAESGCMNonceSize_def byte_val_def)
  then show "\<not> (\<exists>e. parseWinHelloEnvelope (object_text (envelope_members sample_envelope)) = Inr e \<and>
      env_KeyName e = ''S-1//ByteNess/k'' \<and> bytes_of (env_AAD e) = winHelloAAD ''svc'' ''k'' \<and>
      winHelloAAD ''svc'' ''k'' \<noteq> [] \<and> ''S-1//ByteNess/k'' \<noteq> [])"
    by (simp add: sample_envelope_def winHelloAAD_def object_text_def)
qed

text \<open>
  \<^bold>\<open>C17.\<close> Decryption never panics by itself: the only panic that can come out of it is one of the
  wrapper. In particular the nonce given to GCM always has the size GCM insists on, whatever
  bytes were stored.
\<close>

theorem decrypt_panics_only_from_wrapper:
  assumes "fst (decryptWinHelloEnvelope c encoded aad expectedKeyName wrapper ctx w) = Inl (GoPanic m)"
  shows "\<exists>wr e. wrapper = Some wr \<and> parseWinHelloEnvelope encoded = Inr e \<and>
    fst (UnwrapKey wr (bytes_of (env_WrappedCEK e)) ctx w) = Inl (GoPanic m)"
proof -
  obtain wr e where wr: "wrapper = Some wr" and e: "parseWinHelloEnvelope encoded = Inr e"
    using assms parse_no_panic [of encoded m]
    by (auto simp: decryptWinHelloEnvelope_def call_simps split: option.splits if_splits sum.splits)
  obtain r w' where un: "UnwrapKey wr (bytes_of (env_WrappedCEK e)) ctx w = (r, w')" by fastforce
  have "envelope_validate e = None"
    using e by (simp add: parseWinHelloEnvelope_def split: sum.splits option.splits)
  from envelope_valid_fields(5) [OF this] have nonce: "length (bytes_of (env_Nonce e)) = 12" .
  have "r = Inl (GoPanic m)"
    using assms wr e un nonce
    by (auto simp: decryptWinHelloEnvelope_def call_simps aes_NewCipher_def gcm_Open_def
        split: if_splits sum.splits option.splits)
  with wr e un show ?thesis by auto
qed

theorem decrypt_panics_only_from_wrapper_witness:
  "\<exists>wr e. Some \<lparr>WrapKey = (\<lambda>k n. (Inr k, Suc n)), UnwrapKey = (\<lambda>k x n. (Inl (GoPanic ''nil''), Suc n))\<rparr> =
     Some wr \<and>
   parseWinHelloEnvelope (object_text (envelope_members sample_envelope)) = Inr e \<and>
   fst (UnwrapKey wr (bytes_of (env_WrappedCEK e)) ''ctx'' (3 :: nat)) = Inl (GoPanic ''nil'')"
proof (rule decrypt_panics_only_from_wrapper)
  have "parseWinHelloEnvelope (object_text (envelope_members sample_envelope)) = Inr sample_envelope"
    by (rule envelope_roundtrip)
      (simp_all add: sample_envelope_def envelope_validate_def winHelloEnvelopeVersion_def
        winHelloAESGCMNonceSize_def byte_val_def)
  then show "fst (decryptWinHelloEnvelope
     \<lparr>rand_ReadFull = (\<lambda>n w. (Inr (replicate n CHR ''r''), w)), gcm_seal = (\<lambda>k n p a. p),
      gcm_open = (\<lambda>k n p a. Some p)\<rparr>
     (object_text (envelope_members sample_envelope)) ''a'' ''S-1//ByteNess/k''
     (Some \<lparr>WrapKey = (\<lambda>k n. (Inr k, Suc n)), UnwrapKey = (\<lambda>k x n. (Inl (GoPanic ''nil''), Suc n))\<rparr>)
     ''ctx'' 3) = Inl (GoPanic ''nil'')"
    by (simp add: decryptWinHelloEnvelope_def call_simps sample_envelope_def wrap_errs_def)
qed

end
