(* ===== verification/WH_NCrypt.thy ===== *)
theory WH_NCrypt
  imports WH_Crypto
begin

text \<open>
  \<open>winhello/ncrypt.go\<close>, \<open>winhello/ncrypt_error.go\<close>, \<open>winhello/hwnd.go\<close> and
  \<open>winhello/passport_name.go\<close>: the layer over the Windows procedures. The procedures themselves
  (\<open>ncrypt.dll\<close>, \<open>user32.dll\<close>, \<open>kernel32.dll\<close>, the current user, and the conversion to UTF-16 with
  its terminator) are the fields of a record. Handles, status codes and window handles are 64-bit
  words; a procedure that fills a buffer is given its size, 0 for a nil pointer, and returns a
  status, a length and the bytes it wrote.
\<close>

type_synonym ncryptHandle = "64 word"
type_synonym status = "64 word"

record 'w winapi =
  win_CurrentUid :: "('w, string) call"
  win_GetConsoleWindow :: "'w \<Rightarrow> 64 word \<times> 'w"
  win_IsWindowVisible :: "64 word \<Rightarrow> 'w \<Rightarrow> 64 word \<times> 'w"
  win_GetForegroundWindow :: "'w \<Rightarrow> 64 word \<times> 'w"
  win_UTF16 :: "string \<Rightarrow> bytes"
  nc_OpenStorageProvider :: "string \<Rightarrow> 'w \<Rightarrow> (status \<times> ncryptHandle) \<times> 'w"
  nc_OpenKey :: "ncryptHandle \<Rightarrow> string \<Rightarrow> 32 word \<Rightarrow> 32 word \<Rightarrow> 'w \<Rightarrow> (status \<times> ncryptHandle) \<times> 'w"
  nc_CreatePersistedKey ::
    "ncryptHandle \<Rightarrow> string \<Rightarrow> string option \<Rightarrow> 32 word \<Rightarrow> 32 word \<Rightarrow> 'w \<Rightarrow> (status \<times> ncryptHandle) \<times> 'w"
  nc_SetProperty :: "ncryptHandle \<Rightarrow> string \<Rightarrow> bytes \<Rightarrow> 32 word \<Rightarrow> 'w \<Rightarrow> status \<times> 'w"
  nc_FinalizeKey :: "ncryptHandle \<Rightarrow> 32 word \<Rightarrow> 'w \<Rightarrow> status \<times> 'w"
  nc_Encrypt :: "ncryptHandle \<Rightarrow> bytes \<Rightarrow> 32 word \<Rightarrow> 32 word \<Rightarrow> 'w \<Rightarrow> (status \<times> 32 word \<times> bytes) \<times> 'w"
  nc_Decrypt :: "ncryptHandle \<Rightarrow> bytes \<Rightarrow> 32 word \<Rightarrow> 32 word \<Rightarrow> 'w \<Rightarrow> (status \<times> 32 word \<times> bytes) \<times> 'w"
  nc_DeleteKey :: "ncryptHandle \<Rightarrow> 32 word \<Rightarrow> 'w \<Rightarrow> status \<times> 'w"
  nc_FreeObject :: "ncryptHandle \<Rightarrow> 'w \<Rightarrow> status \<times> 'w"

section \<open>Status codes\<close>

definition errWinHelloNCryptBadKeyset :: goerr where "errWinHelloNCryptBadKeyset = Errno 0x80090016"
definition errWinHelloNCryptNoKey :: goerr where "errWinHelloNCryptNoKey = Errno 0x8009000d"
definition errWinHelloNCryptNotFound :: goerr where "errWinHelloNCryptNotFound = Errno 0x80090011"
definition errWinHelloNCryptNotSupported :: goerr where
  "errWinHelloNCryptNotSupported = Errno 0x80090029"
definition errWinHelloNCryptDeviceNotReady :: goerr where
  "errWinHelloNCryptDeviceNotReady = Errno 0x80090030"
definition errWinHelloNCryptUserCancelled :: goerr where
  "errWinHelloNCryptUserCancelled = Errno 0x80090036"
definition errWinHelloNCryptInvalidParameter :: goerr where
  "errWinHelloNCryptInvalidParameter = Errno 0x80090027"
definition errWinHelloWin32InvalidParameter :: goerr where
  "errWinHelloWin32InvalidParameter = Errno 87"

definition isWinHelloNCryptSetupRequired :: "goerr \<Rightarrow> bool" where
  "isWinHelloNCryptSetupRequired err \<longleftrightarrow>
     errors_Is err errWinHelloNCryptNotSupported \<or> errors_Is err errWinHelloNCryptDeviceNotReady"

definition isWinHelloNCryptKeyNotFound :: "goerr \<Rightarrow> bool" where
  "isWinHelloNCryptKeyNotFound err \<longleftrightarrow>
     errors_Is err errWinHelloNCryptBadKeyset \<or> errors_Is err errWinHelloNCryptNoKey \<or>
     errors_Is err errWinHelloNCryptNotFound"

definition isWinHelloNCryptInvalidParameter :: "goerr \<Rightarrow> bool" where
  "isWinHelloNCryptInvalidParameter err \<longleftrightarrow>
     errors_Is err errWinHelloNCryptInvalidParameter \<or> errors_Is err errWinHelloWin32InvalidParameter"

definition isWinHelloNCryptUserCancelled :: "goerr \<Rightarrow> bool" where
  "isWinHelloNCryptUserCancelled err \<longleftrightarrow> errors_Is err errWinHelloNCryptUserCancelled"

definition winHelloNCryptError :: "status \<Rightarrow> goerr option" where
  "winHelloNCryptError status =
     (if status = 0 then None
      else let err = Errno status
           in if isWinHelloNCryptSetupRequired err then Some (Wrapf ''setup hint'' [err])
              else Some err)"

text \<open>What a procedure returned, as the result of the Go function that called it.\<close>

definition nc_result :: "status \<Rightarrow> 'a \<Rightarrow> 'a res" where
  "nc_result status x = (case winHelloNCryptError status of None \<Rightarrow> Inr x | Some err \<Rightarrow> Inl err)"

lemma nc_result_ok [simp]: "nc_result 0 x = Inr x"
  by (simp add: nc_result_def winHelloNCryptError_def)

lemma nc_result_Inr_iff: "nc_result s x = Inr y \<longleftrightarrow> s = 0 \<and> y = x"
  by (auto simp: nc_result_def winHelloNCryptError_def Let_def)

section \<open>The procedures as Go functions\<close>

definition EINVAL :: goerr where "EINVAL = Foreign ''invalid argument''"

text \<open>\<open>syscall.UTF16PtrFromString\<close>: a string with a NUL cannot be passed.\<close>

definition utf16_ok :: "string \<Rightarrow> bool" where
  "utf16_ok s \<longleftrightarrow> CHR 0x00 \<notin> set s"

definition winHelloNCryptOpenStorageProvider :: "'w winapi \<Rightarrow> string \<Rightarrow> ('w, ncryptHandle) call" where
  "winHelloNCryptOpenStorageProvider api providerName w =
     (if \<not> utf16_ok providerName then (Inl (Wrapf ''encode provider name'' [EINVAL]), w)
      else case nc_OpenStorageProvider api providerName w of
        ((status, provider), w) \<Rightarrow> (nc_result status provider, w))"

definition winHelloNCryptOpenKey ::
  "'w winapi \<Rightarrow> ncryptHandle \<Rightarrow> string \<Rightarrow> 32 word \<Rightarrow> 32 word \<Rightarrow> ('w, ncryptHandle) call" where
  "winHelloNCryptOpenKey api provider keyName legacyKeySpec flags w =
     (if \<not> utf16_ok keyName then (Inl (Wrapf ''encode key name'' [EINVAL]), w)
      else case nc_OpenKey api provider keyName legacyKeySpec flags w of
        ((status, key), w) \<Rightarrow> (nc_result status key, w))"

definition winHelloNCryptCreatePersistedKey ::
  "'w winapi \<Rightarrow> ncryptHandle \<Rightarrow> string \<Rightarrow> string \<Rightarrow> 32 word \<Rightarrow> 32 word \<Rightarrow> ('w, ncryptHandle) call" where
  "winHelloNCryptCreatePersistedKey api provider algorithm keyName legacyKeySpec flags w =
     (if \<not> utf16_ok algorithm then (Inl (Wrapf ''encode algorithm'' [EINVAL]), w)
      else if keyName \<noteq> '''' \<and> \<not> utf16_ok keyName then (Inl (Wrapf ''encode key name'' [EINVAL]), w)
      else case nc_CreatePersistedKey api provider algorithm
             (if keyName \<noteq> '''' then Some keyName else None) legacyKeySpec flags w of
        ((status, key), w) \<Rightarrow> (nc_result status key, w))"

definition winHelloCheckDWORDLength :: "string \<Rightarrow> nat \<Rightarrow> goerr option" where
  "winHelloCheckDWORDLength name n =
     (if n > 4294967295 then Some (Textf ''too large for NCrypt call'' []) else None)"

definition winHelloNCryptSetProperty ::
  "'w winapi \<Rightarrow> ncryptHandle \<Rightarrow> string \<Rightarrow> bytes \<Rightarrow> 32 word \<Rightarrow> ('w, unit) call" where
  "winHelloNCryptSetProperty api handle property value flags w =
     (if \<not> utf16_ok property then (Inl (Wrapf ''encode property'' [EINVAL]), w)
      else case winHelloCheckDWORDLength property (length value) of
        Some err \<Rightarrow> (Inl err, w)
      | None \<Rightarrow>
          (case nc_SetProperty api handle property value flags w of (status, w) \<Rightarrow>
             (case winHelloNCryptError status of
                Some err \<Rightarrow> (Inl (Wrapf ''set property'' [err]), w)
              | None \<Rightarrow> (Inr (), w))))"

text \<open>The bytes of an integer in memory: Windows runs on little-endian machines.\<close>

definition le_bytes :: "nat \<Rightarrow> 'a::len word \<Rightarrow> bytes" where
  "le_bytes n v = map (\<lambda>i. byte_of (unat v div 256 ^ i mod 256)) [0..<n]"

definition winHelloNCryptSetUint32Property ::
  "'w winapi \<Rightarrow> ncryptHandle \<Rightarrow> string \<Rightarrow> 32 word \<Rightarrow> ('w, unit) call" where
  "winHelloNCryptSetUint32Property api handle property value =
     winHelloNCryptSetProperty api handle property (le_bytes 4 value) 0"

definition winHelloNCryptSetStringProperty ::
  "'w winapi \<Rightarrow> ncryptHandle \<Rightarrow> string \<Rightarrow> string \<Rightarrow> ('w, unit) call" where
  "winHelloNCryptSetStringProperty api handle property value w =
     (if \<not> utf16_ok value then (Inl (Wrapf ''encode value'' [EINVAL]), w)
      else winHelloNCryptSetProperty api handle property (win_UTF16 api value) 0 w)"

definition winHelloNCryptSetHandleProperty ::
  "'w winapi \<Rightarrow> ncryptHandle \<Rightarrow> string \<Rightarrow> 64 word \<Rightarrow> ('w, unit) call" where
  "winHelloNCryptSetHandleProperty api handle property value =
     winHelloNCryptSetProperty api handle property (le_bytes 8 value) 0"

definition winHelloNCryptFinalizeKey :: "'w winapi \<Rightarrow> ncryptHandle \<Rightarrow> 32 word \<Rightarrow> ('w, unit) call" where
  "winHelloNCryptFinalizeKey api key flags w =
     (case nc_FinalizeKey api key flags w of (status, w) \<Rightarrow> (nc_result status (), w))"

definition winHelloNCryptDeleteKey :: "'w winapi \<Rightarrow> ncryptHandle \<Rightarrow> 32 word \<Rightarrow> ('w, unit) call" where
  "winHelloNCryptDeleteKey api key flags w =
     (case nc_DeleteKey api key flags w of (status, w) \<Rightarrow> (nc_result status (), w))"

definition winHelloNCryptFreeObject :: "'w winapi \<Rightarrow> ncryptHandle \<Rightarrow> ('w, unit) call" where
  "winHelloNCryptFreeObject api handle w =
     (if handle = 0 then (Inr (), w)
      else case nc_FreeObject api handle w of (status, w) \<Rightarrow> (nc_result status (), w))"

text \<open>
  One cryptographic call: a first call with no buffer asks for the output size, the second fills a
  zeroed buffer of that size, of which the returned length is kept. A procedure that claims to
  have written more than the buffer holds makes the slice expression panic.
\<close>

definition filled :: "nat \<Rightarrow> bytes \<Rightarrow> bytes" where
  "filled n b = take n (b @ replicate n (CHR 0x00))"

definition winHelloNCryptCrypt ::
  "(ncryptHandle \<Rightarrow> bytes \<Rightarrow> 32 word \<Rightarrow> 32 word \<Rightarrow> 'w \<Rightarrow> (status \<times> 32 word \<times> bytes) \<times> 'w) \<Rightarrow>
     ncryptHandle \<Rightarrow> bytes \<Rightarrow> 32 word \<Rightarrow> ('w, bytes) call" where
  "winHelloNCryptCrypt proc key input flags w =
     (if length input = 0 then (Inl (Sentinel V_errWinHelloNCryptEmptyInput), w)
      else case winHelloCheckDWORDLength ''input'' (length input) of
        Some err \<Rightarrow> (Inl err, w)
      | None \<Rightarrow>
          (case proc key input 0 flags w of ((status, outputLen, _), w) \<Rightarrow>
             (case winHelloNCryptError status of
                Some err \<Rightarrow> (Inl err, w)
              | None \<Rightarrow>
                  (let n = unat outputLen in
                   case winHelloCheckDWORDLength ''output'' n of
                     Some err \<Rightarrow> (Inl err, w)
                   | None \<Rightarrow>
                       (case proc key input outputLen flags w of ((status, outputLen', written), w) \<Rightarrow>
                          (case winHelloNCryptError status of
                             Some err \<Rightarrow> (Inl err, w)
                           | None \<Rightarrow>
                               if unat outputLen' \<le> n
                               then (Inr (take (unat outputLen') (filled n written)), w)
                               else (Inl (GoPanic ''slice bounds out of range''), w)))))))"

definition winHelloNCryptEncrypt ::
  "'w winapi \<Rightarrow> ncryptHandle \<Rightarrow> bytes \<Rightarrow> 32 word \<Rightarrow> ('w, bytes) call" where
  "winHelloNCryptEncrypt api key plaintext flags =
     winHelloNCryptCrypt (nc_Encrypt api) key plaintext flags"

definition winHelloNCryptDecrypt ::
  "'w winapi \<Rightarrow> ncryptHandle \<Rightarrow> bytes \<Rightarrow> 32 word \<Rightarrow> ('w, bytes) call" where
  "winHelloNCryptDecrypt api key ciphertext flags =
     winHelloNCryptCrypt (nc_Decrypt api) key ciphertext flags"

section \<open>Windows\<close>

definition winHelloIsWindowVisible :: "'w winapi \<Rightarrow> 64 word \<Rightarrow> 'w \<Rightarrow> bool \<times> 'w" where
  "winHelloIsWindowVisible api hwnd w =
     (case win_IsWindowVisible api hwnd w of (visible, w) \<Rightarrow> (visible \<noteq> 0, w))"

definition foregroundWindow :: "'w winapi \<Rightarrow> 'w \<Rightarrow> 64 word \<times> 'w" where
  "foregroundWindow api w = win_GetForegroundWindow api w"

definition visibleConsoleWindow :: "'w winapi \<Rightarrow> 'w \<Rightarrow> 64 word \<times> 'w" where
  "visibleConsoleWindow api w =
     (case win_GetConsoleWindow api w of (hwnd, w) \<Rightarrow>
        if hwnd = 0 then (0, w)
        else (case winHelloIsWindowVisible api hwnd w of (visible, w) \<Rightarrow>
                if visible then (hwnd, w) else (0, w)))"

definition winHelloParentHWND :: "'w winapi \<Rightarrow> 'w \<Rightarrow> 64 word \<times> 'w" where
  "winHelloParentHWND api w =
     (case visibleConsoleWindow api w of (hwnd, w) \<Rightarrow>
        if hwnd \<noteq> 0 then (hwnd, w) else foregroundWindow api w)"

section \<open>The name of the key\<close>

definition winHelloPassportKeyNameDomain :: string where "winHelloPassportKeyNameDomain = ''ByteNess''"
definition winHelloPassportKeyNameNamespace :: string where
  "winHelloPassportKeyNameNamespace = ''keyring-winhello''"

abbreviation errWinHelloPassportLogicalName :: goerr where
  "errWinHelloPassportLogicalName \<equiv> Sentinel V_errWinHelloPassportLogicalName"
abbreviation errWinHelloPassportCurrentUser :: goerr where
  "errWinHelloPassportCurrentUser \<equiv> Sentinel V_errWinHelloPassportCurrentUser"

definition validateWinHelloPassportLogicalName :: "string \<Rightarrow> goerr option" where
  "validateWinHelloPassportLogicalName logicalName =
     (if all_space logicalName then Some errWinHelloPassportLogicalName
      else if CHR ''/'' \<in> set logicalName \<or> CHR 0x5C \<in> set logicalName
      then Some (Wrapf ''path separator'' [errWinHelloPassportLogicalName])
      else None)"

definition winHelloPassportKeyName :: "'w winapi \<Rightarrow> string \<Rightarrow> ('w, string) call" where
  "winHelloPassportKeyName api logicalName =
     (case validateWinHelloPassportLogicalName logicalName of
        Some err \<Rightarrow> go_fail err
      | None \<Rightarrow>
          go_tryE (wrap_errs ''current user'' [errWinHelloPassportCurrentUser]) (win_CurrentUid api) (\<lambda>uid.
            if uid = '''' then go_fail errWinHelloPassportCurrentUser
            else go_return (uid @ ''//'' @ winHelloPassportKeyNameDomain @ ''/'' @
              winHelloPassportKeyNameNamespace @ ''/'' @ logicalName)))"

end
