(* ===== verification/WH_Passport.thy ===== *)
theory WH_Passport
  imports WH_NCrypt "HOL-Library.Multiset"
begin

unbundle bit_operations_syntax

text \<open>
  \<open>winhello/passport.go\<close> and \<open>winhello/wrap.go\<close>: the key of the Microsoft Passport provider that
  wraps content keys. A \<open>winHelloPassportKey\<close> is a descriptor; each operation opens the provider and
  the key again and frees both handles, a \<open>defer\<close> in the source.
\<close>

definition winHelloPassportKeyBits :: "32 word" where "winHelloPassportKeyBits = 2048"
definition winHelloPassportCreateContext :: string where
  "winHelloPassportCreateContext = ''Create keyring winhello key''"
definition winHelloPassportDefaultUnwrapContext :: string where
  "winHelloPassportDefaultUnwrapContext = ''Unlock keyring secret''"

definition winHelloNCryptRSAAlgorithm :: string where "winHelloNCryptRSAAlgorithm = ''RSA''"
definition winHelloNCryptLengthProperty :: string where "winHelloNCryptLengthProperty = ''Length''"
definition winHelloNCryptKeyUsageProperty :: string where "winHelloNCryptKeyUsageProperty = ''Key Usage''"
definition winHelloNCryptNgcCacheTypeProperty :: string where
  "winHelloNCryptNgcCacheTypeProperty = ''NgcCacheType''"
definition winHelloNCryptNgcCacheTypeLegacyProperty :: string where
  "winHelloNCryptNgcCacheTypeLegacyProperty = ''NgcCacheTypeProperty''"
definition winHelloNCryptPinCacheIsGestureRequiredProperty :: string where
  "winHelloNCryptPinCacheIsGestureRequiredProperty = ''PinCacheIsGestureRequired''"
definition winHelloNCryptUseContextProperty :: string where
  "winHelloNCryptUseContextProperty = ''Use Context''"
definition winHelloNCryptWindowHandleProperty :: string where
  "winHelloNCryptWindowHandleProperty = ''HWND Handle''"
definition winHelloNCryptPadPKCS1Flag :: "32 word" where "winHelloNCryptPadPKCS1Flag = 0x00000002"
definition winHelloNCryptAllowDecryptFlag :: "32 word" where
  "winHelloNCryptAllowDecryptFlag = 0x00000001"
definition winHelloNCryptNgcCacheTypeAuthMandatory :: "32 word" where
  "winHelloNCryptNgcCacheTypeAuthMandatory = 0x00000001"

lemmas ncrypt_properties = winHelloNCryptLengthProperty_def winHelloNCryptKeyUsageProperty_def
  winHelloNCryptNgcCacheTypeProperty_def winHelloNCryptNgcCacheTypeLegacyProperty_def
  winHelloNCryptPinCacheIsGestureRequiredProperty_def winHelloNCryptUseContextProperty_def
  winHelloNCryptWindowHandleProperty_def

abbreviation errWinHelloPassportKeyNotFound :: goerr where
  "errWinHelloPassportKeyNotFound \<equiv> Sentinel V_errWinHelloPassportKeyNotFound"
abbreviation errWinHelloPassportKeyRequired :: goerr where
  "errWinHelloPassportKeyRequired \<equiv> Sentinel V_errWinHelloPassportKeyRequired"
abbreviation errWinHelloPassportKeyNameRequired :: goerr where
  "errWinHelloPassportKeyNameRequired \<equiv> Sentinel V_errWinHelloPassportKeyNameRequired"
abbreviation errWinHelloInvalidCEKSize :: goerr where
  "errWinHelloInvalidCEKSize \<equiv> Sentinel V_errWinHelloInvalidCEKSize"

record winHelloPassportKey =
  pk_keyName :: string
  pk_hwnd :: "64 word"

text \<open>Running a call and then a cleanup whose error is dropped; an error that is only ignored.\<close>

definition go_defer :: "('w, unit) call \<Rightarrow> ('w, 'a) call \<Rightarrow> ('w, 'a) call" where
  "go_defer cleanup m w = (case m w of (r, w) \<Rightarrow> (r, snd (cleanup w)))"

definition go_ignore :: "('w, unit) call \<Rightarrow> ('w, 'a) call \<Rightarrow> ('w, 'a) call" where
  "go_ignore m k w = k (snd (m w))"

section \<open>Opening and creating the key\<close>

definition winHelloSetWindowHandleIfPresent ::
  "'w winapi \<Rightarrow> ncryptHandle \<Rightarrow> 64 word \<Rightarrow> ('w, unit) call" where
  "winHelloSetWindowHandleIfPresent api handle hwnd w =
     (case (if hwnd = 0 then winHelloParentHWND api w else (hwnd, w)) of (hwnd, w) \<Rightarrow>
        if hwnd = 0 then (Inr (), w)
        else go_tryE (wrap_err ''set Passport window handle'')
          (winHelloNCryptSetHandleProperty api handle winHelloNCryptWindowHandleProperty hwnd)
          go_return w)"

definition winHelloOpenPassportProvider ::
  "'w winapi \<Rightarrow> string \<Rightarrow> 64 word \<Rightarrow> ('w, ncryptHandle \<times> string) call" where
  "winHelloOpenPassportProvider api logicalName hwnd =
     go_try (winHelloPassportKeyName api logicalName) (\<lambda>keyName.
     go_tryE (wrap_err ''open Passport provider'')
       (winHelloNCryptOpenStorageProvider api winHelloProviderPassportKSP) (\<lambda>provider.
     go_ignore (winHelloSetWindowHandleIfPresent api provider hwnd)
       (go_return (provider, keyName))))"

text \<open>What both callers of \<open>OpenKey\<close> make of its error.\<close>

definition open_key_error :: "goerr \<Rightarrow> goerr" where
  "open_key_error err =
     (if isWinHelloNCryptKeyNotFound err then errWinHelloPassportKeyNotFound
      else wrap_err ''open Passport key'' err)"

definition openWinHelloPassportKey ::
  "'w winapi \<Rightarrow> string \<Rightarrow> 64 word \<Rightarrow> ('w, winHelloPassportKey) call" where
  "openWinHelloPassportKey api logicalName hwnd =
     go_try (winHelloOpenPassportProvider api logicalName hwnd) (\<lambda>(provider, keyName).
     go_defer (winHelloNCryptFreeObject api provider)
       (go_tryE open_key_error (winHelloNCryptOpenKey api provider keyName 0 0) (\<lambda>keyHandle.
        go_tryE (wrap_err ''free Passport key'') (winHelloNCryptFreeObject api keyHandle) (\<lambda>_.
          go_return \<lparr>pk_keyName = keyName, pk_hwnd = hwnd\<rparr>))))"

definition winHelloSetPassportNgcCacheType :: "'w winapi \<Rightarrow> ncryptHandle \<Rightarrow> ('w, unit) call" where
  "winHelloSetPassportNgcCacheType api key w =
     (case winHelloNCryptSetUint32Property api key winHelloNCryptNgcCacheTypeProperty
             winHelloNCryptNgcCacheTypeAuthMandatory w of
        (Inr _, w) \<Rightarrow> (Inr (), w)
      | (Inl err, w) \<Rightarrow>
          (case winHelloNCryptSetUint32Property api key winHelloNCryptNgcCacheTypeLegacyProperty
                  winHelloNCryptNgcCacheTypeAuthMandatory w of
             (Inr _, w) \<Rightarrow> (Inr (), w)
           | (Inl legacyErr, w) \<Rightarrow> (Inl (Wrapf ''set NgcCacheType'' [err]), w)))"

definition winHelloInitializePassportKey ::
  "'w winapi \<Rightarrow> ncryptHandle \<Rightarrow> 64 word \<Rightarrow> ('w, unit) call" where
  "winHelloInitializePassportKey api key hwnd =
     go_ignore (winHelloSetWindowHandleIfPresent api key hwnd)
       (go_try (winHelloNCryptSetUint32Property api key winHelloNCryptLengthProperty
          winHelloPassportKeyBits) (\<lambda>_.
        go_try (winHelloNCryptSetUint32Property api key winHelloNCryptKeyUsageProperty
          winHelloNCryptAllowDecryptFlag) (\<lambda>_.
        go_try (winHelloSetPassportNgcCacheType api key) (\<lambda>_.
        winHelloNCryptSetStringProperty api key winHelloNCryptUseContextProperty
          winHelloPassportCreateContext))))"

text \<open>A failing step after which handles are freed by hand, in the order of the source.\<close>

definition or_free ::
  "('w, 'a) call \<Rightarrow> ('w, unit) call list \<Rightarrow> string \<Rightarrow> ('a \<Rightarrow> ('w, 'b) call) \<Rightarrow> ('w, 'b) call" where
  "or_free m frees s k w =
     (case m w of
        (Inl err, w) \<Rightarrow> (Inl (wrap_err s err), fold (\<lambda>f w. snd (f w)) frees w)
      | (Inr x, w) \<Rightarrow> k x w)"

definition ensureWinHelloPassportKey ::
  "'w winapi \<Rightarrow> string \<Rightarrow> 64 word \<Rightarrow> ('w, winHelloPassportKey) call" where
  "ensureWinHelloPassportKey api logicalName hwnd w =
     (case openWinHelloPassportKey api logicalName hwnd w of
        (Inr passportKey, w) \<Rightarrow> (Inr passportKey, w)
      | (Inl err, w) \<Rightarrow>
          if \<not> errors_Is err errWinHelloPassportKeyNotFound then (Inl err, w)
          else
            go_try (winHelloOpenPassportProvider api logicalName hwnd) (\<lambda>(provider, keyName).
            let freeProvider = winHelloNCryptFreeObject api provider in
            or_free (winHelloNCryptCreatePersistedKey api provider winHelloNCryptRSAAlgorithm keyName 0 0)
              [freeProvider] ''create Passport key'' (\<lambda>createdKey.
            let freeKey = winHelloNCryptFreeObject api createdKey in
            or_free (winHelloInitializePassportKey api createdKey hwnd)
              [freeKey, freeProvider] ''initialize Passport key'' (\<lambda>_.
            or_free (winHelloNCryptFinalizeKey api createdKey 0)
              [freeKey, freeProvider] ''finalize Passport key'' (\<lambda>_.
            or_free freeKey [freeProvider] ''free Passport key after finalize'' (\<lambda>_.
            or_free freeProvider [] ''free Passport provider after create'' (\<lambda>_.
              go_return \<lparr>pk_keyName = keyName, pk_hwnd = hwnd\<rparr>)))))) w)"

section \<open>Wrapping and unwrapping\<close>

definition withOperationKey ::
  "'w winapi \<Rightarrow> winHelloPassportKey option \<Rightarrow> (winHelloPassportKey \<Rightarrow> ncryptHandle \<Rightarrow> ('w, 'a) call) \<Rightarrow>
     ('w, 'a) call" where
  "withOperationKey api key run =
     (case key of
        None \<Rightarrow> go_fail errWinHelloPassportKeyRequired
      | Some key \<Rightarrow>
          if pk_keyName key = '''' then go_fail errWinHelloPassportKeyNameRequired
          else
            go_tryE (wrap_err ''open Passport provider'')
              (winHelloNCryptOpenStorageProvider api winHelloProviderPassportKSP) (\<lambda>provider.
            go_defer (winHelloNCryptFreeObject api provider)
              (go_ignore (winHelloSetWindowHandleIfPresent api provider (pk_hwnd key))
                (go_tryE open_key_error (winHelloNCryptOpenKey api provider (pk_keyName key) 0 0) (\<lambda>openedKey.
                 go_defer (winHelloNCryptFreeObject api openedKey) (run key openedKey))))))"

definition winHelloPreparePassportUnwrap ::
  "'w winapi \<Rightarrow> ncryptHandle \<Rightarrow> 64 word \<Rightarrow> string \<Rightarrow> ('w, unit) call" where
  "winHelloPreparePassportUnwrap api handle hwnd ctx =
     go_ignore (winHelloSetWindowHandleIfPresent api handle hwnd)
       (let ctx = (if ctx = '''' then winHelloPassportDefaultUnwrapContext else ctx) in
        go_try (winHelloNCryptSetStringProperty api handle winHelloNCryptUseContextProperty ctx) (\<lambda>_.
        winHelloNCryptSetUint32Property api handle winHelloNCryptPinCacheIsGestureRequiredProperty 1))"

definition passport_WrapKey :: "'w winapi \<Rightarrow> winHelloPassportKey option \<Rightarrow> bytes \<Rightarrow> ('w, bytes) call" where
  "passport_WrapKey api key cek =
     (if length cek \<noteq> winHelloCEKSize then go_fail (Wrapf ''CEK size'' [errWinHelloInvalidCEKSize])
      else withOperationKey api key (\<lambda>key handle.
        go_ignore (winHelloSetWindowHandleIfPresent api handle (pk_hwnd key))
          (go_tryE (wrap_err ''wrap CEK with Passport key'')
            (winHelloNCryptEncrypt api handle cek winHelloNCryptPadPKCS1Flag) go_return)))"

definition unwrapKeyWithFlags ::
  "'w winapi \<Rightarrow> winHelloPassportKey option \<Rightarrow> bytes \<Rightarrow> string \<Rightarrow> 32 word \<Rightarrow> ('w, bytes) call" where
  "unwrapKeyWithFlags api key wrapped ctx extraFlags =
     withOperationKey api key (\<lambda>key handle.
       go_tryE (wrap_err ''prepare Passport key for unwrap'')
         (winHelloPreparePassportUnwrap api handle (pk_hwnd key) ctx) (\<lambda>_.
       go_tryE (wrap_err ''unwrap CEK with Passport key'')
         (winHelloNCryptDecrypt api handle wrapped (winHelloNCryptPadPKCS1Flag OR extraFlags)) (\<lambda>cek.
       if length cek \<noteq> winHelloCEKSize
       then go_fail (Wrapf ''after unwrap'' [errWinHelloInvalidCEKSize])
       else go_return cek)))"

definition passport_UnwrapKey ::
  "'w winapi \<Rightarrow> winHelloPassportKey option \<Rightarrow> bytes \<Rightarrow> string \<Rightarrow> ('w, bytes) call" where
  "passport_UnwrapKey api key wrapped ctx = unwrapKeyWithFlags api key wrapped ctx 0"

text \<open>\<open>*winHelloPassportKey\<close> as a \<open>winHelloKeyWrapper\<close>, for a key that is not nil.\<close>

definition passport_wrapper :: "'w winapi \<Rightarrow> winHelloPassportKey \<Rightarrow> 'w winHelloKeyWrapper" where
  "passport_wrapper api key =
     \<lparr>WrapKey = passport_WrapKey api (Some key), UnwrapKey = passport_UnwrapKey api (Some key)\<rparr>"

section \<open>Handles\<close>

text \<open>
  \<open>traced api\<close> is the interface \<open>api\<close> with an account of the handles that are open: a procedure that
  succeeds and returns a handle adds it, \<open>FreeObject\<close> takes it away.
\<close>

definition keep_account :: "('w \<Rightarrow> 'a \<times> 'w) \<Rightarrow> ('w \<times> 'm) \<Rightarrow> 'a \<times> ('w \<times> 'm)" where
  "keep_account f = (\<lambda>(w, M). case f w of (r, w) \<Rightarrow> (r, (w, M)))"

definition held :: "ncryptHandle \<Rightarrow> ncryptHandle multiset" where
  "held h = (if h = 0 then {#} else {#h#})"

definition count_open ::
  "('w \<Rightarrow> (status \<times> ncryptHandle) \<times> 'w) \<Rightarrow> 'w \<times> ncryptHandle multiset \<Rightarrow>
     (status \<times> ncryptHandle) \<times> ('w \<times> ncryptHandle multiset)" where
  "count_open f = (\<lambda>(w, M). case f w of ((st, h), w) \<Rightarrow>
     ((st, h), (w, if st = 0 then held h + M else M)))"

definition traced :: "'w winapi \<Rightarrow> ('w \<times> ncryptHandle multiset) winapi" where
  "traced api =
    \<lparr>win_CurrentUid = keep_account (win_CurrentUid api),
     win_GetConsoleWindow = keep_account (win_GetConsoleWindow api),
     win_IsWindowVisible = (\<lambda>h. keep_account (win_IsWindowVisible api h)),
     win_GetForegroundWindow = keep_account (win_GetForegroundWindow api),
     win_UTF16 = win_UTF16 api,
     nc_OpenStorageProvider = (\<lambda>n. count_open (nc_OpenStorageProvider api n)),
     nc_OpenKey = (\<lambda>p n k f. count_open (nc_OpenKey api p n k f)),
     nc_CreatePersistedKey = (\<lambda>p a n k f. count_open (nc_CreatePersistedKey api p a n k f)),
     nc_SetProperty = (\<lambda>h p v f. keep_account (nc_SetProperty api h p v f)),
     nc_FinalizeKey = (\<lambda>h f. keep_account (nc_FinalizeKey api h f)),
     nc_Encrypt = (\<lambda>h i n f. keep_account (nc_Encrypt api h i n f)),
     nc_Decrypt = (\<lambda>h i n f. keep_account (nc_Decrypt api h i n f)),
     nc_DeleteKey = (\<lambda>h f. keep_account (nc_DeleteKey api h f)),
     nc_FreeObject = (\<lambda>h (w, M). case nc_FreeObject api h w of (st, w) \<Rightarrow> (st, (w, M - held h)))\<rparr>"

text \<open>A call that frees exactly the handles \<open>H\<close> it is given, and one that returns a new handle.\<close>

definition takes :: "'h multiset \<Rightarrow> ('w \<times> 'h multiset, 'a) call \<Rightarrow> bool" where
  "takes H m \<longleftrightarrow> (\<forall>w M. snd (snd (m (w, H + M))) = M)"

definition opens ::
  "('a \<Rightarrow> ncryptHandle) \<Rightarrow> ('w \<times> ncryptHandle multiset, 'a) call \<Rightarrow> bool" where
  "opens p m \<longleftrightarrow> (\<forall>w M. case m (w, M) of
     (Inr x, (w', M')) \<Rightarrow> M' = held (p x) + M | (Inl e, (w', M')) \<Rightarrow> M' = M)"

lemma takesD: "takes {#} m \<Longrightarrow> m (w, M) = (r, (w', M')) \<Longrightarrow> M' = M"
  by (simp add: takes_def) (metis snd_conv)

lemma takes_HD: "takes H m \<Longrightarrow> m (w, H + M) = (r, (w', M')) \<Longrightarrow> M' = M"
  by (simp add: takes_def) (metis snd_conv)

lemma takesI: "(\<And>w M r w' M'. m (w, H + M) = (r, (w', M')) \<Longrightarrow> M' = M) \<Longrightarrow> takes H m"
  by (simp add: takes_def) (metis prod.collapse)

lemma opensD:
  assumes "opens p m"
  shows "m (w, M) = (Inr x, (w', M')) \<Longrightarrow> M' = held (p x) + M"
    and "m (w, M) = (Inl e, (w', M')) \<Longrightarrow> M' = M"
proof -
  from assms have "case m (w, M) of (Inr x, (w', M')) \<Rightarrow> M' = held (p x) + M
      | (Inl e, (w', M')) \<Rightarrow> M' = M" by (simp add: opens_def)
  then show "m (w, M) = (Inr x, (w', M')) \<Longrightarrow> M' = held (p x) + M"
    and "m (w, M) = (Inl e, (w', M')) \<Longrightarrow> M' = M" by simp_all
qed

named_theorems handle_rules "how the calls treat the handles they hold"

lemma takes_lit [handle_rules]:
  "takes {#} (go_return x)" "takes {#} (go_fail e)" "takes {#} (\<lambda>w. (r, w))"
  by (simp_all add: takes_def call_simps)

lemma takes_go_tryE [handle_rules]:
  "takes {#} m \<Longrightarrow> (\<And>x. takes {#} (k x)) \<Longrightarrow> takes {#} (go_tryE f m k)"
  "takes {#} m \<Longrightarrow> (\<And>x. takes {#} (k x)) \<Longrightarrow> takes {#} (go_try m k)"
  by (rule takesI; auto simp: call_simps split: prod.splits sum.splits dest: takesD)+

lemma takes_go_ignore [handle_rules]:
  assumes "takes {#} m" "takes H k"
  shows "takes H (go_ignore m k)"
proof (rule takesI)
  fix w M r w' M'
  assume k: "go_ignore m k (w, H + M) = (r, (w', M'))"
  obtain r1 w1 M1 where m: "m (w, H + M) = (r1, (w1, M1))" by (metis surj_pair)
  with k takesD [OF assms(1) m] takes_HD [OF assms(2)] show "M' = M" by (simp add: go_ignore_def)
qed

lemma opens_then [handle_rules]:
  "opens p m \<Longrightarrow> (\<And>x. takes (held (p x)) (k x)) \<Longrightarrow> takes {#} (go_tryE f m k)"
  "opens p m \<Longrightarrow> (\<And>x. takes (held (p x)) (k x)) \<Longrightarrow> takes {#} (go_try m k)"
  by (rule takesI; auto simp: call_simps split: prod.splits sum.splits dest: opensD takes_HD)+

lemma takes_free: "takes (held h) (winHelloNCryptFreeObject (traced api) h)"
  by (auto simp: takes_def winHelloNCryptFreeObject_def traced_def held_def split: prod.splits)

lemma takes_defer [handle_rules]:
  assumes "takes {#} m"
  shows "takes (held h) (go_defer (winHelloNCryptFreeObject (traced api) h) m)"
proof (rule takesI)
  fix w M r w' M'
  assume k: "go_defer (winHelloNCryptFreeObject (traced api) h) m (w, held h + M) = (r, (w', M'))"
  obtain r1 w1 M1 where m: "m (w, held h + M) = (r1, (w1, M1))" by (metis surj_pair)
  have "M1 = held h + M" using takesD [OF assms m] .
  with k m have "snd (winHelloNCryptFreeObject (traced api) h (w1, held h + M)) = (w', M')"
    by (simp add: go_defer_def)
  then show "M' = M" using takes_free [of h api] by (metis snd_conv takes_def)
qed

text \<open>Calls that hold on to handles until they free them by hand.\<close>

definition frees :: "'h multiset \<Rightarrow> ('w \<times> 'h multiset, unit) call list \<Rightarrow> bool" where
  "frees H fs \<longleftrightarrow> (\<forall>w M. snd (fold (\<lambda>f w. snd (f w)) fs (w, H + M)) = M)"

lemma frees_Nil [handle_rules]: "frees {#} []"
  by (simp add: frees_def)

lemma frees_Cons [handle_rules]:
  assumes "frees H fs"
  shows "frees (held h + H) (winHelloNCryptFreeObject (traced api) h # fs)"
  unfolding frees_def
proof (intro allI)
  fix w M
  obtain w' M' where f: "snd (winHelloNCryptFreeObject (traced api) h (w, held h + (H + M))) = (w', M')"
    by fastforce
  then have "M' = H + M" using takes_free [of h api] by (metis snd_conv takes_def)
  with f assms show "snd (fold (\<lambda>f w. snd (f w)) (winHelloNCryptFreeObject (traced api) h # fs)
      (w, held h + H + M)) = M"
    by (simp add: frees_def add.assoc)
qed

lemma takes_or_free:
  assumes "takes {#} m" "frees H fs" "\<And>x. takes H (k x)"
  shows "takes H (or_free m fs s k)"
  unfolding takes_def
proof (intro allI)
  fix w M
  obtain r w' M' where m: "m (w, H + M) = (r, (w', M'))" by (metis surj_pair)
  then have "M' = H + M" using assms(1) by (simp add: takes_def) (metis snd_conv)
  with m assms(2,3) show "snd (snd (or_free m fs s k (w, H + M))) = M"
    by (cases r) (simp_all add: or_free_def frees_def takes_def)
qed

lemma opens_or_free:
  assumes "opens p m" "frees H fs" "\<And>x. takes (held (p x) + H) (k x)"
  shows "takes H (or_free m fs s k)"
  unfolding takes_def
proof (intro allI)
  fix w M
  obtain r w' M' where m: "m (w, H + M) = (r, (w', M'))" by (metis surj_pair)
  then have "case r of Inr x \<Rightarrow> M' = held (p x) + H + M | Inl e \<Rightarrow> M' = H + M"
    using opensD [OF assms(1)] by (cases r) (auto simp: add.assoc)
  with m assms(2,3) show "snd (snd (or_free m fs s k (w, H + M))) = M"
    by (cases r) (simp_all add: or_free_def frees_def takes_def)
qed

lemma free_or_free:
  assumes "frees H fs" "\<And>x. takes H (k x)"
  shows "takes (held h + H) (or_free (winHelloNCryptFreeObject (traced api) h) fs s k)"
  unfolding takes_def
proof (intro allI)
  fix w M
  obtain r w' M' where
    f: "winHelloNCryptFreeObject (traced api) h (w, held h + (H + M)) = (r, (w', M'))"
    by (metis surj_pair)
  then have "M' = H + M" using takes_free [of h api] by (metis snd_conv takes_def)
  with f assms show "snd (snd (or_free (winHelloNCryptFreeObject (traced api) h) fs s k
      (w, held h + H + M))) = M"
    by (cases r) (simp_all add: or_free_def frees_def takes_def add.assoc)
qed

text \<open>The primitive calls.\<close>

lemma opens_procs [handle_rules]:
  "opens (\<lambda>h. h) (winHelloNCryptOpenStorageProvider (traced api) n)"
  "opens (\<lambda>h. h) (winHelloNCryptOpenKey (traced api) pr n ks fl)"
  "opens (\<lambda>h. h) (winHelloNCryptCreatePersistedKey (traced api) pr a n ks fl)"
  by (auto simp: opens_def winHelloNCryptOpenStorageProvider_def winHelloNCryptOpenKey_def
      winHelloNCryptCreatePersistedKey_def traced_def count_open_def nc_result_Inr_iff
      split: prod.splits sum.splits)

lemma takes_keep: "takes {#} (\<lambda>w. case keep_account f w of (x, w') \<Rightarrow> (g x, w'))"
  by (auto simp: takes_def keep_account_def split: prod.splits)

lemma takes_SetProperty [handle_rules]: "takes {#} (winHelloNCryptSetProperty (traced api) h p v f)"
  by (auto simp: takes_def winHelloNCryptSetProperty_def traced_def keep_account_def
      split: prod.splits option.splits)

lemma takes_setters [handle_rules]:
  "takes {#} (winHelloNCryptSetUint32Property (traced api) h p v)"
  "takes {#} (winHelloNCryptSetStringProperty (traced api) h p str)"
  "takes {#} (winHelloNCryptSetHandleProperty (traced api) h p v64)"
  "takes {#} (winHelloNCryptFinalizeKey (traced api) h f)"
  using takes_SetProperty [of api]
  by (auto simp: takes_def winHelloNCryptSetUint32Property_def winHelloNCryptSetStringProperty_def
      winHelloNCryptSetHandleProperty_def winHelloNCryptFinalizeKey_def traced_def keep_account_def
      split: prod.splits)

lemma takes_HWND [handle_rules]: "takes {#} (winHelloSetWindowHandleIfPresent (traced api) h hwnd)"
proof (rule takesI)
  fix w M r w' M'
  assume k: "winHelloSetWindowHandleIfPresent (traced api) h hwnd (w, {#} + M) = (r, (w', M'))"
  have parent: "\<exists>x w1. winHelloParentHWND (traced api) (w, M) = (x, (w1, M))"
    by (simp add: winHelloParentHWND_def visibleConsoleWindow_def winHelloIsWindowVisible_def
        foregroundWindow_def traced_def keep_account_def split: prod.splits)
  from parent obtain x w1 where
    x: "(if hwnd = 0 then winHelloParentHWND (traced api) (w, M) else (hwnd, (w, M))) = (x, (w1, M))"
    by (cases "hwnd = 0") auto
  have "takes {#} (go_tryE f (winHelloNCryptSetHandleProperty (traced api) h p v) go_return)" for f p v
    by (intro handle_rules)
  with k x show "M' = M"
    by (auto simp: winHelloSetWindowHandleIfPresent_def dest: takesD split: if_splits)
qed

lemma takes_KeyName [handle_rules]: "takes {#} (winHelloPassportKeyName (traced api) ln)"
proof -
  have "takes {#} (win_CurrentUid (traced api))"
    by (simp add: takes_def traced_def keep_account_def split: prod.splits)
  then show ?thesis
    by (auto simp: winHelloPassportKeyName_def intro!: takes_lit takes_go_tryE split: option.splits)
qed

lemma opens_provider [handle_rules]:
  "opens fst (winHelloOpenPassportProvider (traced api) ln hwnd)"
  unfolding opens_def
proof (intro allI)
  fix w M
  obtain r w1 M1 where n: "winHelloPassportKeyName (traced api) ln (w, M) = (r, (w1, M1))"
    by (metis surj_pair)
  have 1: "M1 = M" using takesD [OF takes_KeyName n] .
  obtain r2 w2 M2 where
    o: "winHelloNCryptOpenStorageProvider (traced api) winHelloProviderPassportKSP (w1, M) = (r2, (w2, M2))"
    by (metis surj_pair)
  obtain r3 w3 M3 where
    s: "winHelloSetWindowHandleIfPresent (traced api) (projr r2) hwnd (w2, M2) = (r3, (w3, M3))"
    by (metis surj_pair)
  have 3: "M3 = M2" using takesD [OF takes_HWND s] .
  show "case winHelloOpenPassportProvider (traced api) ln hwnd (w, M) of
      (Inr x, (w', M')) \<Rightarrow> M' = held (fst x) + M | (Inl e, (w', M')) \<Rightarrow> M' = M"
    using n o s 1 3 opensD [OF opens_procs(1), of api winHelloProviderPassportKSP w1 M]
    by (cases r; cases r2) (auto simp: winHelloOpenPassportProvider_def call_simps go_ignore_def)
qed

lemma takes_Crypt [handle_rules]:
  "takes {#} (winHelloNCryptEncrypt (traced api) h b f)"
  "takes {#} (winHelloNCryptDecrypt (traced api) h b f)"
  by (auto simp: takes_def winHelloNCryptEncrypt_def winHelloNCryptDecrypt_def winHelloNCryptCrypt_def
      traced_def keep_account_def Let_def split: prod.splits option.splits)

lemma takes_Ngc [handle_rules]: "takes {#} (winHelloSetPassportNgcCacheType (traced api) h)"
  by (rule takesI)
    (auto simp: winHelloSetPassportNgcCacheType_def split: prod.splits sum.splits
      dest!: takesD [OF takes_setters(1)])

lemma takes_Initialize [handle_rules]: "takes {#} (winHelloInitializePassportKey (traced api) h hwnd)"
  unfolding winHelloInitializePassportKey_def by (intro handle_rules)

lemma takes_free_then [handle_rules]:
  assumes "\<And>x. takes {#} (k x)"
  shows "takes (held h) (go_tryE f (winHelloNCryptFreeObject (traced api) h) k)"
proof (rule takesI)
  fix w M r w' M'
  assume k: "go_tryE f (winHelloNCryptFreeObject (traced api) h) k (w, held h + M) = (r, (w', M'))"
  obtain r1 w1 M1 where
    m: "winHelloNCryptFreeObject (traced api) h (w, held h + M) = (r1, (w1, M1))" by (metis surj_pair)
  have "M1 = M" using takes_HD [OF takes_free m] .
  with k m show "M' = M" by (cases r1) (auto simp: call_simps dest: takesD [OF assms])
qed

lemma takes_open [handle_rules]: "takes {#} (openWinHelloPassportKey (traced api) ln hwnd)"
  unfolding openWinHelloPassportKey_def split_beta
  by (rule opens_then(2) [OF opens_provider], rule takes_defer, rule opens_then(1) [OF opens_procs(2)],
      intro takes_free_then takes_lit)

lemma takes_ensure [handle_rules]: "takes {#} (ensureWinHelloPassportKey (traced api) ln hwnd)"
proof -
  let ?create = "go_try (winHelloOpenPassportProvider (traced api) ln hwnd) (\<lambda>(provider, keyName).
    let freeProvider = winHelloNCryptFreeObject (traced api) provider in
    or_free (winHelloNCryptCreatePersistedKey (traced api) provider winHelloNCryptRSAAlgorithm keyName 0 0)
      [freeProvider] ''create Passport key'' (\<lambda>createdKey.
    let freeKey = winHelloNCryptFreeObject (traced api) createdKey in
    or_free (winHelloInitializePassportKey (traced api) createdKey hwnd)
      [freeKey, freeProvider] ''initialize Passport key'' (\<lambda>_.
    or_free (winHelloNCryptFinalizeKey (traced api) createdKey 0)
      [freeKey, freeProvider] ''finalize Passport key'' (\<lambda>_.
    or_free freeKey [freeProvider] ''free Passport key after finalize'' (\<lambda>_.
    or_free freeProvider [] ''free Passport provider after create'' (\<lambda>_.
      go_return \<lparr>pk_keyName = keyName, pk_hwnd = hwnd\<rparr>))))))"
  have one: "frees (held p) [winHelloNCryptFreeObject (traced api) p]" for p
    using frees_Cons [OF frees_Nil, of p api] by simp
  have two: "frees (held k + held p) [winHelloNCryptFreeObject (traced api) k,
      winHelloNCryptFreeObject (traced api) p]" for k p
    by (rule frees_Cons [OF one])
  have last: "takes (held p) (or_free (winHelloNCryptFreeObject (traced api) p) [] s (\<lambda>_. go_return x))"
    for p s x using free_or_free [OF frees_Nil takes_lit(1), of p] by simp
  have "takes {#} ?create"
    unfolding split_beta Let_def
    by (rule opens_then(2) [OF opens_provider], rule opens_or_free [OF opens_procs(3) one],
        rule takes_or_free [OF takes_Initialize two], rule takes_or_free [OF takes_setters(4) two],
        rule free_or_free [OF one last])
  then show ?thesis
    unfolding ensureWinHelloPassportKey_def
    by (intro takesI) (auto split: prod.splits sum.splits if_splits
        dest!: takesD [OF takes_open] dest: takesD)
qed

lemma takes_withOperationKey:
  assumes "\<And>k h. takes {#} (run k h)"
  shows "takes {#} (withOperationKey (traced api) key run)"
  using assms unfolding withOperationKey_def
  by (auto intro!: handle_rules split: option.splits)

lemma takes_WrapKey: "takes {#} (passport_WrapKey (traced api) key cek)"
  unfolding passport_WrapKey_def
  by (auto intro!: takes_lit takes_withOperationKey takes_go_ignore takes_HWND takes_go_tryE takes_Crypt)

lemma takes_UnwrapKey: "takes {#} (unwrapKeyWithFlags (traced api) key wrapped ctx fl)"
  unfolding unwrapKeyWithFlags_def winHelloPreparePassportUnwrap_def Let_def
  by (intro takes_withOperationKey takes_go_tryE takes_go_ignore takes_HWND takes_setters takes_Crypt)
    (auto intro: takes_lit)

section \<open>Properties\<close>

text \<open>
  \<^bold>\<open>C13.\<close> No NCrypt handle leaks and none is freed that is not open: whatever the Windows procedures
  return, on every path, errors and panics included, each of opening, creating, wrapping and
  unwrapping frees every provider and key handle it has obtained exactly once and no other, so the
  account of open handles ends as it began.
\<close>

theorem passport_frees_all_handles:
  "snd (snd (openWinHelloPassportKey (traced api) logicalName hwnd (w, M))) = M \<and>
   snd (snd (ensureWinHelloPassportKey (traced api) logicalName hwnd (w, M))) = M \<and>
   snd (snd (passport_WrapKey (traced api) key cek (w, M))) = M \<and>
   snd (snd (unwrapKeyWithFlags (traced api) key wrapped ctx flags (w, M))) = M"
  using takes_open [of api logicalName hwnd] takes_ensure [of api logicalName hwnd]
    takes_WrapKey [of api key cek] takes_UnwrapKey [of api key wrapped ctx flags]
  by (simp add: takes_def)

end
