(* ===== verification/WH_Device.thy ===== *)
theory WH_Device
  imports WH_Passport
begin

text \<open>
  The documented behaviour of the Windows procedures that the Passport key rests on, as laws over an
  abstract device, a device in memory that meets them, and the proof that a Passport key over a
  lawful device is a \<open>key_wrapper\<close>.
\<close>

section \<open>Laws\<close>

text \<open>
  The abstract device: whether the persisted key exists in a world, which handles stand for it,
  what it decrypts, the rest of the world (which no procedure touches), and the user.
\<close>

record ('w, 'o) device =
  dev_has :: "'w \<Rightarrow> bool"
  dev_open :: "'w \<Rightarrow> ncryptHandle \<Rightarrow> bool"
  dev_decrypts :: "bytes \<Rightarrow> bytes option"
  dev_other :: "'w \<Rightarrow> 'o"
  dev_uid :: string

definition device_key :: "('w, 'o) device \<Rightarrow> string \<Rightarrow> string" where
  "device_key g logicalName = dev_uid g @ ''//'' @ winHelloPassportKeyNameDomain @ ''/'' @
     winHelloPassportKeyNameNamespace @ ''/'' @ logicalName"

definition kept :: "('w, 'o) device \<Rightarrow> 'w \<Rightarrow> 'w \<Rightarrow> bool" where
  "kept g w w' \<longleftrightarrow> dev_has g w' = dev_has g w \<and> dev_other g w' = dev_other g w"

definition ext :: "('w, 'o) device \<Rightarrow> 'w \<Rightarrow> 'w \<Rightarrow> bool" where
  "ext g w w' \<longleftrightarrow> kept g w w' \<and> (\<forall>h. dev_open g w h \<longrightarrow> dev_open g w' h)"

text \<open>
  A crypt procedure: a first call without a buffer answers with a size, a second with a buffer of that
  size succeeds and writes a result related to the input. Inputs are those the key can take: content
  keys to encrypt, what it decrypts to decrypt.
\<close>

definition crypts ::
  "('w, 'o) device \<Rightarrow> (ncryptHandle \<Rightarrow> bytes \<Rightarrow> 32 word \<Rightarrow> 32 word \<Rightarrow> 'w \<Rightarrow> (status \<times> 32 word \<times> bytes) \<times> 'w) \<Rightarrow>
     ncryptHandle \<Rightarrow> bytes \<Rightarrow> 'w \<Rightarrow> (bytes \<Rightarrow> bool) \<Rightarrow> bool" where
  "crypts g proc h input w R \<longleftrightarrow>
     (\<exists>n b w'. proc h input 0 2 w = ((0, n, b), w') \<and> ext g w w' \<and>
        (\<exists>m out w''. proc h input n 2 w' = ((0, m, out), w'') \<and> ext g w' w'' \<and>
           m \<le> n \<and> length out = unat m \<and> R out))"

definition passport_properties :: "string set" where
  "passport_properties = {winHelloNCryptLengthProperty, winHelloNCryptKeyUsageProperty,
     winHelloNCryptNgcCacheTypeProperty, winHelloNCryptPinCacheIsGestureRequiredProperty,
     winHelloNCryptUseContextProperty}"

definition lawful_winapi :: "'w winapi \<Rightarrow> ('w, 'o) device \<Rightarrow> string \<Rightarrow> bool" where
  "lawful_winapi api g name \<longleftrightarrow>
     utf16_ok name \<and> length name > 0 \<and>
     (\<forall>w. \<exists>w'. win_CurrentUid api w = (Inr (dev_uid g), w') \<and> ext g w w') \<and> dev_uid g \<noteq> '''' \<and>
     (\<forall>w. ext g w (snd (win_GetConsoleWindow api w)) \<and> ext g w (snd (win_GetForegroundWindow api w))) \<and>
     (\<forall>h w. ext g w (snd (win_IsWindowVisible api h w))) \<and>
     (\<forall>s. length (win_UTF16 api s) \<le> 4294967295) \<and>
     (\<forall>w. \<exists>h w'. nc_OpenStorageProvider api winHelloProviderPassportKSP w = ((0, h), w') \<and> ext g w w') \<and>
     (\<forall>p w. dev_has g w \<longrightarrow>
        (\<exists>h w'. nc_OpenKey api p name 0 0 w = ((0, h), w') \<and> ext g w w' \<and> dev_open g w' h)) \<and>
     (\<forall>p w. \<not> dev_has g w \<longrightarrow>
        (\<exists>h w'. nc_OpenKey api p name 0 0 w = ((0x80090016, h), w') \<and> ext g w w')) \<and>
     (\<forall>p w. \<not> dev_has g w \<longrightarrow>
        (\<exists>h w'. nc_CreatePersistedKey api p winHelloNCryptRSAAlgorithm (Some name) 0 0 w = ((0, h), w') \<and>
           ext g w w' \<and> dev_open g w' h)) \<and>
     (\<forall>h pr v w. ext g w (snd (nc_SetProperty api h pr v 0 w)) \<and>
        (pr \<in> passport_properties \<longrightarrow> dev_open g w h \<longrightarrow> fst (nc_SetProperty api h pr v 0 w) = 0)) \<and>
     (\<forall>h w. dev_open g w h \<longrightarrow>
        (\<exists>w'. nc_FinalizeKey api h 0 w = (0, w') \<and> dev_has g w' \<and> dev_other g w' = dev_other g w)) \<and>
     (\<forall>h w. \<exists>w'. nc_FreeObject api h w = (0, w') \<and> kept g w w') \<and>
     (\<forall>h cek w. dev_has g w \<longrightarrow> dev_open g w h \<longrightarrow> length cek = 32 \<longrightarrow>
        crypts g (nc_Encrypt api) h cek w (\<lambda>out. length out = 256 \<and> dev_decrypts g out = Some cek)) \<and>
     (\<forall>h wr cek w. dev_has g w \<longrightarrow> dev_open g w h \<longrightarrow> dev_decrypts g wr = Some cek \<longrightarrow> length cek = 32 \<longrightarrow>
        length wr = 256 \<longrightarrow> crypts g (nc_Decrypt api) h wr w (\<lambda>out. out = cek))"

section \<open>The calls over a lawful device\<close>

lemma ext_refl [simp]: "ext g w w" and kept_refl [simp]: "kept g w w"
  by (simp_all add: ext_def kept_def)

lemma ext_trans: "ext g a b \<Longrightarrow> ext g b c \<Longrightarrow> ext g a c"
  by (auto simp: ext_def kept_def)

lemma kept_trans: "kept g a b \<Longrightarrow> kept g b c \<Longrightarrow> kept g a c"
  by (auto simp: kept_def)

lemma ext_kept: "ext g a b \<Longrightarrow> kept g a b"
  by (simp add: ext_def)

lemma ext_open: "ext g a b \<Longrightarrow> dev_open g a h \<Longrightarrow> dev_open g b h"
  by (simp add: ext_def)

lemma law_windows:
  assumes "lawful_winapi api g name"
  shows "ext g w (snd (win_GetConsoleWindow api w))" "ext g w (snd (win_GetForegroundWindow api w))"
    "ext g w (snd (win_IsWindowVisible api h w))"
  using assms by (simp_all add: lawful_winapi_def)

lemma law_SetProperty:
  assumes "lawful_winapi api g name"
  shows "ext g w (snd (nc_SetProperty api h pr v 0 w))"
    and "pr \<in> passport_properties \<Longrightarrow> dev_open g w h \<Longrightarrow> fst (nc_SetProperty api h pr v 0 w) = 0"
  using assms by (simp_all add: lawful_winapi_def)

lemma law_name:
  assumes "lawful_winapi api g name"
  shows "utf16_ok name" "name \<noteq> []" "dev_uid g \<noteq> []" "length (win_UTF16 api s) \<le> 4294967295"
  using assms by (simp_all add: lawful_winapi_def)

lemma law_user:
  assumes "lawful_winapi api g name"
  shows "\<exists>w'. win_CurrentUid api w = (Inr (dev_uid g), w') \<and> ext g w w'"
  using assms by (simp add: lawful_winapi_def)

lemma law_provider:
  assumes "lawful_winapi api g name"
  shows "\<exists>h w'. nc_OpenStorageProvider api winHelloProviderPassportKSP w = ((0, h), w') \<and> ext g w w'"
  using assms by (simp add: lawful_winapi_def)

lemma law_OpenKey:
  assumes "lawful_winapi api g name"
  shows "dev_has g w \<Longrightarrow>
      \<exists>h w'. nc_OpenKey api p name 0 0 w = ((0, h), w') \<and> ext g w w' \<and> dev_open g w' h"
    and "\<not> dev_has g w \<Longrightarrow>
      \<exists>h w'. nc_OpenKey api p name 0 0 w = ((0x80090016, h), w') \<and> ext g w w'"
  using assms by (simp_all add: lawful_winapi_def)

lemma law_Create:
  assumes "lawful_winapi api g name" "\<not> dev_has g w"
  shows "\<exists>h w'. nc_CreatePersistedKey api p winHelloNCryptRSAAlgorithm (Some name) 0 0 w = ((0, h), w') \<and>
    ext g w w' \<and> dev_open g w' h"
  using assms by (simp add: lawful_winapi_def)

lemma law_Finalize:
  assumes "lawful_winapi api g name" "dev_open g w h"
  shows "\<exists>w'. nc_FinalizeKey api h 0 w = (0, w') \<and> dev_has g w' \<and> dev_other g w' = dev_other g w"
  using assms by (simp add: lawful_winapi_def)

lemma law_Free:
  assumes "lawful_winapi api g name"
  shows "\<exists>w'. nc_FreeObject api h w = (0, w') \<and> kept g w w'"
  using assms by (simp add: lawful_winapi_def)

lemma law_crypts:
  assumes "lawful_winapi api g name" "dev_has g w" "dev_open g w h"
  shows "length cek = 32 \<Longrightarrow> crypts g (nc_Encrypt api) h cek w
      (\<lambda>out. length out = 256 \<and> dev_decrypts g out = Some cek)"
    and "dev_decrypts g wr = Some cek \<Longrightarrow> length cek = 32 \<Longrightarrow> length wr = 256 \<Longrightarrow>
      crypts g (nc_Decrypt api) h wr w (\<lambda>out. out = cek)"
  using assms by (simp_all add: lawful_winapi_def)

lemma parent_ext:
  assumes "lawful_winapi api g name"
  shows "ext g w (snd (winHelloParentHWND api w))"
proof -
  obtain c w1 where c: "win_GetConsoleWindow api w = (c, w1)" by fastforce
  obtain v w2 where v: "win_IsWindowVisible api c w1 = (v, w2)" by fastforce
  have 1: "ext g w w1" "ext g w1 w2"
    using law_windows(1) [OF assms, of w] law_windows(3) [OF assms, of w1 c] c v by simp_all
  have fg: "ext g u (snd (win_GetForegroundWindow api u))" for u
    by (rule law_windows(2) [OF assms])
  show ?thesis
    using 1 c v ext_trans [OF 1] ext_trans [OF ext_trans [OF 1] fg] ext_trans [OF 1(1) fg]
    by (simp add: winHelloParentHWND_def visibleConsoleWindow_def winHelloIsWindowVisible_def
        foregroundWindow_def)
qed

lemma set_property_ext:
  assumes "lawful_winapi api g name"
  shows "ext g w (snd (winHelloNCryptSetProperty api h pr v 0 w))"
  using law_SetProperty(1) [OF assms, of w h pr v]
  by (auto simp: winHelloNCryptSetProperty_def split: option.splits prod.splits)

lemma set_property_ok:
  assumes "lawful_winapi api g name" "pr \<in> passport_properties" "dev_open g w h"
    "length v \<le> 4294967295"
  shows "\<exists>w'. winHelloNCryptSetProperty api h pr v 0 w = (Inr (), w') \<and> ext g w w'"
proof -
  obtain st w' where s: "nc_SetProperty api h pr v 0 w = (st, w')" by fastforce
  have "st = 0" "ext g w w'"
    using law_SetProperty(1) [OF assms(1), of w h pr v] law_SetProperty(2) [OF assms(1-3), of v] s by simp_all
  moreover have "utf16_ok pr"
    using assms(2) by (auto simp: passport_properties_def ncrypt_properties utf16_ok_def)
  ultimately show ?thesis
    using s assms(4)
    by (simp add: winHelloNCryptSetProperty_def winHelloCheckDWORDLength_def winHelloNCryptError_def)
qed

lemma set_hwnd_ext:
  assumes "lawful_winapi api g name"
  shows "ext g w (snd (winHelloSetWindowHandleIfPresent api h hwnd w))"
proof -
  obtain x w1 where x: "(if hwnd = 0 then winHelloParentHWND api w else (hwnd, w)) = (x, w1)"
    by fastforce
  then have 1: "ext g w w1" using parent_ext [OF assms, of w] by (auto split: if_splits)
  obtain r w2 where
    s: "winHelloNCryptSetProperty api h winHelloNCryptWindowHandleProperty (le_bytes 8 x) 0 w1 = (r, w2)"
    by fastforce
  then have "ext g w1 w2" using set_property_ext [OF assms, of w1] by (metis snd_conv)
  from ext_trans [OF 1 this] 1 x s show ?thesis
    by (cases r) (simp_all add: winHelloSetWindowHandleIfPresent_def winHelloNCryptSetHandleProperty_def
        call_simps)
qed

lemma ignore_hwnd:
  assumes law: "lawful_winapi api g name"
    and k: "\<And>w1. ext g w w1 \<Longrightarrow> \<exists>x w2. k w1 = (Inr x, w2) \<and> kept g w1 w2 \<and> P x w2"
  shows "\<exists>x w2. go_ignore (winHelloSetWindowHandleIfPresent api h hwnd) k w = (Inr x, w2) \<and>
    kept g w w2 \<and> P x w2"
proof -
  let ?w1 = "snd (winHelloSetWindowHandleIfPresent api h hwnd w)"
  have e: "ext g w ?w1" by (rule set_hwnd_ext [OF law])
  from k [OF e] obtain x w2 where "k ?w1 = (Inr x, w2)" "kept g ?w1 w2" "P x w2" by blast
  with kept_trans [OF ext_kept [OF e]] show ?thesis by (auto simp: go_ignore_def)
qed

lemma free_kept:
  assumes "lawful_winapi api g name"
  shows "\<exists>w'. winHelloNCryptFreeObject api h w = (Inr (), w') \<and> kept g w w'"
  using law_Free [OF assms, of h w] by (auto simp: winHelloNCryptFreeObject_def)

lemma defer_kept:
  assumes law: "lawful_winapi api g name" and m: "\<exists>x w'. m w = (Inr x, w') \<and> kept g w w' \<and> P x"
  shows "\<exists>x w'. go_defer (winHelloNCryptFreeObject api h) m w = (Inr x, w') \<and> kept g w w' \<and> P x"
proof -
  from m obtain x w1 where 1: "m w = (Inr x, w1)" "kept g w w1" "P x" by blast
  from free_kept [OF law, of h w1] obtain w2 where
    "winHelloNCryptFreeObject api h w1 = (Inr (), w2)" "kept g w1 w2" by blast
  with 1 kept_trans [OF 1(2)] show ?thesis by (auto simp: go_defer_def)
qed

lemma provider_ok:
  assumes "lawful_winapi api g name"
  shows "\<exists>h w'. winHelloNCryptOpenStorageProvider api winHelloProviderPassportKSP w = (Inr h, w') \<and>
    ext g w w'"
proof -
  have "utf16_ok winHelloProviderPassportKSP"
    by (simp add: winHelloProviderPassportKSP_def utf16_ok_def)
  with law_provider [OF assms, of w] show ?thesis
    by (auto simp: winHelloNCryptOpenStorageProvider_def)
qed

lemma open_key_ok:
  assumes "lawful_winapi api g name" "dev_has g w"
  shows "\<exists>h w'. winHelloNCryptOpenKey api p name 0 0 w = (Inr h, w') \<and> ext g w w' \<and> dev_open g w' h"
  using law_OpenKey(1) [OF assms, of p] law_name(1) [OF assms(1)]
  by (auto simp: winHelloNCryptOpenKey_def)

lemma crypt_ok:
  assumes "crypts g proc h input w R" "input \<noteq> []" "length input \<le> 4294967295"
  shows "\<exists>out w'. winHelloNCryptCrypt proc h input 2 w = (Inr out, w') \<and> ext g w w' \<and> R out"
proof -
  from assms(1) obtain n b w1 m out w2 where
    p: "proc h input 0 2 w = ((0, n, b), w1)" "ext g w w1"
      "proc h input n 2 w1 = ((0, m, out), w2)" "ext g w1 w2" "m \<le> n" "length out = unat m" "R out"
    by (auto simp: crypts_def)
  have "unat n < 2 ^ LENGTH(32)" by (rule unsigned_less)
  then have "unat n \<le> 4294967295" by simp
  moreover have "unat m \<le> unat n" using p(5) by (simp add: word_le_nat_alt)
  moreover have "take (unat m) (filled (unat n) out) = out"
    using p(6) \<open>unat m \<le> unat n\<close> by (simp add: filled_def min_def)
  ultimately show ?thesis
    using p assms(2,3) ext_trans [OF p(2,4)]
    by (simp add: winHelloNCryptCrypt_def winHelloCheckDWORDLength_def winHelloNCryptError_def Let_def)
qed

section \<open>The Passport key as a wrapper\<close>

lemma with_key_ok:
  assumes law: "lawful_winapi api g name" and has: "dev_has g w"
    and run: "\<And>w1 h. dev_has g w1 \<Longrightarrow> dev_open g w1 h \<Longrightarrow>
      \<exists>x w2. run \<lparr>pk_keyName = name, pk_hwnd = hwnd\<rparr> h w1 = (Inr x, w2) \<and> kept g w1 w2 \<and> P x"
  shows "\<exists>x w'. withOperationKey api (Some \<lparr>pk_keyName = name, pk_hwnd = hwnd\<rparr>) run w = (Inr x, w') \<and>
    kept g w w' \<and> P x"
proof -
  let ?key = "\<lparr>pk_keyName = name, pk_hwnd = hwnd\<rparr>"
  from provider_ok [OF law, of w] obtain p w1 where
    p: "winHelloNCryptOpenStorageProvider api winHelloProviderPassportKSP w = (Inr p, w1)" "ext g w w1"
    by blast
  let ?open = "go_tryE open_key_error (winHelloNCryptOpenKey api p name 0 0) (\<lambda>openedKey.
    go_defer (winHelloNCryptFreeObject api openedKey) (run ?key openedKey))"
  have inner: "\<exists>x w3. ?open w2 = (Inr x, w3) \<and> kept g w2 w3 \<and> P x" if e: "ext g w1 w2" for w2
  proof -
    have "dev_has g w2" using has p(2) e by (simp add: ext_def kept_def)
    from open_key_ok [OF law this, of p] obtain h w3 where
      o: "winHelloNCryptOpenKey api p name 0 0 w2 = (Inr h, w3)" "ext g w2 w3" "dev_open g w3 h"
      by blast
    have "dev_has g w3" using \<open>dev_has g w2\<close> o(2) by (simp add: ext_def kept_def)
    from defer_kept [OF law, of "run ?key h" w3 P h] run [OF this o(3)] obtain x w4 where
      "go_defer (winHelloNCryptFreeObject api h) (run ?key h) w3 = (Inr x, w4)" "kept g w3 w4" "P x"
      by blast
    with o(1) kept_trans [OF ext_kept [OF o(2)]] show ?thesis by (auto simp: call_simps)
  qed
  from ignore_hwnd [OF law, of w1 ?open "\<lambda>x _. P x" p hwnd] inner
  have "\<exists>x w2. go_ignore (winHelloSetWindowHandleIfPresent api p hwnd) ?open w1 = (Inr x, w2) \<and>
    kept g w1 w2 \<and> P x" by blast
  with defer_kept [OF law, of "go_ignore (winHelloSetWindowHandleIfPresent api p hwnd) ?open" w1 P p]
  obtain x w2 where
    d: "go_defer (winHelloNCryptFreeObject api p)
      (go_ignore (winHelloSetWindowHandleIfPresent api p hwnd) ?open) w1 = (Inr x, w2)"
    "kept g w1 w2" "P x" by blast
  have "name \<noteq> []" using law_name(2) [OF law] .
  then have "withOperationKey api (Some ?key) run w = (Inr x, w2)"
    using p(1) d(1) by (simp add: withOperationKey_def call_simps)
  with d kept_trans [OF ext_kept [OF p(2)] d(2)] show ?thesis by blast
qed

lemma PKCS1_flag: "winHelloNCryptPadPKCS1Flag OR 0 = 2" "winHelloNCryptPadPKCS1Flag = 2"
  by (simp_all add: winHelloNCryptPadPKCS1Flag_def)

text \<open>What an RSA key of 2048 bits wraps has 256 bytes.\<close>

definition key_unwraps :: "('w, 'o) device \<Rightarrow> bytes \<Rightarrow> bytes option" where
  "key_unwraps g wr = (if length wr = 256 then dev_decrypts g wr else None)"

lemma key_unwraps_Some:
  "key_unwraps g wr = Some cek \<longleftrightarrow> length wr = 256 \<and> dev_decrypts g wr = Some cek"
  by (simp add: key_unwraps_def)

lemma passport_wrap_ok:
  assumes law: "lawful_winapi api g name" and has: "dev_has g w" and len: "length cek = 32"
  shows "\<exists>wr w'. passport_WrapKey api (Some \<lparr>pk_keyName = name, pk_hwnd = hwnd\<rparr>) cek w = (Inr wr, w') \<and>
    kept g w w' \<and> key_unwraps g wr = Some cek"
proof -
  let ?run = "\<lambda>key handle. go_ignore (winHelloSetWindowHandleIfPresent api handle (pk_hwnd key))
    (go_tryE (wrap_err ''wrap CEK with Passport key'')
      (winHelloNCryptEncrypt api handle cek winHelloNCryptPadPKCS1Flag) go_return)"
  have "\<exists>wr w2. ?run \<lparr>pk_keyName = name, pk_hwnd = hwnd\<rparr> h w1 = (Inr wr, w2) \<and> kept g w1 w2 \<and>
      key_unwraps g wr = Some cek" if "dev_has g w1" "dev_open g w1 h" for w1 h
  proof (rule ignore_hwnd [OF law, where P = "\<lambda>wr _. key_unwraps g wr = Some cek"])
    fix w2 assume e: "ext g w1 w2"
    then have "dev_has g w2" "dev_open g w2 h" using that by (auto simp: ext_def kept_def)
    from crypt_ok [OF law_crypts(1) [OF law this len]] len
    obtain wr w3 where "winHelloNCryptCrypt (nc_Encrypt api) h cek 2 w2 = (Inr wr, w3)"
      "ext g w2 w3" "length wr = 256 \<and> dev_decrypts g wr = Some cek" by fastforce
    then show "\<exists>wr w3. go_tryE (wrap_err ''wrap CEK with Passport key'')
        (winHelloNCryptEncrypt api h cek winHelloNCryptPadPKCS1Flag) go_return w2 = (Inr wr, w3) \<and>
      kept g w2 w3 \<and> key_unwraps g wr = Some cek"
      by (auto simp: call_simps winHelloNCryptEncrypt_def PKCS1_flag ext_kept key_unwraps_Some)
  qed
  from with_key_ok [OF law has, where run = ?run and hwnd = hwnd, OF this] len
  show ?thesis unfolding passport_WrapKey_def by (simp add: winHelloCEKSize_def)
qed

lemma passport_unwrap_ok:
  assumes law: "lawful_winapi api g name" and has: "dev_has g w" and len: "length cek = 32"
    and un: "key_unwraps g wr = Some cek" and ctx: "utf16_ok ctx"
  shows "\<exists>w'. passport_UnwrapKey api (Some \<lparr>pk_keyName = name, pk_hwnd = hwnd\<rparr>) wr ctx w = (Inr cek, w') \<and>
    kept g w w'"
proof -
  let ?ctx = "if ctx = '''' then winHelloPassportDefaultUnwrapContext else ctx"
  let ?run = "\<lambda>key handle. go_tryE (wrap_err ''prepare Passport key for unwrap'')
     (winHelloPreparePassportUnwrap api handle (pk_hwnd key) ctx) (\<lambda>_.
      go_tryE (wrap_err ''unwrap CEK with Passport key'')
        (winHelloNCryptDecrypt api handle wr (winHelloNCryptPadPKCS1Flag OR 0)) (\<lambda>cek.
      if length cek \<noteq> winHelloCEKSize
      then go_fail (Wrapf ''after unwrap'' [errWinHelloInvalidCEKSize]) else go_return cek))"
  have utf16: "utf16_ok ?ctx"
    using ctx by (simp add: winHelloPassportDefaultUnwrapContext_def utf16_ok_def)
  have prep: "\<exists>w2. winHelloPreparePassportUnwrap api h hwnd ctx w1 = (Inr (), w2) \<and> ext g w1 w2"
    if o: "dev_open g w1 h" for w1 h
  proof -
    let ?w2 = "snd (winHelloSetWindowHandleIfPresent api h hwnd w1)"
    have e: "ext g w1 ?w2" by (rule set_hwnd_ext [OF law])
    from set_property_ok [OF law, of winHelloNCryptUseContextProperty ?w2 h "win_UTF16 api ?ctx"]
      ext_open [OF e o] law_name(4) [OF law] obtain w3 where
      3: "winHelloNCryptSetProperty api h winHelloNCryptUseContextProperty (win_UTF16 api ?ctx) 0 ?w2 =
        (Inr (), w3)" "ext g ?w2 w3" by (auto simp: passport_properties_def)
    from set_property_ok [OF law, of winHelloNCryptPinCacheIsGestureRequiredProperty w3 h
        "le_bytes 4 (1 :: 32 word)"] ext_open [OF 3(2) ext_open [OF e o]] obtain w4 where
      4: "winHelloNCryptSetProperty api h winHelloNCryptPinCacheIsGestureRequiredProperty
        (le_bytes 4 (1 :: 32 word)) 0 w3 = (Inr (), w4)" "ext g w3 w4"
      by (auto simp: passport_properties_def le_bytes_def)
    from 3 4 utf16 ext_trans [OF ext_trans [OF e 3(2)] 4(2)] show ?thesis
      by (simp add: winHelloPreparePassportUnwrap_def go_ignore_def Let_def call_simps
          winHelloNCryptSetStringProperty_def winHelloNCryptSetUint32Property_def)
  qed
  have "\<exists>x w2. ?run \<lparr>pk_keyName = name, pk_hwnd = hwnd\<rparr> h w1 = (Inr x, w2) \<and> kept g w1 w2 \<and> x = cek"
    if "dev_has g w1" "dev_open g w1 h" for w1 h
  proof -
    from prep [OF that(2)] obtain w2 where
      2: "winHelloPreparePassportUnwrap api h hwnd ctx w1 = (Inr (), w2)" "ext g w1 w2" by blast
    have "dev_has g w2" "dev_open g w2 h" using that 2(2) by (auto simp: ext_def kept_def)
    from crypt_ok [OF law_crypts(2) [OF law this]] un len
    obtain w3 where 3: "winHelloNCryptCrypt (nc_Decrypt api) h wr 2 w2 = (Inr cek, w3)" "ext g w2 w3"
      by (fastforce simp: key_unwraps_Some)
    from 2 3 len ext_kept [OF ext_trans [OF 2(2) 3(2)]] show ?thesis
      by (simp add: call_simps winHelloNCryptDecrypt_def PKCS1_flag winHelloCEKSize_def)
  qed
  from with_key_ok [OF law has, where run = ?run and hwnd = hwnd and P = "\<lambda>x. x = cek", OF this]
  show ?thesis unfolding passport_UnwrapKey_def unwrapKeyWithFlags_def by simp
qed

interpretation passport: key_wrapper "passport_wrapper api \<lparr>pk_keyName = name, pk_hwnd = hwnd\<rparr>"
  "\<lambda>w. lawful_winapi api g name \<and> dev_has g w" utf16_ok "key_unwraps g" "kept g"
  for api g name hwnd
proof (unfold_locales, goal_cases)
  case (1 a b c)
  then show ?case by (rule kept_trans)
next
  case (2 w w')
  then show ?case by (simp add: kept_def)
next
  case (3 w cek)
  then show ?case
    using passport_wrap_ok [of api g name w cek hwnd]
    by (fastforce simp: passport_wrapper_def key_unwraps_Some)
next
  case (4 w wr cek ctx)
  then show ?case
    using passport_unwrap_ok [of api g name w cek wr ctx hwnd] by (simp add: passport_wrapper_def)
qed

section \<open>Opening and creating the key over a lawful device\<close>

lemma key_name_ok:
  assumes "lawful_winapi api g (device_key g ln)" "validateWinHelloPassportLogicalName ln = None"
  shows "\<exists>w'. winHelloPassportKeyName api ln w = (Inr (device_key g ln), w') \<and> ext g w w'"
  using law_user [OF assms(1), of w] law_name(3) [OF assms(1)] assms(2)
  by (auto simp: winHelloPassportKeyName_def call_simps device_key_def)

lemma open_provider_ok:
  assumes law: "lawful_winapi api g (device_key g ln)"
    and ln: "validateWinHelloPassportLogicalName ln = None"
  shows "\<exists>p w'. winHelloOpenPassportProvider api ln hwnd w = (Inr (p, device_key g ln), w') \<and> ext g w w'"
proof -
  from key_name_ok [OF assms, of w] obtain w1 where
    1: "winHelloPassportKeyName api ln w = (Inr (device_key g ln), w1)" "ext g w w1" by blast
  from provider_ok [OF law, of w1] obtain p w2 where
    2: "winHelloNCryptOpenStorageProvider api winHelloProviderPassportKSP w1 = (Inr p, w2)" "ext g w1 w2"
    by blast
  have 3: "ext g w2 (snd (winHelloSetWindowHandleIfPresent api p hwnd w2))" by (rule set_hwnd_ext [OF law])
  from 1 2 ext_trans [OF ext_trans [OF 1(2) 2(2)] 3] show ?thesis
    by (simp add: winHelloOpenPassportProvider_def call_simps go_ignore_def)
qed

lemma open_passport_found:
  assumes law: "lawful_winapi api g (device_key g ln)"
    and ln: "validateWinHelloPassportLogicalName ln = None" and has: "dev_has g w"
  shows "\<exists>w'. openWinHelloPassportKey api ln hwnd w =
    (Inr \<lparr>pk_keyName = device_key g ln, pk_hwnd = hwnd\<rparr>, w') \<and> kept g w w'"
proof -
  from open_provider_ok [OF law ln, of hwnd w] obtain p w1 where
    1: "winHelloOpenPassportProvider api ln hwnd w = (Inr (p, device_key g ln), w1)" "ext g w w1" by blast
  then have "dev_has g w1" using has by (simp add: ext_def kept_def)
  from open_key_ok [OF law this, of p] obtain h w2 where
    2: "winHelloNCryptOpenKey api p (device_key g ln) 0 0 w1 = (Inr h, w2)" "ext g w1 w2" by blast
  from free_kept [OF law, of h w2] obtain w3 where
    3: "winHelloNCryptFreeObject api h w2 = (Inr (), w3)" "kept g w2 w3" by blast
  from free_kept [OF law, of p w3] obtain w4 where
    4: "winHelloNCryptFreeObject api p w3 = (Inr (), w4)" "kept g w3 w4" by blast
  have "kept g w w4"
    using kept_trans [OF ext_kept [OF ext_trans [OF 1(2) 2(2)]] kept_trans [OF 3(2) 4(2)]] .
  with 1 2 3 4 show ?thesis
    by (simp add: openWinHelloPassportKey_def call_simps go_defer_def)
qed

lemma open_passport_missing:
  assumes law: "lawful_winapi api g (device_key g ln)"
    and ln: "validateWinHelloPassportLogicalName ln = None" and has: "\<not> dev_has g w"
  shows "\<exists>w'. openWinHelloPassportKey api ln hwnd w = (Inl errWinHelloPassportKeyNotFound, w') \<and>
    kept g w w'"
proof -
  from open_provider_ok [OF law ln, of hwnd w] obtain p w1 where
    1: "winHelloOpenPassportProvider api ln hwnd w = (Inr (p, device_key g ln), w1)" "ext g w w1" by blast
  then have "\<not> dev_has g w1" using has by (simp add: ext_def kept_def)
  from law_OpenKey(2) [OF law this, of p] obtain h w2 where
    "nc_OpenKey api p (device_key g ln) 0 0 w1 = ((0x80090016, h), w2)" "ext g w1 w2" by blast
  then have 2: "winHelloNCryptOpenKey api p (device_key g ln) 0 0 w1 = (Inl errWinHelloNCryptBadKeyset, w2)"
    "ext g w1 w2"
    using law_name(1) [OF law]
    by (simp_all add: winHelloNCryptOpenKey_def nc_result_def winHelloNCryptError_def
        errWinHelloNCryptBadKeyset_def isWinHelloNCryptSetupRequired_def
        errWinHelloNCryptNotSupported_def errWinHelloNCryptDeviceNotReady_def)
  from free_kept [OF law, of p w2] obtain w3 where
    3: "winHelloNCryptFreeObject api p w2 = (Inr (), w3)" "kept g w2 w3" by blast
  have "kept g w w3" using kept_trans [OF ext_kept [OF ext_trans [OF 1(2) 2(2)]] 3(2)] .
  with 1 2 3 show ?thesis
    by (simp add: openWinHelloPassportKey_def call_simps go_defer_def open_key_error_def
        isWinHelloNCryptKeyNotFound_def)
qed

lemma initialize_ok:
  assumes law: "lawful_winapi api g name" and o: "dev_open g w h"
  shows "\<exists>w'. winHelloInitializePassportKey api h hwnd w = (Inr (), w') \<and> ext g w w'"
proof -
  let ?w1 = "snd (winHelloSetWindowHandleIfPresent api h hwnd w)"
  have 1: "ext g w ?w1" by (rule set_hwnd_ext [OF law])
  have word: "\<exists>w'. winHelloNCryptSetUint32Property api h pr v u = (Inr (), w') \<and> ext g u w'"
    if "pr \<in> passport_properties" "ext g w u" for pr v u
    using set_property_ok [OF law that(1) ext_open [OF that(2) o], of "le_bytes 4 v"]
    by (simp add: winHelloNCryptSetUint32Property_def le_bytes_def)
  from word [of winHelloNCryptLengthProperty, OF _ 1] obtain w2 where
    2: "winHelloNCryptSetUint32Property api h winHelloNCryptLengthProperty winHelloPassportKeyBits ?w1 =
      (Inr (), w2)" "ext g ?w1 w2" by (auto simp: passport_properties_def)
  have e2: "ext g w w2" using ext_trans [OF 1 2(2)] .
  from word [of winHelloNCryptKeyUsageProperty, OF _ e2] obtain w3 where
    3: "winHelloNCryptSetUint32Property api h winHelloNCryptKeyUsageProperty
      winHelloNCryptAllowDecryptFlag w2 = (Inr (), w3)" "ext g w2 w3" by (auto simp: passport_properties_def)
  have e3: "ext g w w3" using ext_trans [OF e2 3(2)] .
  from word [of winHelloNCryptNgcCacheTypeProperty, OF _ e3] obtain w4 where
    4: "winHelloNCryptSetUint32Property api h winHelloNCryptNgcCacheTypeProperty
      winHelloNCryptNgcCacheTypeAuthMandatory w3 = (Inr (), w4)" "ext g w3 w4"
    by (auto simp: passport_properties_def)
  have e4: "ext g w w4" using ext_trans [OF e3 4(2)] .
  from set_property_ok [OF law, of winHelloNCryptUseContextProperty w4 h
      "win_UTF16 api winHelloPassportCreateContext"] ext_open [OF e4 o] law_name(4) [OF law]
  obtain w5 where
    5: "winHelloNCryptSetProperty api h winHelloNCryptUseContextProperty
      (win_UTF16 api winHelloPassportCreateContext) 0 w4 = (Inr (), w5)" "ext g w4 w5"
    by (auto simp: passport_properties_def)
  have "utf16_ok winHelloPassportCreateContext"
    by (simp add: winHelloPassportCreateContext_def utf16_ok_def)
  with 2 3 4 5 ext_trans [OF e4 5(2)] show ?thesis
    by (simp add: winHelloInitializePassportKey_def go_ignore_def call_simps
        winHelloSetPassportNgcCacheType_def winHelloNCryptSetStringProperty_def)
qed

lemma ensure_passport:
  assumes law: "lawful_winapi api g (device_key g ln)"
    and ln: "validateWinHelloPassportLogicalName ln = None"
  shows "\<exists>w'. ensureWinHelloPassportKey api ln hwnd w =
      (Inr \<lparr>pk_keyName = device_key g ln, pk_hwnd = hwnd\<rparr>, w') \<and>
    dev_has g w' \<and> dev_other g w' = dev_other g w"
proof (cases "dev_has g w")
  case True
  from open_passport_found [OF law ln True, of hwnd] True show ?thesis
    by (auto simp: ensureWinHelloPassportKey_def kept_def)
next
  case False
  let ?name = "device_key g ln"
  from open_passport_missing [OF law ln False, of hwnd] obtain w0 where
    0: "openWinHelloPassportKey api ln hwnd w = (Inl errWinHelloPassportKeyNotFound, w0)" "kept g w w0"
    by blast
  from open_provider_ok [OF law ln, of hwnd w0] obtain p w1 where
    1: "winHelloOpenPassportProvider api ln hwnd w0 = (Inr (p, ?name), w1)" "ext g w0 w1" by blast
  have "\<not> dev_has g w1" using False 0(2) 1(2) by (simp add: ext_def kept_def)
  from law_Create [OF law this, of p] obtain h w2 where
    c: "nc_CreatePersistedKey api p winHelloNCryptRSAAlgorithm (Some ?name) 0 0 w1 = ((0, h), w2)"
      "ext g w1 w2" "dev_open g w2 h" by blast
  have "utf16_ok winHelloNCryptRSAAlgorithm" by (simp add: winHelloNCryptRSAAlgorithm_def utf16_ok_def)
  with c law_name [OF law] have
    2: "winHelloNCryptCreatePersistedKey api p winHelloNCryptRSAAlgorithm ?name 0 0 w1 = (Inr h, w2)"
    by (simp add: winHelloNCryptCreatePersistedKey_def)
  from initialize_ok [OF law c(3), of hwnd] obtain w3 where
    3: "winHelloInitializePassportKey api h hwnd w2 = (Inr (), w3)" "ext g w2 w3" by blast
  from law_Finalize [OF law ext_open [OF 3(2) c(3)]] obtain w4 where
    4: "nc_FinalizeKey api h 0 w3 = (0, w4)" "dev_has g w4" "dev_other g w4 = dev_other g w3" by blast
  from free_kept [OF law, of h w4] obtain w5 where
    5: "winHelloNCryptFreeObject api h w4 = (Inr (), w5)" "kept g w4 w5" by blast
  from free_kept [OF law, of p w5] obtain w6 where
    6: "winHelloNCryptFreeObject api p w5 = (Inr (), w6)" "kept g w5 w6" by blast
  have "ensureWinHelloPassportKey api ln hwnd w = (Inr \<lparr>pk_keyName = ?name, pk_hwnd = hwnd\<rparr>, w6)"
    using 0(1) 1(1) 2 3(1) 4(1) 5(1) 6(1)
    by (simp add: ensureWinHelloPassportKey_def call_simps or_free_def winHelloNCryptFinalizeKey_def Let_def)
  moreover have "dev_has g w6" "dev_other g w6 = dev_other g w"
    using 0(2) 1(2) c(2) 3(2) 4(2,3) 5(2) 6(2) by (simp_all add: ext_def kept_def)
  ultimately show ?thesis by blast
qed

end
