(* ===== verification/WH_Backend.thy ===== *)
theory WH_Backend
  imports WH_Device Wincred
begin

text \<open>
  \<open>winhello/store.go\<close>, \<open>winhello/backend.go\<close> and \<open>winhello.go\<close>: envelopes are kept in the Windows
  Credential Manager under names of their own, encrypted with the Passport key that the backend
  opens at the first read and creates at the first write; the adapter in package \<open>keyring\<close>
  translates its error for a missing item.
\<close>

section \<open>The store of envelopes\<close>

definition winHelloWinCredPrefix :: string where "winHelloWinCredPrefix = ''keyring-winhello''"

abbreviation WH_ErrKeyNotFound :: goerr where "WH_ErrKeyNotFound \<equiv> Sentinel V_WH_ErrKeyNotFound"

record winHelloWinCredStore =
  st_serviceName :: string

definition newWinHelloWinCredStore :: "string \<Rightarrow> winHelloWinCredStore" where
  "newWinHelloWinCredStore serviceName =
     \<lparr>st_serviceName = (if serviceName = '''' then ''default'' else serviceName)\<rparr>"

definition store_credentialName :: "winHelloWinCredStore \<Rightarrow> string \<Rightarrow> string" where
  "store_credentialName s key = winHelloWinCredPrefix @ '':'' @ st_serviceName s @ '':'' @ key"

text \<open>The adapters through which the store uses credentials of the \<open>wincred\<close> library.\<close>

record winHelloGenericCredentialAdapter =
  ad_credential :: GenericCredential

record winHelloListEntryAdapter =
  le_targetName :: string

definition adapter_Write :: "'w wincred_api \<Rightarrow> winHelloGenericCredentialAdapter \<Rightarrow> ('w, unit) call" where
  "adapter_Write api a = WriteCredential api (ad_credential a)"

definition adapter_Delete :: "'w wincred_api \<Rightarrow> winHelloGenericCredentialAdapter \<Rightarrow> ('w, unit) call" where
  "adapter_Delete api a = DeleteCredential api (ad_credential a)"

definition adapter_Blob :: "winHelloGenericCredentialAdapter \<Rightarrow> slice" where
  "adapter_Blob a = CredentialBlob (ad_credential a)"

definition adapter_SetBlob ::
  "winHelloGenericCredentialAdapter \<Rightarrow> slice \<Rightarrow> winHelloGenericCredentialAdapter" where
  "adapter_SetBlob a data = a\<lparr>ad_credential := (ad_credential a)\<lparr>CredentialBlob := data\<rparr>\<rparr>"

definition adapter_TargetName :: "winHelloGenericCredentialAdapter \<Rightarrow> string" where
  "adapter_TargetName a = TargetName (ad_credential a)"

definition entry_TargetName :: "winHelloListEntryAdapter \<Rightarrow> string" where
  "entry_TargetName a = le_targetName a"

text \<open>The default values of the function variables over the \<open>wincred\<close> library.\<close>

definition winHelloGetGenericCredentialFunc ::
  "'w wincred_api \<Rightarrow> string \<Rightarrow> ('w, winHelloGenericCredentialAdapter) call" where
  "winHelloGetGenericCredentialFunc api target =
     go_try (GetGenericCredential api target) (\<lambda>cred. go_return \<lparr>ad_credential = cred\<rparr>)"

definition winHelloNewGenericCredentialFunc ::
  "'w wincred_api \<Rightarrow> string \<Rightarrow> winHelloGenericCredentialAdapter" where
  "winHelloNewGenericCredentialFunc api target =
     (let cred = NewGenericCredential api target;
          cred = cred\<lparr>Persist := PersistLocalMachine api\<rparr>
      in \<lparr>ad_credential = cred\<rparr>)"

definition winHelloListCredentialsFunc ::
  "'w wincred_api \<Rightarrow> ('w, winHelloListEntryAdapter list) call" where
  "winHelloListCredentialsFunc api =
     go_try (ListCredentials api) (\<lambda>creds.
       go_return (map (\<lambda>cred. \<lparr>le_targetName = TargetName cred\<rparr>) creds))"

lemmas adapter_defs = adapter_Write_def adapter_Delete_def adapter_Blob_def adapter_SetBlob_def
  adapter_TargetName_def entry_TargetName_def winHelloGetGenericCredentialFunc_def
  winHelloNewGenericCredentialFunc_def winHelloListCredentialsFunc_def

definition store_Read :: "'w wincred_api \<Rightarrow> winHelloWinCredStore \<Rightarrow> string \<Rightarrow> ('w, slice) call" where
  "store_Read api s key w =
     (case winHelloGetGenericCredentialFunc api (store_credentialName s key) w of
        (Inl err, w) \<Rightarrow>
          (if errors_Is err errElementNotFound then (Inl WH_ErrKeyNotFound, w) else (Inl err, w))
      | (Inr cred, w) \<Rightarrow> (Inr (adapter_Blob cred), w))"

definition store_Write :: "'w wincred_api \<Rightarrow> winHelloWinCredStore \<Rightarrow> string \<Rightarrow> slice \<Rightarrow> ('w, unit) call" where
  "store_Write api s key data =
     (let cred = winHelloNewGenericCredentialFunc api (store_credentialName s key);
          cred = adapter_SetBlob cred data
      in adapter_Write api cred)"

definition store_Delete :: "'w wincred_api \<Rightarrow> winHelloWinCredStore \<Rightarrow> string \<Rightarrow> ('w, unit) call" where
  "store_Delete api s key w =
     (case winHelloGetGenericCredentialFunc api (store_credentialName s key) w of
        (Inl err, w) \<Rightarrow>
          (if errors_Is err errElementNotFound then (Inl WH_ErrKeyNotFound, w) else (Inl err, w))
      | (Inr cred, w) \<Rightarrow>
          (case adapter_Delete api cred w of
             (Inl err, w) \<Rightarrow>
               (if errors_Is err errElementNotFound then (Inl WH_ErrKeyNotFound, w) else (Inl err, w))
           | (Inr _, w) \<Rightarrow> (Inr (), w)))"

fun store_keys_loop :: "string \<Rightarrow> string list \<Rightarrow> winHelloListEntryAdapter list \<Rightarrow> string list" where
  "store_keys_loop pre results [] = results"
| "store_keys_loop pre results (cred # creds) =
     store_keys_loop pre
       (if HasPrefix (entry_TargetName cred) pre
        then results @ [TrimPrefix (entry_TargetName cred) pre] else results) creds"

text \<open>\<open>sort.Strings\<close> orders strings by their bytes, as \<open>sort\<close> does here.\<close>

definition store_Keys :: "'w wincred_api \<Rightarrow> winHelloWinCredStore \<Rightarrow> ('w, string list) call" where
  "store_Keys api s =
     go_try (winHelloListCredentialsFunc api) (\<lambda>creds.
       let prefix = store_credentialName s '''';
           results = store_keys_loop prefix [] creds
       in go_return (sort results))"

section \<open>The backend\<close>

definition passportDefaultLogicalName :: string where
  "passportDefaultLogicalName = ''keyring-winhello-v1''"

text \<open>What the backend talks to: Windows, the cipher, the credential manager.\<close>

record 'w wh_env =
  wh_api :: "'w winapi"
  wh_crypto :: "'w crypto_env"
  wh_creds :: "'w wincred_api"

record Backend =
  bk_serviceName :: string
  bk_store :: winHelloWinCredStore
  bk_wrapper :: "winHelloPassportKey option"
  bk_logicalName :: string
  bk_keyName :: string

type_synonym 'w backend_state = "Backend \<times> 'w"

definition New_Backend :: "'w wh_env \<Rightarrow> string \<Rightarrow> ('w, Backend) call" where
  "New_Backend env serviceName =
     (let logicalName = passportDefaultLogicalName in
      go_try (winHelloPassportKeyName (wh_api env) logicalName) (\<lambda>keyName.
        let store = newWinHelloWinCredStore serviceName in
        go_return \<lparr>bk_serviceName = st_serviceName store, bk_store = store, bk_wrapper = None,
          bk_logicalName = logicalName, bk_keyName = keyName\<rparr>))"

definition winHelloUseContext :: "string \<Rightarrow> string \<Rightarrow> string" where
  "winHelloUseContext serviceName key =
     (let serviceName = (if serviceName = '''' then ''default'' else serviceName) in
      if key = '''' then ''Unlock keyring secret for '' @ serviceName
      else ''Unlock keyring secret for '' @ key @ '' at '' @ serviceName)"

definition wrapExistingItemPassportKeyError :: "goerr \<Rightarrow> goerr" where
  "wrapExistingItemPassportKeyError err =
     (if errors_Is err WH_ErrKeyNotFound \<or> errors_Is err errWinHelloPassportKeyNotFound
      then Wrapf ''open winhello Passport key for existing item'' [errWinHelloPassportKeyNotFound]
      else wrap_err ''open winhello Passport key for existing item'' err)"

definition ensureWrapper :: "'w wh_env \<Rightarrow> ('w backend_state, winHelloPassportKey) call" where
  "ensureWrapper env = (\<lambda>(b, w).
     (case bk_wrapper b of
        Some wrapper \<Rightarrow> (Inr wrapper, (b, w))
      | None \<Rightarrow>
          (case winHelloParentHWND (wh_api env) w of (hwnd, w) \<Rightarrow>
             (case ensureWinHelloPassportKey (wh_api env) (bk_logicalName b) hwnd w of
                (Inl err, w) \<Rightarrow> (Inl err, (b, w))
              | (Inr wrapper, w) \<Rightarrow> (Inr wrapper, (b\<lparr>bk_wrapper := Some wrapper\<rparr>, w))))))"

definition openWrapper :: "'w wh_env \<Rightarrow> ('w backend_state, winHelloPassportKey) call" where
  "openWrapper env = (\<lambda>(b, w).
     (case bk_wrapper b of
        Some wrapper \<Rightarrow> (Inr wrapper, (b, w))
      | None \<Rightarrow>
          (case winHelloParentHWND (wh_api env) w of (hwnd, w) \<Rightarrow>
             (case openWinHelloPassportKey (wh_api env) (bk_logicalName b) hwnd w of
                (Inl err, w) \<Rightarrow> (Inl err, (b, w))
              | (Inr wrapper, w) \<Rightarrow> (Inr wrapper, (b\<lparr>bk_wrapper := Some wrapper\<rparr>, w))))))"

definition backend_Get :: "'w wh_env \<Rightarrow> string \<Rightarrow> ('w backend_state, bytes) call" where
  "backend_Get env key = (\<lambda>(b, w).
     (go_tryE (wrap_err ''read winhello item'') (on_world (store_Read (wh_creds env) (bk_store b) key)) (\<lambda>encoded.
      go_tryE wrapExistingItemPassportKeyError (openWrapper env) (\<lambda>wrapper.
      go_tryE (wrap_err ''decrypt winhello item'')
        (on_world (decryptWinHelloEnvelope (wh_crypto env) (bytes_of encoded)
          (winHelloAAD (bk_serviceName b) key) (bk_keyName b)
          (Some (passport_wrapper (wh_api env) wrapper))
          (winHelloUseContext (bk_serviceName b) key))) go_return))) (b, w))"

definition backend_Set :: "'w wh_env \<Rightarrow> string \<Rightarrow> slice \<Rightarrow> ('w backend_state, unit) call" where
  "backend_Set env key data = (\<lambda>(b, w).
     (go_tryE (wrap_err ''prepare winhello Passport key'') (ensureWrapper env) (\<lambda>wrapper.
      go_tryE (wrap_err ''encrypt winhello item'')
        (on_world (encryptWinHelloEnvelope (wh_crypto env) data (winHelloAAD (bk_serviceName b) key)
          (bk_keyName b) (Some (passport_wrapper (wh_api env) wrapper)))) (\<lambda>encoded.
      go_tryE (wrap_err ''write winhello item'')
        (on_world (store_Write (wh_creds env) (bk_store b) key (Some encoded))) (\<lambda>_.
      go_return ())))) (b, w))"

definition backend_Remove :: "'w wh_env \<Rightarrow> string \<Rightarrow> ('w backend_state, unit) call" where
  "backend_Remove env key = (\<lambda>(b, w).
     go_tryE (wrap_err ''remove winhello item'')
       (on_world (store_Delete (wh_creds env) (bk_store b) key)) (\<lambda>_. go_return ()) (b, w))"

definition backend_Keys :: "'w wh_env \<Rightarrow> ('w backend_state, string list) call" where
  "backend_Keys env = (\<lambda>(b, w).
     go_tryE (wrap_err ''list winhello items'') (on_world (store_Keys (wh_creds env) (bk_store b)))
       go_return (b, w))"

section \<open>The adapter\<close>

text \<open>
  \<open>gcm.Open\<close> appends to a nil slice, so an empty plaintext comes back as nil.
\<close>

definition appended :: "bytes \<Rightarrow> slice" where
  "appended b = (if b = [] then None else Some b)"

lemma bytes_of_appended [simp]: "bytes_of (appended b) = b"
  by (simp add: appended_def)

definition newWinHelloKeyring :: "'w wh_env \<Rightarrow> ('w, Backend) opener" where
  "newWinHelloKeyring env cfg = New_Backend env (ServiceName cfg)"

definition winhello_Get :: "'w wh_env \<Rightarrow> string \<Rightarrow> ('w backend_state, Item) call" where
  "winhello_Get env key s =
     (case backend_Get env key s of
        (Inl err, s) \<Rightarrow>
          (if errors_Is err WH_ErrKeyNotFound then (Inl ErrKeyNotFound, s) else (Inl err, s))
      | (Inr data, s) \<Rightarrow> (Inr (zero_Item\<lparr>Key := key, Data := appended data\<rparr>), s))"

definition winhello_GetMetadata :: "string \<Rightarrow> ('w backend_state, Metadata) call" where
  "winhello_GetMetadata key = go_fail ErrMetadataNotSupported"

definition winhello_Set :: "'w wh_env \<Rightarrow> Item \<Rightarrow> ('w backend_state, unit) call" where
  "winhello_Set env item = backend_Set env (Key item) (Data item)"

definition winhello_Remove :: "'w wh_env \<Rightarrow> string \<Rightarrow> ('w backend_state, unit) call" where
  "winhello_Remove env key s =
     (case backend_Remove env key s of
        (Inl err, s) \<Rightarrow>
          (if errors_Is err WH_ErrKeyNotFound then (Inl ErrKeyNotFound, s) else (Inl err, s))
      | (Inr _, s) \<Rightarrow> (Inr (), s))"

definition winhello_Keys :: "'w wh_env \<Rightarrow> ('w backend_state, string list) call" where
  "winhello_Keys env = backend_Keys env"

section \<open>Names and listings\<close>

interpretation wh_names: key_namespace "store_credentialName s ''''" "store_credentialName s" for s
  by unfold_locales (simp add: store_credentialName_def)

lemma store_keys_loop_eq:
  "store_keys_loop pre results creds =
     results @ map (\<lambda>t. TrimPrefix t pre) (filter (\<lambda>t. HasPrefix t pre) (map entry_TargetName creds))"
  by (induction creds arbitrary: results) simp_all

lemma listed_targets [simp]:
  "map entry_TargetName (map (\<lambda>cred. \<lparr>le_targetName = TargetName cred\<rparr>) creds) = map TargetName creds"
  by (simp add: entry_TargetName_def)

section \<open>The keyring contract\<close>

text \<open>
  Windows, cipher and credential manager behave as documented over one world; the part of the world
  that the device does not touch is the content of the credential manager, and writing credentials
  does not touch the key.
\<close>

type_synonym 'w wh_device = "('w, string \<Rightarrow> bytes option) device"

definition lawful_wh :: "'w wh_env \<Rightarrow> 'w wh_device \<Rightarrow> (bytes \<Rightarrow> bool) \<Rightarrow> bool" where
  "lawful_wh env g fits \<longleftrightarrow>
     lawful_winapi (wh_api env) g (device_key g passportDefaultLogicalName) \<and>
     lawful_crypto (wh_crypto env) (kept g) \<and>
     lawful_wincred (wh_creds env) (dev_other g) fits \<and>
     (\<forall>c w. dev_has g (snd (WriteCredential (wh_creds env) c w)) = dev_has g w \<and>
            dev_has g (snd (DeleteCredential (wh_creds env) c w)) = dev_has g w)"

record 'w wh_state =
  whs_env :: "'w wh_env"
  whs_dev :: "'w wh_device"
  whs_backend :: Backend
  whs_world :: 'w

definition wh_opened :: "'w wh_env \<Rightarrow> 'w wh_device \<Rightarrow> string \<Rightarrow> string \<Rightarrow> string \<Rightarrow> bytes \<Rightarrow> bytes option" where
  "wh_opened env g sv kn key e =
     opened (wh_crypto env) (key_unwraps g) e (winHelloAAD sv key) kn"

text \<open>
  The backend as \<open>New\<close> makes it, possibly with its key descriptor in place; and every envelope of
  the service opens under the key, which exists if there is one.
\<close>

definition backend_for :: "string \<Rightarrow> string \<Rightarrow> Backend \<Rightarrow> bool" where
  "backend_for sv kn b \<longleftrightarrow> bk_serviceName b = sv \<and> st_serviceName (bk_store b) = sv \<and>
     bk_keyName b = kn \<and> bk_logicalName b = passportDefaultLogicalName"

definition key_in_place :: "'w wh_device \<Rightarrow> string \<Rightarrow> Backend \<Rightarrow> 'w \<Rightarrow> bool" where
  "key_in_place g kn b w \<longleftrightarrow>
     (case bk_wrapper b of None \<Rightarrow> True | Some k \<Rightarrow> pk_keyName k = kn \<and> dev_has g w)"

definition envelopes_open :: "'w wh_env \<Rightarrow> 'w wh_device \<Rightarrow> string \<Rightarrow> string \<Rightarrow> Backend \<Rightarrow> 'w \<Rightarrow> bool" where
  "envelopes_open env g sv kn b w \<longleftrightarrow>
     (\<forall>key e. dev_other g w (store_credentialName (bk_store b) key) = Some e \<longrightarrow>
        dev_has g w \<and> wh_opened env g sv kn key e \<noteq> None)"

definition wh_usable :: "(bytes \<Rightarrow> bool) \<Rightarrow> string \<Rightarrow> string \<Rightarrow> 'w wh_env \<Rightarrow> 'w wh_device \<Rightarrow> Backend \<Rightarrow> 'w \<Rightarrow> bool" where
  "wh_usable fits sv kn env g b w \<longleftrightarrow>
     lawful_wh env g fits \<and> kn = device_key g passportDefaultLogicalName \<and> valid_utf8 kn \<and>
     utf16_ok sv \<and> backend_for sv kn b \<and> key_in_place g kn b w \<and> envelopes_open env g sv kn b w"

text \<open>The plaintexts of the service.\<close>

definition wh_plain ::
  "'w wh_env \<Rightarrow> 'w wh_device \<Rightarrow> string \<Rightarrow> string \<Rightarrow> winHelloWinCredStore \<Rightarrow> (string \<Rightarrow> bytes option) \<Rightarrow>
     string \<Rightarrow> (string \<times> bytes) option" where
  "wh_plain env g sv kn st creds key =
     (case creds (store_credentialName st key) of
        None \<Rightarrow> None
      | Some e \<Rightarrow> map_option (Pair key) (wh_opened env g sv kn key e))"

definition wh_view :: "string \<Rightarrow> string \<Rightarrow> 'w wh_state \<Rightarrow> string \<Rightarrow> (string \<times> bytes) option" where
  "wh_view sv kn s =
     wh_plain (whs_env s) (whs_dev s) sv kn (bk_store (whs_backend s)) (dev_other (whs_dev s) (whs_world s))"

definition wh_inv :: "(bytes \<Rightarrow> bool) \<Rightarrow> string \<Rightarrow> string \<Rightarrow> 'w wh_state \<Rightarrow> bool" where
  "wh_inv fits sv kn s = wh_usable fits sv kn (whs_env s) (whs_dev s) (whs_backend s) (whs_world s)"

text \<open>Items whose envelopes the credential manager accepts; a wrapped key has 256 bytes.\<close>

definition wh_okitem :: "(bytes \<Rightarrow> bool) \<Rightarrow> string \<Rightarrow> string \<Rightarrow> Item \<Rightarrow> bool" where
  "wh_okitem fits sv kn i \<longleftrightarrow> utf16_ok (Key i) \<and>
     (\<forall>e. envelope_for kn (winHelloAAD sv (Key i)) (length (bytes_of (Data i))) e \<longrightarrow>
        length (bytes_of (env_WrappedCEK e)) = 256 \<longrightarrow> fits (object_text (envelope_members e)))"

definition wh_lift :: "('w wh_env \<Rightarrow> ('w backend_state, 'a) call) \<Rightarrow> ('w wh_state, 'a) call" where
  "wh_lift m s =
     (case m (whs_env s) (whs_backend s, whs_world s) of
        (r, (b, w)) \<Rightarrow> (r, s\<lparr>whs_backend := b, whs_world := w\<rparr>))"

lemma default_name_valid [simp]: "validateWinHelloPassportLogicalName passportDefaultLogicalName = None"
  by (simp add: validateWinHelloPassportLogicalName_def passportDefaultLogicalName_def)

lemma context_utf16: "utf16_ok sv \<Longrightarrow> utf16_ok key \<Longrightarrow> utf16_ok (winHelloUseContext sv key)"
  by (auto simp: winHelloUseContext_def utf16_ok_def)

lemma device_key_nonempty [simp]: "device_key g ln \<noteq> []"
  by (simp add: device_key_def)

lemma wh_plain_upd:
  "wh_plain env g sv kn st (creds(store_credentialName st key := e)) =
     (wh_plain env g sv kn st creds)(key :=
        case e of None \<Rightarrow> None | Some e \<Rightarrow> map_option (Pair key) (wh_opened env g sv kn key e))"
  by (auto simp: wh_plain_def fun_eq_iff wh_names.name_inject)

lemma wh_plain_None:
  "wh_usable fits sv kn env g b w \<Longrightarrow>
     wh_plain env g sv kn (bk_store b) (dev_other g w) key = None \<longleftrightarrow>
     dev_other g w (store_credentialName (bk_store b) key) = None"
  by (auto simp: wh_plain_def wh_usable_def envelopes_open_def split: option.splits)

text \<open>Getting hold of the key.\<close>

lemma openWrapper_ok:
  assumes u: "wh_usable fits sv kn env g b w" and has: "dev_has g w"
  shows "\<exists>hwnd w'. openWrapper env (b, w) =
      (Inr \<lparr>pk_keyName = kn, pk_hwnd = hwnd\<rparr>,
       (b\<lparr>bk_wrapper := Some \<lparr>pk_keyName = kn, pk_hwnd = hwnd\<rparr>\<rparr>, w')) \<and> kept g w w'"
proof (cases "bk_wrapper b")
  case (Some k)
  with u have "k = \<lparr>pk_keyName = kn, pk_hwnd = pk_hwnd k\<rparr>" by (simp add: wh_usable_def key_in_place_def)
  moreover from Some have "b\<lparr>bk_wrapper := Some k\<rparr> = b" by simp
  ultimately show ?thesis
    using Some by (intro exI [of _ "pk_hwnd k"] exI [of _ w]) (simp add: openWrapper_def)
next
  case None
  from u have law: "lawful_winapi (wh_api env) g (device_key g passportDefaultLogicalName)"
    and kn: "kn = device_key g passportDefaultLogicalName" "bk_logicalName b = passportDefaultLogicalName"
    by (simp_all add: wh_usable_def lawful_wh_def backend_for_def)
  obtain hwnd w1 where h: "winHelloParentHWND (wh_api env) w = (hwnd, w1)" by fastforce
  then have 1: "kept g w w1" using ext_kept [OF parent_ext [OF law, of w]] by simp
  with has have "dev_has g w1" by (simp add: kept_def)
  from open_passport_found [OF law default_name_valid this, of hwnd] obtain w2 where
    "openWinHelloPassportKey (wh_api env) passportDefaultLogicalName hwnd w1 =
      (Inr \<lparr>pk_keyName = kn, pk_hwnd = hwnd\<rparr>, w2)" "kept g w1 w2" using kn by blast
  with None h kn(2) kept_trans [OF 1] show ?thesis by (auto simp: openWrapper_def)
qed

lemma ensureWrapper_ok:
  assumes u: "wh_usable fits sv kn env g b w"
  shows "\<exists>hwnd w'. ensureWrapper env (b, w) =
      (Inr \<lparr>pk_keyName = kn, pk_hwnd = hwnd\<rparr>,
       (b\<lparr>bk_wrapper := Some \<lparr>pk_keyName = kn, pk_hwnd = hwnd\<rparr>\<rparr>, w')) \<and>
    dev_has g w' \<and> dev_other g w' = dev_other g w"
proof (cases "bk_wrapper b")
  case (Some k)
  with u have "k = \<lparr>pk_keyName = kn, pk_hwnd = pk_hwnd k\<rparr>" "dev_has g w"
    by (simp_all add: wh_usable_def key_in_place_def)
  moreover from Some have "b\<lparr>bk_wrapper := Some k\<rparr> = b" by simp
  ultimately show ?thesis
    using Some by (intro exI [of _ "pk_hwnd k"] exI [of _ w]) (simp add: ensureWrapper_def)
next
  case None
  from u have law: "lawful_winapi (wh_api env) g (device_key g passportDefaultLogicalName)"
    and kn: "kn = device_key g passportDefaultLogicalName" "bk_logicalName b = passportDefaultLogicalName"
    by (simp_all add: wh_usable_def lawful_wh_def backend_for_def)
  obtain hwnd w1 where h: "winHelloParentHWND (wh_api env) w = (hwnd, w1)" by fastforce
  then have 1: "kept g w w1" using ext_kept [OF parent_ext [OF law, of w]] by simp
  from ensure_passport [OF law default_name_valid, of hwnd w1] obtain w2 where
    "ensureWinHelloPassportKey (wh_api env) passportDefaultLogicalName hwnd w1 =
      (Inr \<lparr>pk_keyName = kn, pk_hwnd = hwnd\<rparr>, w2)" "dev_has g w2" "dev_other g w2 = dev_other g w1"
    using kn by blast
  with None h kn(2) 1 show ?thesis by (auto simp: ensureWrapper_def kept_def)
qed

text \<open>The credential manager.\<close>

lemma store_Read_lawful:
  assumes "lawful_wincred api store fits"
  shows "case store w (store_credentialName s key) of
      None \<Rightarrow> store_Read api s key w = (Inl WH_ErrKeyNotFound, w)
    | Some e \<Rightarrow> \<exists>blob. store_Read api s key w = (Inr blob, w) \<and> bytes_of blob = e"
proof (cases "store w (store_credentialName s key)")
  case None
  with lawful_GetNone [OF assms None] show ?thesis
    by (simp add: store_Read_def adapter_defs call_simps errElementNotFound_def)
next
  case (Some e)
  with lawful_GetSome [OF assms Some] show ?thesis
    by (auto simp: store_Read_def adapter_defs call_simps)
qed

lemma store_Write_lawful:
  assumes "lawful_wincred api store fits" "fits e"
  shows "\<exists>w'. store_Write api s key (Some e) w = (Inr (), w') \<and>
    store w' = (store w)(store_credentialName s key \<mapsto> e)"
  using lawful_Write [OF assms(1), of "(NewGenericCredential api (store_credentialName s key))
      \<lparr>Persist := PersistLocalMachine api, CredentialBlob := Some e\<rparr>" w] assms(2)
  by (simp add: store_Write_def adapter_defs lawful_New [OF assms(1)])

lemma store_Delete_lawful:
  assumes "lawful_wincred api store fits"
  shows "case store w (store_credentialName s key) of
      None \<Rightarrow> store_Delete api s key w = (Inl WH_ErrKeyNotFound, w)
    | Some e \<Rightarrow> \<exists>w' c. store_Delete api s key w = (Inr (), w') \<and> w' = snd (DeleteCredential api c w) \<and>
        store w' = (store w)(store_credentialName s key := None)"
proof (cases "store w (store_credentialName s key)")
  case None
  with lawful_GetNone [OF assms None] show ?thesis
    by (simp add: store_Delete_def adapter_defs call_simps errElementNotFound_def)
next
  case (Some e)
  from lawful_GetSome [OF assms Some] obtain c where
    c: "GetGenericCredential api (store_credentialName s key) w = (Inr c, w)"
    "TargetName c = store_credentialName s key" by blast
  from lawful_Delete [OF assms, of w c e] Some c(2) obtain w' where
    d: "DeleteCredential api c w = (Inr (), w')"
    "store w' = (store w)(store_credentialName s key := None)" by auto
  with c(1) have "store_Delete api s key w = (Inr (), w')" "w' = snd (DeleteCredential api c w)"
    by (simp_all add: store_Delete_def adapter_defs call_simps)
  with Some d(2) show ?thesis by auto
qed

lemma store_Keys_lawful:
  assumes "lawful_wincred api store fits"
  shows "\<exists>ks. store_Keys api s w = (Inr ks, w) \<and> distinct ks \<and> sorted ks \<and>
    set ks = {key. store w (store_credentialName s key) \<noteq> None}"
proof -
  from lawful_List [OF assms, of w] obtain cs where
    cs: "ListCredentials api w = (Inr cs, w)" "distinct (map TargetName cs)"
      "set (map TargetName cs) = dom (store w)" by blast
  have "{key. store_credentialName s key \<in> set (map TargetName cs)} =
      {key. store w (store_credentialName s key) \<noteq> None}"
    unfolding cs(3) by auto
  with cs(1,2) show ?thesis
    by (simp add: store_Keys_def winHelloListCredentialsFunc_def call_simps Let_def store_keys_loop_eq
        wh_names.set_listed wh_names.distinct_listed del: set_map map_map)
qed

lemma wh_read:
  assumes u: "wh_usable fits sv kn env g b w" and key: "utf16_ok key"
    and st: "dev_other g w (store_credentialName (bk_store b) key) = Some e"
  shows "\<exists>p b' w'. wh_opened env g sv kn key e = Some p \<and>
    winhello_Get env key (b, w) = (Inr (zero_Item\<lparr>Key := key, Data := appended p\<rparr>), (b', w')) \<and>
    wh_usable fits sv kn env g b' w' \<and> bk_store b' = bk_store b \<and> dev_other g w' = dev_other g w"
proof -
  from u have law: "lawful_winapi (wh_api env) g kn" "lawful_wincred (wh_creds env) (dev_other g) fits"
    and kn: "kn = device_key g passportDefaultLogicalName" and b: "backend_for sv kn b"
    and sv: "utf16_ok sv" by (auto simp: wh_usable_def lawful_wh_def)
  from u st obtain p where has: "dev_has g w" and p: "wh_opened env g sv kn key e = Some p"
    by (auto simp: wh_usable_def envelopes_open_def)
  from store_Read_lawful [OF law(2), where w = w and s = "bk_store b" and key = key] st obtain blob where
    1: "store_Read (wh_creds env) (bk_store b) key w = (Inr blob, w)" "bytes_of blob = e" by auto
  from openWrapper_ok [OF u has] obtain hwnd w2 where
    2: "openWrapper env (b, w) = (Inr \<lparr>pk_keyName = kn, pk_hwnd = hwnd\<rparr>,
       (b\<lparr>bk_wrapper := Some \<lparr>pk_keyName = kn, pk_hwnd = hwnd\<rparr>\<rparr>, w2))" "kept g w w2" by blast
  have "lawful_winapi (wh_api env) g kn \<and> dev_has g w2"
    using law(1) has 2(2) by (simp add: kept_def)
  from passport.decrypt_opens [OF this p [unfolded wh_opened_def] _ _ context_utf16 [OF sv key], of hwnd]
  obtain w3 where
    3: "decryptWinHelloEnvelope (wh_crypto env) e (winHelloAAD sv key) kn
      (Some (passport_wrapper (wh_api env) \<lparr>pk_keyName = kn, pk_hwnd = hwnd\<rparr>))
      (winHelloUseContext sv key) w2 = (Inr p, w3)" "kept g w2 w3"
    using kn by auto
  let ?b = "b\<lparr>bk_wrapper := Some \<lparr>pk_keyName = kn, pk_hwnd = hwnd\<rparr>\<rparr>"
  have "winhello_Get env key (b, w) =
      (Inr (zero_Item\<lparr>Key := key, Data := appended p\<rparr>), (?b, w3))"
    using 1 2 3 b
    by (simp add: winhello_Get_def backend_Get_def call_simps on_world_def backend_for_def)
  moreover have "kept g w w3" using kept_trans [OF 2(2) 3(2)] .
  moreover from this has u have "wh_usable fits sv kn env g ?b w3"
    by (auto simp: wh_usable_def backend_for_def key_in_place_def envelopes_open_def kept_def)
  ultimately show ?thesis using p by (auto simp: kept_def)
qed

lemma wh_write:
  assumes u: "wh_usable fits sv kn env g b w" and ok: "wh_okitem fits sv kn i"
  shows "\<exists>e b' w'. winhello_Set env i (b, w) = (Inr (), (b', w')) \<and>
    wh_opened env g sv kn (Key i) e = Some (bytes_of (Data i)) \<and>
    wh_usable fits sv kn env g b' w' \<and> bk_store b' = bk_store b \<and>
    dev_other g w' = (dev_other g w)(store_credentialName (bk_store b) (Key i) \<mapsto> e)"
proof -
  let ?key = "Key i"
  from u have law: "lawful_winapi (wh_api env) g kn" "lawful_wincred (wh_creds env) (dev_other g) fits"
      "lawful_crypto (wh_crypto env) (kept g)"
    and put: "\<And>c w. dev_has g (snd (WriteCredential (wh_creds env) c w)) = dev_has g w"
    and kn: "kn = device_key g passportDefaultLogicalName" "valid_utf8 kn" and b: "backend_for sv kn b"
    by (auto simp: wh_usable_def lawful_wh_def)
  from ensureWrapper_ok [OF u] obtain hwnd w1 where
    1: "ensureWrapper env (b, w) = (Inr \<lparr>pk_keyName = kn, pk_hwnd = hwnd\<rparr>,
       (b\<lparr>bk_wrapper := Some \<lparr>pk_keyName = kn, pk_hwnd = hwnd\<rparr>\<rparr>, w1))"
      "dev_has g w1" "dev_other g w1 = dev_other g w" by blast
  let ?b = "b\<lparr>bk_wrapper := Some \<lparr>pk_keyName = kn, pk_hwnd = hwnd\<rparr>\<rparr>"
  from passport.encrypt_opens [OF law(3), where api = "wh_api env" and name = kn and w = w1 and
      aad = "winHelloAAD sv ?key" and keyName = kn and hwnd = hwnd and plaintext = "Data i"]
    law(1) 1(2) kn obtain e w2 where
    2: "encryptWinHelloEnvelope (wh_crypto env) (Data i) (winHelloAAD sv ?key) kn
        (Some (passport_wrapper (wh_api env) \<lparr>pk_keyName = kn, pk_hwnd = hwnd\<rparr>)) w1 =
      (Inr (object_text (envelope_members e)), w2)" "kept g w1 w2"
      "envelope_for kn (winHelloAAD sv ?key) (length (bytes_of (Data i))) e"
      "key_unwraps g (bytes_of (env_WrappedCEK e)) \<noteq> None"
      "wh_opened env g sv kn ?key (object_text (envelope_members e)) = Some (bytes_of (Data i))"
    unfolding wh_opened_def by auto
  have "length (bytes_of (env_WrappedCEK e)) = 256" using 2(4) by (auto simp: key_unwraps_Some)
  with ok 2(3) have "fits (object_text (envelope_members e))" by (simp add: wh_okitem_def)
  from store_Write_lawful [OF law(2) this, of "bk_store b" ?key w2] obtain w3 where
    3: "store_Write (wh_creds env) (bk_store b) ?key (Some (object_text (envelope_members e))) w2 =
        (Inr (), w3)"
      "dev_other g w3 = (dev_other g w2)(store_credentialName (bk_store b) ?key \<mapsto>
        object_text (envelope_members e))" by blast
  have has: "dev_has g w3"
    using put [of _ w2] 3(1) 1(2) 2(2)
    by (auto simp: store_Write_def adapter_Write_def Let_def kept_def dest!: arg_cong [where f = snd])
  have other: "dev_other g w2 = dev_other g w" using 1(3) 2(2) by (simp add: kept_def)
  have "winhello_Set env i (b, w) = (Inr (), (?b, w3))"
    using 1(1) 2(1) 3(1) b
    by (simp add: winhello_Set_def backend_Set_def call_simps on_world_def backend_for_def)
  moreover have "wh_usable fits sv kn env g ?b w3"
    using u has 2(5)
    by (auto simp: wh_usable_def backend_for_def key_in_place_def envelopes_open_def 3(2) other
        wh_names.name_inject)
  ultimately show ?thesis using 2(5) 3(2) other by auto
qed

lemma wh_delete:
  assumes u: "wh_usable fits sv kn env g b w"
  shows "case dev_other g w (store_credentialName (bk_store b) key) of
      None \<Rightarrow> winhello_Remove env key (b, w) = (Inl ErrKeyNotFound, (b, w))
    | Some e \<Rightarrow> \<exists>w'. winhello_Remove env key (b, w) = (Inr (), (b, w')) \<and> wh_usable fits sv kn env g b w' \<and>
        dev_other g w' = (dev_other g w)(store_credentialName (bk_store b) key := None)"
proof -
  from u have law: "lawful_wincred (wh_creds env) (dev_other g) fits"
    and del: "\<And>c w. dev_has g (snd (DeleteCredential (wh_creds env) c w)) = dev_has g w"
    by (simp_all add: wh_usable_def lawful_wh_def)
  show ?thesis
  proof (cases "dev_other g w (store_credentialName (bk_store b) key)")
    case None
    with store_Delete_lawful [OF law, where w = w and s = "bk_store b" and key = key] show ?thesis
      by (simp add: winhello_Remove_def backend_Remove_def call_simps on_world_def wrap_err_def
          wrap_errs_def)
  next
    case (Some e)
    with store_Delete_lawful [OF law, where w = w and s = "bk_store b" and key = key] obtain c w' where
      d: "store_Delete (wh_creds env) (bk_store b) key w = (Inr (), w')"
        "w' = snd (DeleteCredential (wh_creds env) c w)"
        "dev_other g w' = (dev_other g w)(store_credentialName (bk_store b) key := None)" by auto
    have "dev_has g w' = dev_has g w" using d(2) del by simp
    then have "wh_usable fits sv kn env g b w'"
      using u d(3)
      by (cases "bk_wrapper b") (auto simp: wh_usable_def key_in_place_def envelopes_open_def split: if_splits)
    with Some d show ?thesis
      by (auto simp: winhello_Remove_def backend_Remove_def call_simps on_world_def)
  qed
qed

interpretation wh: keyring_reports_missing "wh_inv fits sv kn" "wh_view sv kn"
  utf16_ok "wh_okitem fits sv kn" key_data
  "\<lambda>key. wh_lift (\<lambda>env. winhello_Get env key)" "\<lambda>i. wh_lift (\<lambda>env. winhello_Set env i)"
  "\<lambda>key. wh_lift (\<lambda>env. winhello_Remove env key)" "wh_lift winhello_Keys"
  for fits sv kn
proof (unfold_locales, goal_cases)
  case (1 i)
  then show ?case by (simp add: wh_okitem_def)
next
  case (2 s key v)
  then obtain e where "dev_other (whs_dev s) (whs_world s) (store_credentialName (bk_store (whs_backend s)) key) =
      Some e" by (auto simp: wh_view_def wh_plain_def split: option.splits)
  with 2 wh_read [of fits sv kn "whs_env s" "whs_dev s" "whs_backend s" "whs_world s" key e]
  show ?case by (auto simp: wh_inv_def wh_lift_def wh_view_def key_data_def) (simp_all add: wh_plain_def)
next
  case (3 s key)
  then have u: "wh_usable fits sv kn (whs_env s) (whs_dev s) (whs_backend s) (whs_world s)"
    by (simp add: wh_inv_def)
  then have none: "dev_other (whs_dev s) (whs_world s)
      (store_credentialName (bk_store (whs_backend s)) key) = None"
    using 3(3) by (simp add: wh_view_def wh_plain_None)
  from u have "lawful_wincred (wh_creds (whs_env s)) (dev_other (whs_dev s)) fits"
    by (simp add: wh_usable_def lawful_wh_def)
  from store_Read_lawful [OF this, where w = "whs_world s" and s = "bk_store (whs_backend s)" and key = key]
    none 3 show ?case
    by (auto simp: wh_inv_def wh_lift_def winhello_Get_def backend_Get_def call_simps on_world_def
        wrap_err_def wrap_errs_def)
next
  case (4 s i)
  then obtain e b' w' where
    "winhello_Set (whs_env s) i (whs_backend s, whs_world s) = (Inr (), (b', w'))"
    "wh_opened (whs_env s) (whs_dev s) sv kn (Key i) e = Some (bytes_of (Data i))"
    "wh_usable fits sv kn (whs_env s) (whs_dev s) b' w'" "bk_store b' = bk_store (whs_backend s)"
    "dev_other (whs_dev s) w' = (dev_other (whs_dev s) (whs_world s))
       (store_credentialName (bk_store (whs_backend s)) (Key i) \<mapsto> e)"
    using wh_write [of fits sv kn "whs_env s" "whs_dev s" "whs_backend s" "whs_world s" i]
    by (auto simp: wh_inv_def)
  then show ?case
    by (simp add: wh_inv_def wh_lift_def wh_view_def wh_plain_upd key_data_def)
next
  case (5 s key)
  then have u: "wh_usable fits sv kn (whs_env s) (whs_dev s) (whs_backend s) (whs_world s)"
    by (simp add: wh_inv_def)
  from wh_delete [OF this, of key] show ?case
    using 5 by (auto simp: wh_inv_def wh_lift_def wh_view_def wh_plain_upd wh_plain_None [OF u] fun_upd_idem
        split: option.splits)
next
  case (6 s)
  then have u: "wh_usable fits sv kn (whs_env s) (whs_dev s) (whs_backend s) (whs_world s)"
    by (simp add: wh_inv_def)
  then have "lawful_wincred (wh_creds (whs_env s)) (dev_other (whs_dev s)) fits"
    by (simp add: wh_usable_def lawful_wh_def)
  from store_Keys_lawful [OF this, of "bk_store (whs_backend s)" "whs_world s"] obtain ks where
    ks: "store_Keys (wh_creds (whs_env s)) (bk_store (whs_backend s)) (whs_world s) = (Inr ks, whs_world s)"
    "distinct ks" "set ks = {key. dev_other (whs_dev s) (whs_world s)
       (store_credentialName (bk_store (whs_backend s)) key) \<noteq> None}" by blast
  have "dom (wh_view sv kn s) = set ks"
    unfolding ks(3) dom_def wh_view_def by (simp add: wh_plain_None [OF u])
  with ks 6 show ?case
    by (simp add: wh_inv_def wh_lift_def winhello_Keys_def backend_Keys_def call_simps on_world_def)
next
  case (7 s key)
  then have u: "wh_usable fits sv kn (whs_env s) (whs_dev s) (whs_backend s) (whs_world s)"
    by (simp add: wh_inv_def)
  then have "dev_other (whs_dev s) (whs_world s)
      (store_credentialName (bk_store (whs_backend s)) key) = None"
    using 7(3) by (simp add: wh_view_def wh_plain_None)
  with wh_delete [OF u, of key] show ?case by (auto simp: wh_lift_def)
qed

section \<open>A Windows machine in memory\<close>

text \<open>
  The world holds whether the Passport key exists and the credentials. Wrapping pads a content key
  to 256 bytes, sealing appends a tag; the handle 7 is the key.
\<close>

type_synonym mem_machine = "bool \<times> mem_creds"

definition mem_winapi :: "mem_machine winapi" where
  "mem_winapi =
    \<lparr>win_CurrentUid = (\<lambda>w. (Inr ''S-1-5'', w)), win_GetConsoleWindow = (\<lambda>w. (0, w)),
     win_IsWindowVisible = (\<lambda>h w. (1, w)), win_GetForegroundWindow = (\<lambda>w. (3, w)),
     win_UTF16 = take 100,
     nc_OpenStorageProvider = (\<lambda>n w. ((0, 5), w)),
     nc_OpenKey = (\<lambda>p n k f w. ((if fst w then 0 else 0x80090016, 7), w)),
     nc_CreatePersistedKey = (\<lambda>p a n k f w. ((0, 7), w)),
     nc_SetProperty = (\<lambda>h p v f w. (0, w)),
     nc_FinalizeKey = (\<lambda>h f w. (0, (True, snd w))),
     nc_Encrypt = (\<lambda>h i n f w. ((0, 256, if n = 0 then [] else i @ replicate (256 - length i) CHR ''w''), w)),
     nc_Decrypt = (\<lambda>h i n f w. ((0, 32, if n = 0 then [] else take 32 i), w)),
     nc_DeleteKey = (\<lambda>h f w. (0, (False, snd w))),
     nc_FreeObject = (\<lambda>h w. (0, w))\<rparr>"

definition mem_device :: "mem_machine wh_device" where
  "mem_device = \<lparr>dev_has = fst, dev_open = (\<lambda>w h. h = 7), dev_decrypts = (\<lambda>wr. Some (take 32 wr)),
     dev_other = (\<lambda>w. map_of (snd w)), dev_uid = ''S-1-5''\<rparr>"

definition mem_crypto :: "mem_machine crypto_env" where
  "mem_crypto =
    \<lparr>rand_ReadFull = (\<lambda>n w. (Inr (replicate n CHR ''r''), w)),
     gcm_seal = (\<lambda>k n p a. p @ replicate 16 CHR ''t''),
     gcm_open = (\<lambda>k n c a. if length c < 16 then None else Some (take (length c - 16) c))\<rparr>"

definition mem_machine_creds :: "mem_machine wincred_api" where
  "mem_machine_creds =
    \<lparr>GetGenericCredential = (\<lambda>t w. case map_of (snd w) t of
        None \<Rightarrow> (Inl errElementNotFound, w)
      | Some b \<Rightarrow> (Inr \<lparr>TargetName = t, CredentialBlob = Some b, Persist = 2\<rparr>, w)),
     NewGenericCredential = (\<lambda>t. \<lparr>TargetName = t, CredentialBlob = None, Persist = 2\<rparr>),
     WriteCredential = (\<lambda>c w.
        (Inr (), (fst w, AList.update (TargetName c) (bytes_of (CredentialBlob c)) (snd w)))),
     DeleteCredential = (\<lambda>c w. (Inr (), (fst w, AList.delete (TargetName c) (snd w)))),
     ListCredentials = (\<lambda>w. (Inr (map (\<lambda>t. \<lparr>TargetName = t, CredentialBlob = map_of (snd w) t, Persist = 2\<rparr>)
                                    (remdups (map fst (snd w)))), w)),
     PersistLocalMachine = 2\<rparr>"

definition mem_wh_env :: "mem_machine wh_env" where
  "mem_wh_env = \<lparr>wh_api = mem_winapi, wh_crypto = mem_crypto, wh_creds = mem_machine_creds\<rparr>"

lemma mem_winapi_lawful:
  "lawful_winapi mem_winapi mem_device (device_key mem_device passportDefaultLogicalName)"
  unfolding lawful_winapi_def
  by (simp add: mem_winapi_def mem_device_def device_key_def ext_def kept_def utf16_ok_def crypts_def
      winHelloPassportKeyNameDomain_def winHelloPassportKeyNameNamespace_def
      passportDefaultLogicalName_def min_le_iff_disj)

lemma mem_crypto_lawful: "lawful_crypto mem_crypto (kept mem_device)"
  by (simp add: lawful_crypto_def mem_crypto_def)

lemma mem_machine_creds_lawful: "lawful_wincred mem_machine_creds (dev_other mem_device) (\<lambda>_. True)"
  unfolding lawful_wincred_def mem_machine_creds_def mem_device_def
  by (simp add: update_conv' delete_conv' dom_map_of_conv_image_fst mem_List_targets image_image
      del: map_map split: option.splits)

lemma mem_wh_lawful: "lawful_wh mem_wh_env mem_device (\<lambda>_. True)"
  using mem_winapi_lawful mem_crypto_lawful mem_machine_creds_lawful
  by (simp add: lawful_wh_def mem_wh_env_def) (simp add: mem_machine_creds_def mem_device_def)

section \<open>Properties\<close>

definition wh_step :: "kop \<Rightarrow> 'w wh_state \<Rightarrow> 'w wh_state" where
  "wh_step = step_kop (\<lambda>key. wh_lift (\<lambda>env. winhello_Get env key))
     (\<lambda>i. wh_lift (\<lambda>env. winhello_Set env i))
     (\<lambda>key. wh_lift (\<lambda>env. winhello_Remove env key)) (wh_lift winhello_Keys)"

text \<open>
  \<^bold>\<open>C6.\<close> The whole stack of the Windows Hello backend, from the NCrypt calls to the adapter, implements
  a map: over a machine that behaves as documented, whose envelopes of this service open under the
  Passport key, any sequence of calls with keys without NUL bytes makes \<open>Get\<close> answer with the key and
  the bytes last set, or \<open>ErrKeyNotFound\<close>, and \<open>Keys\<close> list exactly the keys that have an item.
\<close>

theorem winhello_history:
  assumes "wh_usable fits sv kn (whs_env s) (whs_dev s) (whs_backend s) (whs_world s)"
    and "list_all (ok_kop utf16_ok (wh_okitem fits sv kn)) ps" and "utf16_ok key"
  shows "get_answers key_data (fold (spec_kop key_data) ps (wh_view sv kn s) key)
      (fst (wh_lift (\<lambda>env. winhello_Get env key) (fold wh_step ps s))) \<and>
    (\<exists>ks. fst (wh_lift winhello_Keys (fold wh_step ps s)) = Inr ks \<and>
       distinct ks \<and> set ks = dom (fold (spec_kop key_data) ps (wh_view sv kn s)))"
  using wh.history [of fits sv kn s ps key] assms unfolding wh_step_def wh_inv_def by simp

definition sample_wh_state :: "mem_machine wh_state" where
  "sample_wh_state =
    \<lparr>whs_env = mem_wh_env, whs_dev = mem_device,
     whs_backend = \<lparr>bk_serviceName = ''default'', bk_store = \<lparr>st_serviceName = ''default''\<rparr>,
       bk_wrapper = None, bk_logicalName = passportDefaultLogicalName,
       bk_keyName = device_key mem_device passportDefaultLogicalName\<rparr>,
     whs_world = (False, [])\<rparr>"

theorem winhello_history_witness:
  "\<exists>i. fst (wh_lift (\<lambda>env. winhello_Get env ''k'') (fold wh_step
      [KSet (zero_Item\<lparr>Key := ''k'', Data := Some ''secret''\<rparr>), KKeys, KRemove ''x''] sample_wh_state)) =
     Inr i \<and> key_data i = (''k'', ''secret'')"
proof -
  let ?kn = "device_key mem_device passportDefaultLogicalName"
  let ?ps = "[KSet (zero_Item\<lparr>Key := ''k'', Data := Some ''secret''\<rparr>), KKeys, KRemove ''x'']"
  have "wh_usable (\<lambda>_. True) ''default'' ?kn (whs_env sample_wh_state) (whs_dev sample_wh_state)
      (whs_backend sample_wh_state) (whs_world sample_wh_state)"
    by (simp add: wh_usable_def sample_wh_state_def mem_wh_lawful backend_for_def key_in_place_def
        envelopes_open_def)
      (simp add: mem_device_def device_key_def utf16_ok_def byte_val_def
        winHelloPassportKeyNameDomain_def winHelloPassportKeyNameNamespace_def
        passportDefaultLogicalName_def)
  moreover have "list_all (ok_kop utf16_ok (wh_okitem (\<lambda>_. True) ''default'' ?kn)) ?ps" "utf16_ok ''k''"
    by (simp_all add: utf16_ok_def wh_okitem_def)
  ultimately have "get_answers key_data
      (fold (spec_kop key_data) ?ps (wh_view ''default'' ?kn sample_wh_state) ''k'')
      (fst (wh_lift (\<lambda>env. winhello_Get env ''k'') (fold wh_step ?ps sample_wh_state)))"
    by (rule winhello_history [THEN conjunct1])
  then show ?thesis by (simp add: key_data_def)
qed

end
