(* ===== verification/Keyctl.thy ===== *)
theory Keyctl
  imports Keyring_API "HOL-Library.AList"
begin

text \<open>
  \<open>keyctl.go\<close>: the backend over the key retention service of the Linux kernel. An item is a key of
  type \<open>user\<close> linked into a keyring. The system calls are parameters; Go's \<open>int\<close> is 64 bits wide and
  is a HOL \<open>int\<close> where no arithmetic is done on it, \<open>int32\<close> and \<open>uint32\<close> are \<open>32 word\<close>.
\<close>

unbundle bit_operations_syntax

section \<open>Permissions and scopes\<close>

definition KEYCTL_PERM_VIEW :: "32 word" where "KEYCTL_PERM_VIEW = push_bit 0 1"
definition KEYCTL_PERM_READ :: "32 word" where "KEYCTL_PERM_READ = push_bit 1 1"
definition KEYCTL_PERM_WRITE :: "32 word" where "KEYCTL_PERM_WRITE = push_bit 2 1"
definition KEYCTL_PERM_SEARCH :: "32 word" where "KEYCTL_PERM_SEARCH = push_bit 3 1"
definition KEYCTL_PERM_LINK :: "32 word" where "KEYCTL_PERM_LINK = push_bit 4 1"
definition KEYCTL_PERM_SETATTR :: "32 word" where "KEYCTL_PERM_SETATTR = push_bit 5 1"
definition KEYCTL_PERM_ALL :: "32 word" where "KEYCTL_PERM_ALL = push_bit 6 1 - 1"
definition KEYCTL_PERM_OTHERS :: nat where "KEYCTL_PERM_OTHERS = 0"
definition KEYCTL_PERM_GROUP :: nat where "KEYCTL_PERM_GROUP = 8"
definition KEYCTL_PERM_USER :: nat where "KEYCTL_PERM_USER = 16"
definition KEYCTL_PERM_PROCESS :: nat where "KEYCTL_PERM_PROCESS = 24"

definition GetPermissions :: "32 word \<Rightarrow> 32 word \<Rightarrow> 32 word \<Rightarrow> 32 word \<Rightarrow> 32 word" where
  "GetPermissions process user grp others =
     (let perm = push_bit KEYCTL_PERM_OTHERS others;
          perm = perm OR push_bit KEYCTL_PERM_GROUP grp;
          perm = perm OR push_bit KEYCTL_PERM_USER user;
          perm = perm OR push_bit KEYCTL_PERM_PROCESS process
      in perm)"

text \<open>The special keyring numbers of \<open>keyctl(2)\<close>.\<close>

definition KEY_SPEC_THREAD_KEYRING :: "32 word" where "KEY_SPEC_THREAD_KEYRING = - 1"
definition KEY_SPEC_PROCESS_KEYRING :: "32 word" where "KEY_SPEC_PROCESS_KEYRING = - 2"
definition KEY_SPEC_SESSION_KEYRING :: "32 word" where "KEY_SPEC_SESSION_KEYRING = - 3"
definition KEY_SPEC_USER_KEYRING :: "32 word" where "KEY_SPEC_USER_KEYRING = - 4"
definition KEY_SPEC_USER_SESSION_KEYRING :: "32 word" where "KEY_SPEC_USER_SESSION_KEYRING = - 5"

definition getKeyringForScope :: "string \<Rightarrow> 32 word res" where
  "getKeyringForScope scope =
     (if scope = ''user'' then Inr KEY_SPEC_USER_KEYRING
      else if scope = ''usersession'' then Inr KEY_SPEC_USER_SESSION_KEYRING
      else if scope = ''group'' then Inl (Textf ''scope not yet implemented'' [])
      else if scope = ''session'' then Inr KEY_SPEC_SESSION_KEYRING
      else if scope = ''process'' then Inr KEY_SPEC_PROCESS_KEYRING
      else if scope = ''thread'' then Inr KEY_SPEC_THREAD_KEYRING
      else Inl (Textf ''unknown scope'' []))"

section \<open>System calls\<close>

text \<open>
  The functions of \<open>golang.org/x/sys/unix\<close> and the raw \<open>keyctl\<close> system call (number and two
  operands, answering an error number). \<open>kc_Buffer\<close> is \<open>KeyctlBuffer\<close> with \<open>KEYCTL_READ\<close>: the size of
  the buffer goes in, the length of the data and the bytes written into the buffer come out. \<open>kc_String\<close> is
  \<open>KeyctlString\<close> with \<open>KEYCTL_DESCRIBE\<close>. \<open>kc_bigEndian\<close> is the byte order of the machine.
\<close>

record 'w keyctl_api =
  kc_AddKey :: "string \<Rightarrow> string \<Rightarrow> slice \<Rightarrow> int \<Rightarrow> ('w, int) call"
  kc_Search :: "int \<Rightarrow> string \<Rightarrow> string \<Rightarrow> int \<Rightarrow> ('w, int) call"
  kc_Buffer :: "int \<Rightarrow> nat \<Rightarrow> ('w, int \<times> bytes) call"
  kc_String :: "int \<Rightarrow> ('w, string) call"
  kc_Setperm :: "int \<Rightarrow> 32 word \<Rightarrow> ('w, unit) call"
  kc_GetKeyringID :: "int \<Rightarrow> bool \<Rightarrow> ('w, int) call"
  kc_Syscall :: "nat \<Rightarrow> 64 word \<Rightarrow> 64 word \<Rightarrow> 'w \<Rightarrow> 64 word \<times> 'w"
  kc_bigEndian :: bool

definition KEYCTL_LINK :: nat where "KEYCTL_LINK = 8"
definition KEYCTL_UNLINK :: nat where "KEYCTL_UNLINK = 9"

definition ENOKEY :: goerr where "ENOKEY = Errno 126"

definition keyctlAdd ::
  "'w keyctl_api \<Rightarrow> 32 word \<Rightarrow> string \<Rightarrow> string \<Rightarrow> slice \<Rightarrow> ('w, 32 word) call" where
  "keyctlAdd api parent keytype key data =
     go_try (kc_AddKey api keytype key data (sint parent)) (\<lambda>i. go_return (word_of_int i))"

definition keyctlSearch ::
  "'w keyctl_api \<Rightarrow> 32 word \<Rightarrow> string \<Rightarrow> string \<Rightarrow> ('w, 32 word) call" where
  "keyctlSearch api ring idtype name =
     go_try (kc_Search api (sint ring) idtype name 0) (\<lambda>key. go_return (word_of_int key))"

text \<open>
  The loop of \<open>keyctlRead\<close>, which asks again with a larger buffer until the data fits. Nothing in
  the code bounds it, so a call that never returns is the value \<open>None\<close>.
\<close>

definition written_into :: "bytes \<Rightarrow> bytes \<Rightarrow> bytes" where
  "written_into buffer written = take (length buffer) (written @ drop (length written) buffer)"

lemma length_written_into [simp]: "length (written_into buffer written) = length buffer"
  by (simp add: written_into_def)

partial_function (option) keyctlRead_loop ::
  "'w keyctl_api \<Rightarrow> 32 word \<Rightarrow> slice \<Rightarrow> 'w \<Rightarrow> (slice res \<times> 'w) option" where
  "keyctlRead_loop api i buffer w =
     (case kc_Buffer api (sint i) (length (bytes_of buffer)) w of
        (Inl err, w) \<Rightarrow> Some (Inl err, w)
      | (Inr (len, written), w) \<Rightarrow>
          if len \<le> int (length (bytes_of buffer))
          then if len < 0 then Some (Inl (GoPanic ''slice bounds out of range''), w)
               else Some (Inr (map_option (\<lambda>b. take (nat len) (written_into b written)) buffer), w)
          else keyctlRead_loop api i (Some (replicate (nat len) (CHR 0x00))) w)"

declare keyctlRead_loop.simps [code]

definition keyctlRead :: "'w keyctl_api \<Rightarrow> 32 word \<Rightarrow> 'w \<Rightarrow> (slice res \<times> 'w) option" where
  "keyctlRead api i = keyctlRead_loop api i None"

fun describe_loop :: "string list \<Rightarrow> string list \<Rightarrow> (string \<rightharpoonup> string) \<Rightarrow> (string \<rightharpoonup> string)" where
  "describe_loop (n # names) (f # fs) data = describe_loop names fs (data(n \<mapsto> f))"
| "describe_loop _ _ data = data"

definition keyctlDescribe :: "'w keyctl_api \<Rightarrow> 32 word \<Rightarrow> ('w, string \<rightharpoonup> string) call" where
  "keyctlDescribe api i =
     go_try (kc_String api (sint i)) (\<lambda>description.
       (let fields = Split (CHR '';'') description in
        if length fields < 1 then go_fail (Textf ''no data'' [])
        else go_return (describe_loop [''type'', ''uid'', ''gid'', ''perm''] (butlast fields)
               [''description'' \<mapsto> last fields])))"

definition keyctlLink :: "'w keyctl_api \<Rightarrow> 32 word \<Rightarrow> 32 word \<Rightarrow> ('w, unit) call" where
  "keyctlLink api parent child w =
     (case kc_Syscall api KEYCTL_LINK (scast child) (scast parent) w of (errno, w) \<Rightarrow>
        if errno \<noteq> 0 then (Inl (Errno errno), w) else (Inr (), w))"

definition keyctlUnlink :: "'w keyctl_api \<Rightarrow> 32 word \<Rightarrow> 32 word \<Rightarrow> ('w, unit) call" where
  "keyctlUnlink api parent child w =
     (case kc_Syscall api KEYCTL_UNLINK (scast child) (scast parent) w of (errno, w) \<Rightarrow>
        if errno \<noteq> 0 then (Inl (Errno errno), w) else (Inr (), w))"

definition keyctlSetperm :: "'w keyctl_api \<Rightarrow> 32 word \<Rightarrow> 32 word \<Rightarrow> ('w, unit) call" where
  "keyctlSetperm api i perm = kc_Setperm api (sint i) perm"

definition GetKeyringIDForScope :: "'w keyctl_api \<Rightarrow> string \<Rightarrow> ('w, 32 word) call" where
  "GetKeyringIDForScope api scope =
     go_try (go_lift (getKeyringForScope scope)) (\<lambda>ringRef.
       go_try (kc_GetKeyringID api (sint ringRef) False) (\<lambda>i. go_return (word_of_int i)))"

text \<open>The cast of the address of four bytes to a pointer to an \<open>int32\<close>.\<close>

definition native_int32 :: "bool \<Rightarrow> bytes \<Rightarrow> 32 word" where
  "native_int32 big b =
     (let v = (\<lambda>i. of_char (b ! i) :: 32 word) in
      if big then push_bit 24 (v 0) OR push_bit 16 (v 1) OR push_bit 8 (v 2) OR v 3
      else push_bit 24 (v 3) OR push_bit 16 (v 2) OR push_bit 8 (v 1) OR v 0)"

fun key_buffer_loop :: "bool \<Rightarrow> bytes \<Rightarrow> 32 word list" where
  "key_buffer_loop big (a # b # c # d # r) = native_int32 big [a, b, c, d] # key_buffer_loop big r"
| "key_buffer_loop big _ = []"

definition keyctlConvertKeyBuffer :: "bool \<Rightarrow> bytes \<Rightarrow> 32 word list res" where
  "keyctlConvertKeyBuffer big buffer =
     (if length buffer mod 4 \<noteq> 0 then Inl (Textf ''buffer size not a multiple of 4'' [])
      else Inr (key_buffer_loop big buffer))"

section \<open>The keyring\<close>

record keyctlKeyring =
  kk_keyring :: "32 word"
  kk_perm :: "32 word"

definition createNamedKeyring ::
  "'w keyctl_api \<Rightarrow> keyctlKeyring \<Rightarrow> 32 word \<Rightarrow> string \<Rightarrow> ('w, 32 word) call" where
  "createNamedKeyring api k parent name =
     (if kk_perm k = 0 then keyctlAdd api parent ''keyring'' name None
      else
        go_tryE (textf_err ''creating keyring failed'')
          (keyctlAdd api KEY_SPEC_SESSION_KEYRING ''keyring'' name None) (\<lambda>keyring.
        go_tryE (textf_err ''setting permission failed'') (keyctlSetperm api keyring (kk_perm k)) (\<lambda>_.
        go_tryE (textf_err ''linking keyring failed'') (keyctlLink api (kk_keyring k) keyring) (\<lambda>_.
        go_tryE (textf_err ''unlinking keyring from session failed'')
          (keyctlUnlink api KEY_SPEC_SESSION_KEYRING keyring) (\<lambda>_. go_return keyring)))))"

definition keyctl_opener :: "'w keyctl_api \<Rightarrow> ('w, keyctlKeyring) opener" where
  "keyctl_opener api cfg w =
     (let keyring = \<lparr>kk_keyring = 0, kk_perm = 0\<rparr>;
          keyring = (if KeyCtlPerm cfg > 0 then keyring\<lparr>kk_perm := KeyCtlPerm cfg\<rparr> else keyring)
      in case getKeyringForScope (KeyCtlScope cfg) of
           Inl err \<Rightarrow> (Inl (Textf ''accessing keyring failed'' [err]), w)
         | Inr parent \<Rightarrow>
             (let keyring = keyring\<lparr>kk_keyring := parent\<rparr> in
              if ServiceName cfg \<noteq> '''' then
                (case keyctlSearch api parent ''keyring'' (ServiceName cfg) w of
                   (Inr namedKeyring, w) \<Rightarrow> (Inr (keyring\<lparr>kk_keyring := namedKeyring\<rparr>), w)
                 | (Inl err, w) \<Rightarrow>
                     if \<not> errors_Is err ENOKEY
                     then (Inl (textf_err ''opening named keyring failed'' err), w)
                     else (case createNamedKeyring api keyring parent (ServiceName cfg) w of
                             (Inl err, w) \<Rightarrow>
                               (Inl (textf_err ''creating named keyring failed'' err), w)
                           | (Inr namedKeyring, w) \<Rightarrow>
                               (Inr (keyring\<lparr>kk_keyring := namedKeyring\<rparr>), w)))
              else (Inr keyring, w)))"

text \<open>\<open>Get\<close> and \<open>Keys\<close> read, so they may not return: \<open>None\<close>.\<close>

definition keyctl_Get ::
  "'w keyctl_api \<Rightarrow> keyctlKeyring \<Rightarrow> string \<Rightarrow> 'w \<Rightarrow> (Item res \<times> 'w) option" where
  "keyctl_Get api k name w =
     (case keyctlSearch api (kk_keyring k) ''user'' name w of
        (Inl err, w) \<Rightarrow>
          Some (if errors_Is err ENOKEY then (Inl ErrKeyNotFound, w) else (Inl err, w))
      | (Inr key, w) \<Rightarrow>
          (case keyctlRead api key w of
             None \<Rightarrow> None
           | Some (Inl err, w) \<Rightarrow> Some (Inl err, w)
           | Some (Inr data, w) \<Rightarrow> Some (Inr (zero_Item\<lparr>Key := name, Data := data\<rparr>), w)))"

definition keyctl_GetMetadata :: "keyctlKeyring \<Rightarrow> string \<Rightarrow> ('w, Metadata) call" where
  "keyctl_GetMetadata k name = go_fail ErrMetadataNotSupported"

definition keyctl_Set :: "'w keyctl_api \<Rightarrow> keyctlKeyring \<Rightarrow> Item \<Rightarrow> ('w, unit) call" where
  "keyctl_Set api k item =
     (if kk_perm k = 0 then
        go_try (keyctlAdd api (kk_keyring k) ''user'' (Key item) (Data item)) (\<lambda>_. go_return ())
      else
        go_tryE (textf_err ''adding key to session failed'')
          (keyctlAdd api KEY_SPEC_SESSION_KEYRING ''user'' (Key item) (Data item)) (\<lambda>key.
        go_tryE (textf_err ''setting permission failed'') (keyctlSetperm api key (kk_perm k)) (\<lambda>_.
        go_tryE (textf_err ''linking key to keyring failed'') (keyctlLink api (kk_keyring k) key) (\<lambda>_.
        go_tryE (textf_err ''unlinking key from session failed'')
          (keyctlUnlink api KEY_SPEC_SESSION_KEYRING key) (\<lambda>_. go_return ())))))"

definition keyctl_Remove :: "'w keyctl_api \<Rightarrow> keyctlKeyring \<Rightarrow> string \<Rightarrow> ('w, unit) call" where
  "keyctl_Remove api k name w =
     (case keyctlSearch api (kk_keyring k) ''user'' name w of
        (Inl (GoPanic p), w) \<Rightarrow> (Inl (GoPanic p), w)
      | (Inl err, w) \<Rightarrow> (Inl ErrKeyNotFound, w)
      | (Inr key, w) \<Rightarrow> keyctlUnlink api (kk_keyring k) key w)"

definition map_get :: "(string \<rightharpoonup> string) \<Rightarrow> string \<Rightarrow> string" where
  "map_get m k = (case m k of None \<Rightarrow> '''' | Some v \<Rightarrow> v)"

fun keyctl_keys_loop :: "'w keyctl_api \<Rightarrow> string list \<Rightarrow> 32 word list \<Rightarrow> ('w, string list) call" where
  "keyctl_keys_loop api results [] w = (Inr results, w)"
| "keyctl_keys_loop api results (i # ids) w =
     (case keyctlDescribe api i w of
        (Inl err, w) \<Rightarrow> (Inl err, w)
      | (Inr info, w) \<Rightarrow>
          keyctl_keys_loop api
            (if map_get info ''type'' = ''user'' then results @ [map_get info ''description''] else results)
            ids w)"

definition keyctl_Keys :: "'w keyctl_api \<Rightarrow> keyctlKeyring \<Rightarrow> 'w \<Rightarrow> (string list res \<times> 'w) option" where
  "keyctl_Keys api k w =
     (case keyctlRead api (kk_keyring k) w of
        None \<Rightarrow> None
      | Some (Inl err, w) \<Rightarrow> Some (Inl (textf_err ''reading keyring failed'' err), w)
      | Some (Inr data, w) \<Rightarrow>
          (case keyctlConvertKeyBuffer (kc_bigEndian api) (bytes_of data) of
             Inl err \<Rightarrow> Some (Inl (Textf ''converting raw keylist failed'' [err]), w)
           | Inr ids \<Rightarrow> Some (keyctl_keys_loop api [] ids w)))"

section \<open>Reading a key\<close>

text \<open>
  The loop returns whenever the lengths the kernel reports stay below some bound, however they
  change between the calls: every round that does not return has a longer buffer than the last.
\<close>

definition lengths_bounded :: "'w keyctl_api \<Rightarrow> 32 word \<Rightarrow> nat \<Rightarrow> bool" where
  "lengths_bounded api i B \<longleftrightarrow>
     (\<forall>n w len written w'. kc_Buffer api (sint i) n w = (Inr (len, written), w') \<longrightarrow>
        len \<le> int B)"

text \<open>The answer of one call that was given all the data.\<close>

definition complete_read :: "'w keyctl_api \<Rightarrow> 32 word \<Rightarrow> bytes \<Rightarrow> 'w \<Rightarrow> bool" where
  "complete_read api i data w' \<longleftrightarrow>
     (\<exists>n written w. kc_Buffer api (sint i) n w = (Inr (int (length data), written), w') \<and>
        length data \<le> n \<and>
        data = take (length data) (written_into (replicate n (CHR 0x00)) written))"

lemma keyctlRead_loop_returns:
  assumes "lengths_bounded api i B"
  shows "\<exists>r w'. keyctlRead_loop api i buffer w = Some (r, w')"
proof (induction "B - length (bytes_of buffer)" arbitrary: buffer w rule: less_induct)
  case less
  show ?case
  proof (cases "kc_Buffer api (sint i) (length (bytes_of buffer)) w")
    case (Pair r w1)
    show ?thesis
    proof (cases r)
      case (Inl e)
      with Pair show ?thesis by (simp add: keyctlRead_loop.simps)
    next
      case (Inr p)
      obtain len written where p: "p = (len, written)" by (cases p)
      show ?thesis
      proof (cases "len \<le> int (length (bytes_of buffer))")
        case True
        with Pair Inr p show ?thesis by (simp add: keyctlRead_loop.simps)
      next
        case False
        from assms Pair Inr p have "len \<le> int B" unfolding lengths_bounded_def by blast
        with False have "B - length (bytes_of (Some (replicate (nat len) (CHR 0x00)))) <
            B - length (bytes_of buffer)" by simp
        from less [OF this] Pair Inr p False show ?thesis
          by (subst keyctlRead_loop.simps) simp
      qed
    qed
  qed
qed

text \<open>Reading data that does not change takes at most two calls.\<close>

lemma keyctlRead_stable:
  assumes "\<And>n. \<exists>wr. kc_Buffer api (sint i) n w = (Inr (int (length data), wr), w) \<and>
      (length data \<le> n \<longrightarrow> wr = data)"
  shows "\<exists>b. keyctlRead api i w = Some (Inr b, w) \<and> bytes_of b = data"
proof (cases "data = []")
  case True
  with assms [of 0] show ?thesis
    by (auto simp: keyctlRead_def keyctlRead_loop.simps)
next
  case False
  from assms [of 0] obtain b0 where
    b0: "kc_Buffer api (sint i) 0 w = (Inr (int (length data), b0), w)" by blast
  from assms [of "length data"] have
    b1: "kc_Buffer api (sint i) (length data) w = (Inr (int (length data), data), w)" by auto
  have "keyctlRead_loop api i None w =
      keyctlRead_loop api i (Some (replicate (length data) (CHR 0x00))) w"
    using False b0 by (subst keyctlRead_loop.simps) simp
  also have "\<dots> = Some (Inr (Some data), w)"
    using b1 by (subst keyctlRead_loop.simps) (simp add: written_into_def)
  finally show ?thesis by (simp add: keyctlRead_def)
qed

text \<open>The buffer the loop works on is nil or zeroed, so what it returns is one call's answer.\<close>

definition read_ok :: "'w keyctl_api \<Rightarrow> 32 word \<Rightarrow> slice \<Rightarrow> slice res \<times> 'w \<Rightarrow> bool" where
  "read_ok api i buffer y \<longleftrightarrow>
     (\<forall>data n. fst y = Inr data \<longrightarrow> bytes_of buffer = replicate n (CHR 0x00) \<longrightarrow>
        complete_read api i (bytes_of data) (snd y))"

lemma keyctlRead_loop_complete:
  assumes "keyctlRead_loop api i buffer w = Some y"
  shows "read_ok api i buffer y"
proof (rule keyctlRead_loop.raw_induct
    [where P = "\<lambda>api i buffer w y. read_ok api i buffer y", OF _ assms], goal_cases)
  case (1 loop api i buffer w y)
  show ?case
  proof (cases "kc_Buffer api (sint i) (length (bytes_of buffer)) w")
    case (Pair x w1)
    show ?thesis
    proof (cases x)
      case (Inl e)
      with Pair 1(2) show ?thesis by (auto simp: read_ok_def)
    next
      case (Inr p)
      obtain len written where p: "p = (len, written)" by (cases p)
      show ?thesis
      proof (cases "len \<le> int (length (bytes_of buffer))")
        case fits: True
        show ?thesis
          unfolding read_ok_def complete_read_def
        proof (intro allI impI)
          fix data n
          assume d: "fst y = Inr data" and b: "bytes_of buffer = replicate n (CHR 0x00)"
          from d Pair Inr p fits 1(2) have pos: "0 \<le> len" by (auto split: if_splits)
          with d Pair Inr p fits b 1(2) have
            "bytes_of data = take (nat len) (written_into (replicate n (CHR 0x00)) written)"
            "snd y = w1"
            by (cases buffer; auto simp: written_into_def)+
          with Pair Inr p fits b pos show "\<exists>n written w. kc_Buffer api (sint i) n w =
              (Inr (int (length (bytes_of data)), written), snd y) \<and>
            length (bytes_of data) \<le> n \<and> bytes_of data =
              take (length (bytes_of data)) (written_into (replicate n (CHR 0x00)) written)"
            by (intro exI [of _ n] exI [of _ written] exI [of _ w]) (auto simp: min_def)
        qed
      next
        case False
        with Pair Inr p 1(2) have "loop api i (Some (replicate (nat len) (CHR 0x00))) w1 = Some y"
          by simp
        from 1(1) [OF this] show ?thesis
          by (auto simp: read_ok_def)
      qed
    qed
  qed
qed

section \<open>The bytes of a keyring\<close>

text \<open>How the kernel writes the number of a key into a buffer.\<close>

definition int32_bytes :: "bool \<Rightarrow> 32 word \<Rightarrow> bytes" where
  "int32_bytes big v =
     (let b = map (\<lambda>i. char_of (unat (take_bit 8 (drop_bit (8 * i) v)))) [0..<4] in
      if big then rev b else b)"

lemma length_int32_bytes [simp]: "length (int32_bytes big v) = 4"
  by (simp add: int32_bytes_def Let_def)

lemma byte_word:
  "(of_char (char_of (unat (take_bit 8 v)) :: char) :: 32 word) = take_bit 8 v"
  for v :: "32 word"
proof -
  have "(of_char (char_of (unat (take_bit 8 v)) :: char) :: 32 word) =
      of_nat (of_char (char_of (unat (take_bit 8 v)) :: char))"
    by (rule of_nat_of_char [symmetric])
  also have "\<dots> = of_nat (unat (take_bit 8 v))"
    by (simp only: of_char_of unsigned_take_bit_eq) (simp add: take_bit_eq_mod [where 'a = nat])
  finally show ?thesis by simp
qed

lemma bytes_join:
  fixes v :: "32 word"
  shows "push_bit 24 (take_bit 8 (drop_bit 24 v)) OR push_bit 16 (take_bit 8 (drop_bit 16 v)) OR
    push_bit 8 (take_bit 8 (drop_bit 8 v)) OR take_bit 8 v = v"
proof (rule bit_word_eqI)
  fix n
  assume "n < LENGTH(32)"
  then consider "n < 8" | "8 \<le> n" "n < 16" | "16 \<le> n" "n < 24" | "24 \<le> n" "n < 32"
    by fastforce
  then show "bit (push_bit 24 (take_bit 8 (drop_bit 24 v)) OR push_bit 16 (take_bit 8 (drop_bit 16 v)) OR
      push_bit 8 (take_bit 8 (drop_bit 8 v)) OR take_bit 8 v) n = bit v n"
    by cases (auto simp: bit_simps)
qed

lemma native_int32_bytes [simp]: "native_int32 big (int32_bytes big v) = v"
  by (simp add: native_int32_def int32_bytes_def Let_def upt_rec byte_word bytes_join)

lemma key_buffer_loop_append:
  "length b = 4 \<Longrightarrow> key_buffer_loop big (b @ r) = native_int32 big b # key_buffer_loop big r"
  by (auto simp: length_Suc_conv numeral_eq_Suc)

lemma key_buffer_loop_concat:
  "key_buffer_loop big (concat (map (int32_bytes big) ids)) = ids"
  by (induction ids) (simp_all add: key_buffer_loop_append)

lemma length_ids_buffer: "length (concat (map (int32_bytes big) ids)) = 4 * length ids"
  by (induction ids) simp_all

lemma keyctlConvertKeyBuffer_ids:
  "keyctlConvertKeyBuffer big (concat (map (int32_bytes big) ids)) = Inr ids"
  by (simp add: keyctlConvertKeyBuffer_def key_buffer_loop_concat length_ids_buffer)

section \<open>Describing a key\<close>

text \<open>The text \<open>KEYCTL_DESCRIBE\<close> answers with: the fields joined by semicolons.\<close>

definition described :: "string list \<Rightarrow> string \<Rightarrow> string" where
  "described fs d = concat (map (\<lambda>f. f @ '';'') fs) @ d"

lemma Split_described:
  "\<forall>f\<in>set fs. CHR '';'' \<notin> set f \<Longrightarrow> Split (CHR '';'') (described fs d) = fs @ Split (CHR '';'') d"
  by (induction fs) (simp_all add: described_def Split_append_sep)

lemma describe_loop_app:
  "length names \<le> length fs \<Longrightarrow> describe_loop names (fs @ gs) data = describe_loop names fs data"
  by (induction names fs data rule: describe_loop.induct) simp_all

lemma keyctlDescribe_described:
  assumes "kc_String api (sint i) w = (Inr (described [ty, u, g, p] d), w')"
    and "\<forall>f\<in>{ty, u, g, p}. CHR '';'' \<notin> set f"
  shows "keyctlDescribe api i w =
    (Inr [''description'' \<mapsto> last (Split (CHR '';'') d), ''type'' \<mapsto> ty, ''uid'' \<mapsto> u, ''gid'' \<mapsto> g,
      ''perm'' \<mapsto> p], w')"
proof -
  have s: "Split (CHR '';'') (described [ty, u, g, p] d) = [ty, u, g, p] @ Split (CHR '';'') d"
    using assms(2) by (intro Split_described) auto
  have "butlast ([ty, u, g, p] @ Split (CHR '';'') d) = [ty, u, g, p] @ butlast (Split (CHR '';'') d)"
    by (simp add: butlast_append)
  then show ?thesis
    using assms(1) by (simp add: keyctlDescribe_def call_simps Let_def s)
qed

end
