(* ===== verification/Keyctl_Kernel.thy ===== *)
theory Keyctl_Kernel
  imports Keyctl
begin

text \<open>
  What the kernel documents about keys and keyrings, as far as \<open>keyctl.go\<close> relies on it, and what
  follows for the backend: over such a kernel it is a map from keys to bytes, unless it writes
  keys with special permissions into the session keyring itself.
\<close>

section \<open>A kernel that behaves as documented\<close>

text \<open>
  The part of the kernel's state the laws speak of: the \<open>user\<close> keys linked into a keyring by
  their description, and the payload of a key.
\<close>

record 'w kernel =
  kn_links :: "'w \<Rightarrow> 32 word \<Rightarrow> string \<rightharpoonup> 32 word"
  kn_payload :: "'w \<Rightarrow> 32 word \<Rightarrow> bytes"

definition linked :: "'w kernel \<Rightarrow> 32 word set \<Rightarrow> 'w \<Rightarrow> 32 word set" where
  "linked K rings w = (\<Union>r\<in>rings. ran (kn_links K w r))"

text \<open>
  The keyrings \<open>rings\<close> are distinct, hold no keyrings of their own (a search would descend into
  them), and their keys grant the process the rights it needs. A key has one description; adding
  a key whose description a keyring has already updates that key, otherwise the key is new; a key
  that is linked into another keyring takes the place of the one with its description; a key that is
  unlinked disappears from that keyring only. The descriptions, payloads and permissions the kernel accepts
  are the predicates \<open>okd\<close>, \<open>fits\<close> and \<open>okperm\<close>.
\<close>

definition lawful_keys :: "'w keyctl_api \<Rightarrow> 'w kernel \<Rightarrow> 32 word set \<Rightarrow> (string \<Rightarrow> bool) \<Rightarrow>
     (bytes \<Rightarrow> bool) \<Rightarrow> bool" where
  "lawful_keys api K rings okd fits \<longleftrightarrow>
     (\<forall>w. \<forall>r\<in>rings. \<forall>r'\<in>rings. \<forall>d d' i.
        kn_links K w r d = Some i \<and> kn_links K w r' d' = Some i \<longrightarrow> d = d') \<and>
     (\<forall>w. \<forall>r\<in>rings. \<forall>d. okd d \<longrightarrow>
        kc_Search api (sint r) ''user'' d 0 w =
          ((case kn_links K w r d of None \<Rightarrow> Inl ENOKEY | Some i \<Rightarrow> Inr (sint i)), w)) \<and>
     (\<forall>w. \<forall>r\<in>rings. \<forall>d b. okd d \<and> fits (bytes_of b) \<longrightarrow>
        (\<exists>i w'. kc_AddKey api ''user'' d b (sint r) w = (Inr (sint i), w') \<and>
           (case kn_links K w r d of None \<Rightarrow> i \<notin> linked K rings w | Some j \<Rightarrow> i = j) \<and>
           kn_links K w' = (kn_links K w)(r := (kn_links K w r)(d \<mapsto> i)) \<and>
           kn_payload K w' i = bytes_of b \<and>
           (\<forall>j\<in>linked K rings w'. j \<noteq> i \<longrightarrow> kn_payload K w' j = kn_payload K w j)))"

definition described_member :: "'w keyctl_api \<Rightarrow> 'w kernel \<Rightarrow> 'w \<Rightarrow> 32 word \<Rightarrow> 32 word \<Rightarrow> bool" where
  "described_member api K w r i \<longleftrightarrow>
     (\<exists>ty u g p d. (\<forall>f\<in>{ty, u, g, p}. CHR '';'' \<notin> set f) \<and>
        kc_String api (sint i) w = (Inr (described [ty, u, g, p] d), w) \<and>
        (if ty = ''user'' then kn_links K w r d = Some i else i \<notin> ran (kn_links K w r)))"

definition lawful_reads :: "'w keyctl_api \<Rightarrow> 'w kernel \<Rightarrow> 32 word set \<Rightarrow> bool" where
  "lawful_reads api K rings \<longleftrightarrow>
     (\<forall>w. \<forall>i\<in>linked K rings w. \<forall>n.
        \<exists>wr. kc_Buffer api (sint i) n w = (Inr (int (length (kn_payload K w i)), wr), w) \<and>
          (length (kn_payload K w i) \<le> n \<longrightarrow> wr = kn_payload K w i)) \<and>
     (\<forall>w. \<forall>r\<in>rings. \<exists>ids. distinct ids \<and> ran (kn_links K w r) \<subseteq> set ids \<and>
        (\<forall>n. \<exists>wr. kc_Buffer api (sint r) n w = (Inr (int (4 * length ids), wr), w) \<and>
           (4 * length ids \<le> n \<longrightarrow> wr = concat (map (int32_bytes (kc_bigEndian api)) ids))) \<and>
        (\<forall>i\<in>set ids. described_member api K w r i))"

definition lawful_moves :: "'w keyctl_api \<Rightarrow> 'w kernel \<Rightarrow> 32 word set \<Rightarrow> (32 word \<Rightarrow> bool) \<Rightarrow> bool" where
  "lawful_moves api K rings okperm \<longleftrightarrow>
     (\<forall>w. \<forall>i\<in>linked K rings w. \<forall>p. okperm p \<longrightarrow>
        (\<exists>w'. kc_Setperm api (sint i) p w = (Inr (), w') \<and> kn_links K w' = kn_links K w \<and>
           (\<forall>j\<in>linked K rings w'. kn_payload K w' j = kn_payload K w j))) \<and>
     (\<forall>w. \<forall>r\<in>rings. \<forall>r'\<in>rings. \<forall>d i. kn_links K w r d = Some i \<longrightarrow>
        (\<exists>w'. kc_Syscall api KEYCTL_LINK (scast i) (scast r') w = (0, w') \<and>
           kn_links K w' = (kn_links K w)(r' := (kn_links K w r')(d \<mapsto> i)) \<and>
           (\<forall>j\<in>linked K rings w'. kn_payload K w' j = kn_payload K w j))) \<and>
     (\<forall>w. \<forall>r\<in>rings. \<forall>d i. kn_links K w r d = Some i \<longrightarrow>
        (\<exists>w'. kc_Syscall api KEYCTL_UNLINK (scast i) (scast r) w = (0, w') \<and>
           kn_links K w' = (kn_links K w)(r := (kn_links K w r)(d := None)) \<and>
           (\<forall>j\<in>linked K rings w'. kn_payload K w' j = kn_payload K w j)))"

definition lawful_keyctl :: "'w keyctl_api \<Rightarrow> 'w kernel \<Rightarrow> 32 word set \<Rightarrow> (string \<Rightarrow> bool) \<Rightarrow>
     (bytes \<Rightarrow> bool) \<Rightarrow> (32 word \<Rightarrow> bool) \<Rightarrow> bool" where
  "lawful_keyctl api K rings okd fits okperm \<longleftrightarrow>
     lawful_keys api K rings okd fits \<and> lawful_reads api K rings \<and>
     lawful_moves api K rings okperm"

lemma linkedI: "r \<in> rings \<Longrightarrow> kn_links K w r d = Some i \<Longrightarrow> i \<in> linked K rings w"
  by (auto simp: linked_def ran_def)

section \<open>The system calls on such a kernel\<close>

lemma key_description:
  "lawful_keys api K rings okd fits \<Longrightarrow> r \<in> rings \<Longrightarrow> r' \<in> rings \<Longrightarrow>
     kn_links K w r d = Some i \<Longrightarrow> kn_links K w r' d' = Some i \<Longrightarrow> d = d'"
  unfolding lawful_keys_def by blast

lemma keyctlSearch_lawful:
  assumes "lawful_keys api K rings okd fits" "r \<in> rings" "okd d"
  shows "keyctlSearch api r ''user'' d w =
    ((case kn_links K w r d of None \<Rightarrow> Inl ENOKEY | Some i \<Rightarrow> Inr i), w)"
proof -
  from assms have "kc_Search api (sint r) ''user'' d 0 w =
      ((case kn_links K w r d of None \<Rightarrow> Inl ENOKEY | Some i \<Rightarrow> Inr (sint i)), w)"
    unfolding lawful_keys_def by blast
  then show ?thesis
    by (simp add: keyctlSearch_def call_simps split: option.split)
qed

lemma keyctlAdd_lawful:
  assumes "lawful_keys api K rings okd fits" "r \<in> rings" "okd d" "fits (bytes_of b)"
  obtains i w' where "keyctlAdd api r ''user'' d b w = (Inr i, w')"
    "case kn_links K w r d of None \<Rightarrow> i \<notin> linked K rings w | Some j \<Rightarrow> i = j"
    "kn_links K w' = (kn_links K w)(r := (kn_links K w r)(d \<mapsto> i))"
    "kn_payload K w' i = bytes_of b"
    "\<forall>j\<in>linked K rings w'. j \<noteq> i \<longrightarrow> kn_payload K w' j = kn_payload K w j"
proof -
  from assms obtain i w' where "kc_AddKey api ''user'' d b (sint r) w = (Inr (sint i), w')"
    and rest: "case kn_links K w r d of None \<Rightarrow> i \<notin> linked K rings w | Some j \<Rightarrow> i = j"
    "kn_links K w' = (kn_links K w)(r := (kn_links K w r)(d \<mapsto> i))"
    "kn_payload K w' i = bytes_of b"
    "\<forall>j\<in>linked K rings w'. j \<noteq> i \<longrightarrow> kn_payload K w' j = kn_payload K w j"
    unfolding lawful_keys_def by meson
  then have "keyctlAdd api r ''user'' d b w = (Inr i, w')"
    by (simp add: keyctlAdd_def call_simps)
  with rest show thesis by (rule that [rotated 1]) 
qed

lemma keyctlRead_key:
  assumes "lawful_reads api K rings" "i \<in> linked K rings w"
  shows "\<exists>b. keyctlRead api i w = Some (Inr b, w) \<and> bytes_of b = kn_payload K w i"
  using assms unfolding lawful_reads_def by (intro keyctlRead_stable) blast

lemma keyctlSetperm_lawful:
  assumes "lawful_moves api K rings okperm" "i \<in> linked K rings w" "okperm p"
  obtains w' where "keyctlSetperm api i p w = (Inr (), w')" "kn_links K w' = kn_links K w"
    "\<forall>j\<in>linked K rings w'. kn_payload K w' j = kn_payload K w j"
  using assms unfolding lawful_moves_def keyctlSetperm_def by meson

lemma keyctlLink_lawful:
  assumes "lawful_moves api K rings okperm" "r \<in> rings" "r' \<in> rings" "kn_links K w r d = Some i"
  obtains w' where "keyctlLink api r' i w = (Inr (), w')"
    "kn_links K w' = (kn_links K w)(r' := (kn_links K w r')(d \<mapsto> i))"
    "\<forall>j\<in>linked K rings w'. kn_payload K w' j = kn_payload K w j"
proof -
  from assms obtain w' where "kc_Syscall api KEYCTL_LINK (scast i) (scast r') w = (0, w')"
    and rest: "kn_links K w' = (kn_links K w)(r' := (kn_links K w r')(d \<mapsto> i))"
    "\<forall>j\<in>linked K rings w'. kn_payload K w' j = kn_payload K w j"
    unfolding lawful_moves_def by meson
  then have "keyctlLink api r' i w = (Inr (), w')" by (simp add: keyctlLink_def)
  with rest show thesis by (rule that [rotated 1])
qed

lemma keyctlUnlink_lawful:
  assumes "lawful_moves api K rings okperm" "r \<in> rings" "kn_links K w r d = Some i"
  obtains w' where "keyctlUnlink api r i w = (Inr (), w')"
    "kn_links K w' = (kn_links K w)(r := (kn_links K w r)(d := None))"
    "\<forall>j\<in>linked K rings w'. kn_payload K w' j = kn_payload K w j"
proof -
  from assms obtain w' where "kc_Syscall api KEYCTL_UNLINK (scast i) (scast r) w = (0, w')"
    and rest: "kn_links K w' = (kn_links K w)(r := (kn_links K w r)(d := None))"
    "\<forall>j\<in>linked K rings w'. kn_payload K w' j = kn_payload K w j"
    unfolding lawful_moves_def by meson
  then have "keyctlUnlink api r i w = (Inr (), w')" by (simp add: keyctlUnlink_def)
  with rest show thesis by (rule that [rotated 1])
qed

section \<open>Operations of the backend on such a kernel\<close>

text \<open>The items of a keyring: descriptions and payloads of the \<open>user\<close> keys linked into it.\<close>

definition ring_view :: "'w kernel \<Rightarrow> 32 word \<Rightarrow> 'w \<Rightarrow> string \<Rightarrow> (string \<times> bytes) option" where
  "ring_view K r w d = map_option (\<lambda>i. (d, kn_payload K w i)) (kn_links K w r d)"

lemma dom_ring_view: "dom (ring_view K r w) = dom (kn_links K w r)"
  by (auto simp: ring_view_def)

text \<open>
  A step that links key \<open>i\<close> as \<open>d\<close> into keyring \<open>r\<close>, or nothing, and changes the payload of no
  other linked key.
\<close>

lemma ring_view_upd:
  assumes keys: "lawful_keys api K rings okd fits" and r: "r \<in> rings"
    and links: "kn_links K w' r = (kn_links K w r)(d := j)"
    and pay: "\<forall>i\<in>linked K rings w'. j \<noteq> Some i \<longrightarrow> kn_payload K w' i = kn_payload K w i"
  shows "ring_view K r w' = (ring_view K r w)(d := map_option (\<lambda>i. (d, kn_payload K w' i)) j)"
proof (rule ext)
  fix d'
  have "kn_payload K w' i = kn_payload K w i" if "d' \<noteq> d" "kn_links K w r d' = Some i" for i
  proof -
    from that links have i: "kn_links K w' r d' = Some i" by simp
    with key_description [OF keys r r] that(1) links have "j \<noteq> Some i" by force
    with pay linkedI [where K = K, OF r i] show ?thesis by blast
  qed
  then show "ring_view K r w' d' =
      ((ring_view K r w)(d := map_option (\<lambda>i. (d, kn_payload K w' i)) j)) d'"
    by (cases "kn_links K w r d'") (auto simp: ring_view_def links)
qed

lemma keyctl_Get_lawful:
  assumes keys: "lawful_keys api K rings okd fits" and reads: "lawful_reads api K rings"
    and r: "kk_keyring k \<in> rings" and d: "okd d"
  shows "case ring_view K (kk_keyring k) w d of
      None \<Rightarrow> keyctl_Get api k d w = Some (Inl ErrKeyNotFound, w)
    | Some v \<Rightarrow> \<exists>i. keyctl_Get api k d w = Some (Inr i, w) \<and> key_data i = v"
proof (cases "kn_links K w (kk_keyring k) d")
  case None
  with keyctlSearch_lawful [OF keys r d] show ?thesis
    by (simp add: ring_view_def keyctl_Get_def)
next
  case (Some i)
  from keyctlRead_key [OF reads linkedI [OF r Some]] obtain b where
    "keyctlRead api i w = Some (Inr b, w)" "bytes_of b = kn_payload K w i" by blast
  with Some keyctlSearch_lawful [OF keys r d, of w] show ?thesis
    by (simp add: ring_view_def keyctl_Get_def key_data_def)
qed

lemma keyctl_Remove_lawful:
  assumes keys: "lawful_keys api K rings okd fits" and moves: "lawful_moves api K rings okperm"
    and r: "kk_keyring k \<in> rings" and d: "okd d"
  shows "\<exists>w'. keyctl_Remove api k d w =
      (if ring_view K (kk_keyring k) w d = None then Inl ErrKeyNotFound else Inr (), w') \<and>
      kn_links K w' (kk_keyring k) = (kn_links K w (kk_keyring k))(d := None) \<and>
      ring_view K (kk_keyring k) w' = (ring_view K (kk_keyring k) w)(d := None)"
proof (cases "kn_links K w (kk_keyring k) d")
  case None
  then have "ring_view K (kk_keyring k) w d = None" by (simp add: ring_view_def)
  with None keyctlSearch_lawful [OF keys r d, of w] show ?thesis
    by (simp add: keyctl_Remove_def ENOKEY_def fun_upd_idem)
next
  case (Some i)
  from keyctlUnlink_lawful [OF moves r Some] obtain w' where
    w': "keyctlUnlink api (kk_keyring k) i w = (Inr (), w')"
    "kn_links K w' = (kn_links K w)(kk_keyring k := (kn_links K w (kk_keyring k))(d := None))"
    "\<forall>j\<in>linked K rings w'. kn_payload K w' j = kn_payload K w j" .
  have "ring_view K (kk_keyring k) w' = (ring_view K (kk_keyring k) w)(d := None)"
    using ring_view_upd [OF keys r, of w' w d None] w'(2,3) by simp
  with Some w' keyctlSearch_lawful [OF keys r d, of w] show ?thesis
    by (simp add: keyctl_Remove_def ring_view_def)
qed

lemma linked_upd:
  "kn_links K w' = (kn_links K w)(r := (kn_links K w r)(d := j)) \<Longrightarrow>
     linked K rings w' \<subseteq> linked K rings w \<union> set_option j"
  by (auto simp: linked_def ran_def split: if_splits)

text \<open>Writing with the default permissions adds the key to the keyring directly.\<close>

lemma keyctl_Set_default:
  assumes keys: "lawful_keys api K rings okd fits" and r: "kk_keyring k \<in> rings"
    and i: "okd (Key item)" "fits (bytes_of (Data item))" and perm: "kk_perm k = 0"
  shows "\<exists>w' j. keyctl_Set api k item w = (Inr (), w') \<and>
      kn_links K w' (kk_keyring k) = (kn_links K w (kk_keyring k))(Key item \<mapsto> j) \<and>
      ring_view K (kk_keyring k) w' = (ring_view K (kk_keyring k) w)(Key item \<mapsto> key_data item)"
proof -
  from keyctlAdd_lawful [OF keys r i(1) i(2)] obtain j w' where
    w': "keyctlAdd api (kk_keyring k) ''user'' (Key item) (Data item) w = (Inr j, w')"
    "kn_links K w' = (kn_links K w)(kk_keyring k := (kn_links K w (kk_keyring k))(Key item \<mapsto> j))"
    "kn_payload K w' j = bytes_of (Data item)"
    "\<forall>i\<in>linked K rings w'. i \<noteq> j \<longrightarrow> kn_payload K w' i = kn_payload K w i" .
  with ring_view_upd [OF keys r, of w' w "Key item" "Some j"] perm show ?thesis
    by (auto simp: keyctl_Set_def call_simps key_data_def)
qed

text \<open>
  Writing with other permissions goes through the session keyring: the key is added there, given
  its permissions, linked into the keyring and unlinked from the session. The keyring must not be
  the session keyring.
\<close>

lemma keyctl_Set_perm:
  assumes keys: "lawful_keys api K rings okd fits" and moves: "lawful_moves api K rings okperm"
    and r: "kk_keyring k \<in> rings" and s: "KEY_SPEC_SESSION_KEYRING \<in> rings"
    and i: "okd (Key item)" "fits (bytes_of (Data item))"
    and perm: "kk_perm k \<noteq> 0" "okperm (kk_perm k)"
  obtains j w3 w4 where "keyctl_Set api k item w = (Inr (), w4)"
    "kn_links K w3 = (kn_links K w)
       (KEY_SPEC_SESSION_KEYRING := (kn_links K w KEY_SPEC_SESSION_KEYRING)(Key item \<mapsto> j),
        kk_keyring k := (kn_links K w (kk_keyring k))(Key item \<mapsto> j))"
    "kn_links K w4 = (kn_links K w3)
       (KEY_SPEC_SESSION_KEYRING := (kn_links K w3 KEY_SPEC_SESSION_KEYRING)(Key item := None))"
    "j \<in> linked K rings w4 \<longrightarrow> kn_payload K w4 j = bytes_of (Data item)"
    "\<forall>i\<in>linked K rings w4. i \<noteq> j \<longrightarrow> kn_payload K w4 i = kn_payload K w i"
proof -
  let ?S = KEY_SPEC_SESSION_KEYRING and ?d = "Key item" and ?r = "kk_keyring k"
  from keyctlAdd_lawful [OF keys s i(1) i(2)] obtain j w1 where
    w1: "keyctlAdd api ?S ''user'' ?d (Data item) w = (Inr j, w1)"
    "kn_links K w1 = (kn_links K w)(?S := (kn_links K w ?S)(?d \<mapsto> j))"
    "kn_payload K w1 j = bytes_of (Data item)"
    "\<forall>i\<in>linked K rings w1. i \<noteq> j \<longrightarrow> kn_payload K w1 i = kn_payload K w i" .
  then have j1: "kn_links K w1 ?S ?d = Some j" by simp
  from keyctlSetperm_lawful [OF moves linkedI [OF s j1] perm(2)] obtain w2 where
    w2: "keyctlSetperm api j (kk_perm k) w1 = (Inr (), w2)" "kn_links K w2 = kn_links K w1"
    "\<forall>i\<in>linked K rings w2. kn_payload K w2 i = kn_payload K w1 i" .
  with j1 have j2: "kn_links K w2 ?S ?d = Some j" by simp
  from keyctlLink_lawful [OF moves s r j2] obtain w3 where
    w3: "keyctlLink api ?r j w2 = (Inr (), w3)"
    "kn_links K w3 = (kn_links K w2)(?r := (kn_links K w2 ?r)(?d \<mapsto> j))"
    "\<forall>i\<in>linked K rings w3. kn_payload K w3 i = kn_payload K w2 i" .
  with j2 have j3: "kn_links K w3 ?S ?d = Some j" by simp
  from keyctlUnlink_lawful [OF moves s j3] obtain w4 where
    w4: "keyctlUnlink api ?S j w3 = (Inr (), w4)"
    "kn_links K w4 = (kn_links K w3)(?S := (kn_links K w3 ?S)(?d := None))"
    "\<forall>i\<in>linked K rings w4. kn_payload K w4 i = kn_payload K w3 i" .
  have l2: "linked K rings w2 = linked K rings w1" by (simp add: linked_def w2(2))
  have l3: "linked K rings w3 \<subseteq> linked K rings w2"
    using linked_upd [OF w3(2), of rings] linkedI [OF s j2] by auto
  have l4: "linked K rings w4 \<subseteq> linked K rings w3"
    using linked_upd [OF w4(2), of rings] by simp
  have pay: "\<forall>i\<in>linked K rings w4. kn_payload K w4 i = kn_payload K w1 i"
    using w2(3) w3(3) w4(3) l2 l3 l4 by (metis subsetD)
  show thesis
  proof (rule that [of w4 w3 j])
    show "keyctl_Set api k item w = (Inr (), w4)"
      using perm(1) w1(1) w2(1) w3(1) w4(1) by (simp add: keyctl_Set_def call_simps)
    show "kn_links K w3 = (kn_links K w)
        (?S := (kn_links K w ?S)(?d \<mapsto> j), ?r := (kn_links K w ?r)(?d \<mapsto> j))"
      unfolding w3(2) w2(2) w1(2) by (cases "?r = ?S") auto
    show "\<forall>i\<in>linked K rings w4. i \<noteq> j \<longrightarrow> kn_payload K w4 i = kn_payload K w i"
      using pay w1(4) l2 l3 l4 by auto
  qed (use pay w1(3) w4(2) in auto)
qed

lemma keyctl_Set_other_ring:
  assumes "lawful_keys api K rings okd fits" "lawful_moves api K rings okperm"
    and r: "kk_keyring k \<in> rings" and s: "KEY_SPEC_SESSION_KEYRING \<in> rings"
    and "okd (Key item)" "fits (bytes_of (Data item))" "kk_perm k \<noteq> 0" "okperm (kk_perm k)"
    and ne: "kk_keyring k \<noteq> KEY_SPEC_SESSION_KEYRING"
  shows "\<exists>w' j. keyctl_Set api k item w = (Inr (), w') \<and>
      kn_links K w' (kk_keyring k) = (kn_links K w (kk_keyring k))(Key item \<mapsto> j) \<and>
      ring_view K (kk_keyring k) w' = (ring_view K (kk_keyring k) w)(Key item \<mapsto> key_data item)"
proof -
  let ?S = KEY_SPEC_SESSION_KEYRING and ?d = "Key item" and ?r = "kk_keyring k"
  from keyctl_Set_perm [OF assms(1-8)] obtain j w3 w4 where
    w: "keyctl_Set api k item w = (Inr (), w4)"
    "kn_links K w3 = (kn_links K w)
       (?S := (kn_links K w ?S)(?d \<mapsto> j), ?r := (kn_links K w ?r)(?d \<mapsto> j))"
    "kn_links K w4 = (kn_links K w3)(?S := (kn_links K w3 ?S)(?d := None))"
    "j \<in> linked K rings w4 \<longrightarrow> kn_payload K w4 j = bytes_of (Data item)"
    "\<forall>i\<in>linked K rings w4. i \<noteq> j \<longrightarrow> kn_payload K w4 i = kn_payload K w i" .
  then have links: "kn_links K w4 ?r = (kn_links K w ?r)(?d \<mapsto> j)" using ne by simp
  then have "j \<in> linked K rings w4" using linkedI [where K = K and w = w4 and d = ?d and i = j, OF r] by simp
  with w links ring_view_upd [OF assms(1) r links] show ?thesis
    by (auto simp: key_data_def)
qed

text \<open>
  Listing: of every description the part behind its last semicolon comes back, which for a
  description without semicolons is the description.
\<close>

definition last_part :: "string \<Rightarrow> string" where
  "last_part d = last (Split (CHR '';'') d)"

lemma last_part_plain: "CHR '';'' \<notin> set d \<Longrightarrow> last_part d = d"
  by (simp add: last_part_def Split_no_sep)

lemma keyctl_keys_loop_lawful:
  assumes keys: "lawful_keys api K rings okd fits" and r: "r \<in> rings"
  shows "distinct ids \<Longrightarrow> \<forall>i\<in>set ids. described_member api K w r i \<Longrightarrow>
    \<exists>ds. keyctl_keys_loop api results ids w = (Inr (results @ map last_part ds), w) \<and> distinct ds \<and>
      set ds = {d. \<exists>i\<in>set ids. kn_links K w r d = Some i}"
proof (induction ids arbitrary: results)
  case Nil
  then show ?case by simp
next
  case (Cons i ids)
  from Cons.prems(2) obtain ty u g p d where
    f: "\<forall>f\<in>{ty, u, g, p}. CHR '';'' \<notin> set f" and
    s: "kc_String api (sint i) w = (Inr (described [ty, u, g, p] d), w)" and
    u: "if ty = ''user'' then kn_links K w r d = Some i else i \<notin> ran (kn_links K w r)"
    by (auto simp: described_member_def)
  note desc = keyctlDescribe_described [OF s f]
  from Cons.prems have tail: "distinct ids" "i \<notin> set ids" by auto
  note IH = Cons.IH [OF tail(1)]
  show ?case
  proof (cases "ty = ''user''")
    case True
    with u have l: "kn_links K w r d = Some i" by simp
    obtain ds where ds: "keyctl_keys_loop api (results @ [last_part d]) ids w =
        (Inr ((results @ [last_part d]) @ map last_part ds), w)"
      "distinct ds" "set ds = {d. \<exists>i\<in>set ids. kn_links K w r d = Some i}"
      using IH [of "results @ [last_part d]"] Cons.prems(2) by auto
    have "keyctl_keys_loop api results (i # ids) w = (Inr (results @ map last_part (d # ds)), w)"
      using True desc ds(1) by (simp add: map_get_def last_part_def)
    moreover have "d \<notin> set ds" using ds(3) l tail(2) by auto
    moreover have "kn_links K w r d' = Some i \<longleftrightarrow> d' = d" for d'
      using l key_description [OF keys r r _ l] by blast
    then have "set (d # ds) = {d. \<exists>i\<in>set (i # ids). kn_links K w r d = Some i}"
      by (simp only: list.set ds(3) bex_simps) (rule set_eqI, simp only: insert_iff mem_Collect_eq)
    ultimately show ?thesis using ds(2) by (metis distinct.simps(2))
  next
    case False
    with u have "kn_links K w r d' \<noteq> Some i" for d' by (auto simp: ran_def)
    then have "{d. \<exists>i\<in>set (i # ids). kn_links K w r d = Some i} =
        {d. \<exists>i\<in>set ids. kn_links K w r d = Some i}" by auto
    moreover have "keyctl_keys_loop api results (i # ids) w = keyctl_keys_loop api results ids w"
      using False desc by (simp add: map_get_def)
    moreover have "\<exists>ds. keyctl_keys_loop api results ids w = (Inr (results @ map last_part ds), w) \<and>
        distinct ds \<and> set ds = {d. \<exists>i\<in>set ids. kn_links K w r d = Some i}"
      by (rule IH) (use Cons.prems(2) in simp)
    ultimately show ?thesis by metis
  qed
qed

lemma keyctl_Keys_parts:
  assumes keys: "lawful_keys api K rings okd fits" and reads: "lawful_reads api K rings"
    and r: "kk_keyring k \<in> rings"
  shows "\<exists>ds. keyctl_Keys api k w = Some (Inr (map last_part ds), w) \<and> distinct ds \<and>
    set ds = dom (ring_view K (kk_keyring k) w)"
proof -
  let ?big = "kc_bigEndian api" and ?r = "kk_keyring k"
  from bspec [OF spec [OF conjunct2 [OF reads [unfolded lawful_reads_def]], of w] r]
  obtain ids where ids: "distinct ids" "ran (kn_links K w ?r) \<subseteq> set ids"
    and buf: "\<forall>n. \<exists>wr. kc_Buffer api (sint ?r) n w = (Inr (int (4 * length ids), wr), w) \<and>
      (4 * length ids \<le> n \<longrightarrow> wr = concat (map (int32_bytes ?big) ids))"
    and desc: "\<forall>i\<in>set ids. described_member api K w ?r i"
    by (elim exE conjE)
  have "\<exists>b. keyctlRead api ?r w = Some (Inr b, w) \<and> bytes_of b = concat (map (int32_bytes ?big) ids)"
    by (rule keyctlRead_stable, unfold length_ids_buffer) (rule buf [THEN spec])
  then obtain b where b: "keyctlRead api ?r w = Some (Inr b, w)"
    "bytes_of b = concat (map (int32_bytes ?big) ids)" by blast
  from keyctl_keys_loop_lawful [OF keys r ids(1) desc, of "[]"] obtain ds where
    "keyctl_keys_loop api [] ids w = (Inr (map last_part ds), w)" "distinct ds"
    "set ds = {d. \<exists>i\<in>set ids. kn_links K w ?r d = Some i}" by auto
  moreover have "{d. \<exists>i\<in>set ids. kn_links K w ?r d = Some i} = dom (kn_links K w ?r)"
    using ids(2) by (auto simp: ran_def)
  ultimately show ?thesis
    using b by (intro exI [of _ ds]) (simp add: keyctl_Keys_def keyctlConvertKeyBuffer_ids dom_ring_view)
qed

lemma keyctl_Keys_lawful:
  assumes "lawful_keys api K rings okd fits" "lawful_reads api K rings" "kk_keyring k \<in> rings"
    and plain: "\<forall>d\<in>dom (kn_links K w (kk_keyring k)). CHR '';'' \<notin> set d"
  shows "\<exists>ks. keyctl_Keys api k w = Some (Inr ks, w) \<and> distinct ks \<and>
    set ks = dom (ring_view K (kk_keyring k) w)"
proof -
  from keyctl_Keys_parts [OF assms(1-3)] obtain ds where
    ds: "keyctl_Keys api k w = Some (Inr (map last_part ds), w)" "distinct ds"
    "set ds = dom (ring_view K (kk_keyring k) w)" by blast
  moreover have "map last_part ds = ds"
    by (rule map_idI, rule last_part_plain) (use plain ds(3) in \<open>simp add: dom_ring_view\<close>)
  ultimately show ?thesis by auto
qed

section \<open>The keyring contract\<close>

record 'w keyctl_state =
  ks_api :: "'w keyctl_api"
  ks_kernel :: "'w kernel"
  ks_rings :: "32 word set"
  ks_keyring :: keyctlKeyring
  ks_world :: 'w

abbreviation ks_ring :: "'w keyctl_state \<Rightarrow> 32 word" where
  "ks_ring s \<equiv> kk_keyring (ks_keyring s)"

text \<open>
  A keyring object that works: the default permissions, or permissions the process can use and a
  keyring other than the session keyring; and a keyring without semicolons in its descriptions.
\<close>

definition keyctl_usable :: "(32 word \<Rightarrow> bool) \<Rightarrow> 32 word set \<Rightarrow> keyctlKeyring \<Rightarrow> bool" where
  "keyctl_usable okperm rings k \<longleftrightarrow> kk_keyring k \<in> rings \<and>
     (kk_perm k = 0 \<or> KEY_SPEC_SESSION_KEYRING \<in> rings \<and> okperm (kk_perm k) \<and>
        kk_keyring k \<noteq> KEY_SPEC_SESSION_KEYRING)"

definition keyctl_inv ::
  "(string \<Rightarrow> bool) \<Rightarrow> (bytes \<Rightarrow> bool) \<Rightarrow> (32 word \<Rightarrow> bool) \<Rightarrow> 'w keyctl_state \<Rightarrow> bool" where
  "keyctl_inv okd fits okperm s \<longleftrightarrow>
     lawful_keyctl (ks_api s) (ks_kernel s) (ks_rings s) okd fits okperm \<and>
     keyctl_usable okperm (ks_rings s) (ks_keyring s) \<and>
     (\<forall>d\<in>dom (kn_links (ks_kernel s) (ks_world s) (ks_ring s)). CHR '';'' \<notin> set d)"

definition keyctl_view :: "'w keyctl_state \<Rightarrow> string \<Rightarrow> (string \<times> bytes) option" where
  "keyctl_view s = ring_view (ks_kernel s) (ks_ring s) (ks_world s)"

definition keyctl_okitem :: "(string \<Rightarrow> bool) \<Rightarrow> (bytes \<Rightarrow> bool) \<Rightarrow> Item \<Rightarrow> bool" where
  "keyctl_okitem okd fits i \<longleftrightarrow> okd (Key i) \<and> CHR '';'' \<notin> set (Key i) \<and> fits (bytes_of (Data i))"

text \<open>A call that may not return, as a call of the contract: not returning is no result.\<close>

definition returned :: "('w \<Rightarrow> ('a res \<times> 'w) option) \<Rightarrow> ('w, 'a) call" where
  "returned m w = (case m w of None \<Rightarrow> (Inl (GoPanic ''does not return''), w) | Some r \<Rightarrow> r)"

definition keyctl_lift ::
  "('w keyctl_api \<Rightarrow> keyctlKeyring \<Rightarrow> ('w, 'a) call) \<Rightarrow> ('w keyctl_state, 'a) call" where
  "keyctl_lift m s =
     (case m (ks_api s) (ks_keyring s) (ks_world s) of (r, w) \<Rightarrow> (r, s\<lparr>ks_world := w\<rparr>))"

abbreviation keyctl_get :: "string \<Rightarrow> ('w keyctl_state, Item) call" where
  "keyctl_get key \<equiv> keyctl_lift (\<lambda>api k. returned (keyctl_Get api k key))"
abbreviation keyctl_put :: "Item \<Rightarrow> ('w keyctl_state, unit) call" where
  "keyctl_put i \<equiv> keyctl_lift (\<lambda>api k. keyctl_Set api k i)"
abbreviation keyctl_delete :: "string \<Rightarrow> ('w keyctl_state, unit) call" where
  "keyctl_delete key \<equiv> keyctl_lift (\<lambda>api k. keyctl_Remove api k key)"
abbreviation keyctl_list :: "('w keyctl_state, string list) call" where
  "keyctl_list \<equiv> keyctl_lift (\<lambda>api k. returned (keyctl_Keys api k))"

lemma keyctl_invD:
  assumes "keyctl_inv okd fits okperm s"
  shows "lawful_keys (ks_api s) (ks_kernel s) (ks_rings s) okd fits"
    "lawful_reads (ks_api s) (ks_kernel s) (ks_rings s)"
    "lawful_moves (ks_api s) (ks_kernel s) (ks_rings s) okperm"
    "ks_ring s \<in> ks_rings s"
    "\<forall>d\<in>dom (kn_links (ks_kernel s) (ks_world s) (ks_ring s)). CHR '';'' \<notin> set d"
  using assms by (simp_all add: keyctl_inv_def lawful_keyctl_def keyctl_usable_def)

lemma keyctl_Set_lawful:
  assumes inv: "keyctl_inv okd fits okperm s" and i: "keyctl_okitem okd fits i"
  shows "\<exists>w' j. keyctl_Set (ks_api s) (ks_keyring s) i (ks_world s) = (Inr (), w') \<and>
      kn_links (ks_kernel s) w' (ks_ring s) =
        (kn_links (ks_kernel s) (ks_world s) (ks_ring s))(Key i \<mapsto> j) \<and>
      ring_view (ks_kernel s) (ks_ring s) w' =
        (ring_view (ks_kernel s) (ks_ring s) (ks_world s))(Key i \<mapsto> key_data i)"
proof (cases "kk_perm (ks_keyring s) = 0")
  case True
  with keyctl_Set_default [OF keyctl_invD(1,4) [OF inv], of i] i show ?thesis
    by (simp add: keyctl_okitem_def)
next
  case False
  with keyctl_Set_other_ring [OF keyctl_invD(1,3,4) [OF inv], of i] i inv show ?thesis
    by (simp add: keyctl_okitem_def keyctl_inv_def keyctl_usable_def)
qed

interpretation keyctl: keyring_reports_missing "keyctl_inv okd fits okperm" keyctl_view
  okd "keyctl_okitem okd fits" key_data keyctl_get keyctl_put keyctl_delete keyctl_list
  for okd fits okperm
proof (unfold_locales, goal_cases)
  case (1 i)
  then show ?case by (simp add: keyctl_okitem_def)
next
  case (2 s k v)
  with keyctl_Get_lawful [OF keyctl_invD(1,2,4) [OF 2(1)] 2(2), of "ks_world s"] show ?case
    by (auto simp: keyctl_lift_def returned_def keyctl_view_def keyctl_inv_def)
next
  case (3 s k)
  with keyctl_Get_lawful [OF keyctl_invD(1,2,4) [OF 3(1)] 3(2), of "ks_world s"] show ?case
    by (auto simp: keyctl_lift_def returned_def keyctl_view_def keyctl_inv_def)
next
  case (4 s i)
  from keyctl_Set_lawful [OF this] 4 show ?case
    by (fastforce simp: keyctl_lift_def keyctl_view_def keyctl_inv_def keyctl_okitem_def)
next
  case (5 s k)
  from keyctl_Remove_lawful [OF keyctl_invD(1,3,4) [OF 5(1)] 5(2), of "ks_world s"] 5(1) show ?case
    by (fastforce simp: keyctl_lift_def keyctl_view_def keyctl_inv_def)
next
  case (6 s)
  from keyctl_Keys_lawful [OF keyctl_invD(1,2,4,5) [OF 6]] 6 show ?case
    by (auto simp: keyctl_lift_def returned_def keyctl_view_def keyctl_inv_def)
next
  case (7 s k)
  with keyctl_Remove_lawful [OF keyctl_invD(1,3,4) [OF 7(1)] 7(2), of "ks_world s"] show ?case
    by (auto simp: keyctl_lift_def keyctl_view_def)
qed

section \<open>A kernel in memory\<close>

text \<open>
  A user keyring and a session keyring that accept descriptions of one byte. A key is named by its
  byte and a bit, so that the two keyrings can hold different keys with one description; the
  world says which key a keyring links under each byte, and what the keys hold.
\<close>

type_synonym mem_kernel = "(bool \<Rightarrow> nat \<Rightarrow> bool option) \<times> (32 word \<Rightarrow> bytes)"

definition mk_id :: "nat \<Rightarrow> bool \<Rightarrow> 32 word" where
  "mk_id n b = word_of_nat (16 + 2 * n + of_bool b)"

definition mk_byte :: "32 word \<Rightarrow> nat" where "mk_byte i = (unat i - 16) div 2"
definition mk_bit :: "32 word \<Rightarrow> bool" where "mk_bit i = odd (unat i)"

definition mk_rings :: "32 word set" where
  "mk_rings = {KEY_SPEC_USER_KEYRING, KEY_SPEC_SESSION_KEYRING}"

abbreviation mk_session :: "32 word \<Rightarrow> bool" where "mk_session r \<equiv> (r = KEY_SPEC_SESSION_KEYRING)"

abbreviation mk_desc :: "string \<Rightarrow> bool" where "mk_desc d \<equiv> (length d = 1)"
abbreviation mk_fits :: "bytes \<Rightarrow> bool" where "mk_fits b \<equiv> (b \<noteq> [] \<and> length b \<le> 32767)"

definition mk_link :: "mem_kernel \<Rightarrow> 32 word \<Rightarrow> string \<Rightarrow> 32 word option" where
  "mk_link w r d =
     (if r \<in> mk_rings \<and> mk_desc d
      then map_option (mk_id (of_char (hd d))) (fst w (mk_session r) (of_char (hd d))) else None)"

definition mk_kernel :: "mem_kernel kernel" where
  "mk_kernel = \<lparr>kn_links = mk_link, kn_payload = snd\<rparr>"

definition mk_set :: "mem_kernel \<Rightarrow> bool \<Rightarrow> nat \<Rightarrow> bool option \<Rightarrow> mem_kernel" where
  "mk_set w s n b = ((fst w)(s := (fst w s)(n := b)), snd w)"

definition mk_ids :: "mem_kernel \<Rightarrow> bool \<Rightarrow> 32 word list" where
  "mk_ids w s = map (\<lambda>n. mk_id n (the (fst w s n))) (filter (\<lambda>n. fst w s n \<noteq> None) [0..<256])"

definition mk_read :: "bytes \<Rightarrow> nat \<Rightarrow> (int \<times> bytes) res" where
  "mk_read data n = Inr (int (length data), if length data \<le> n then data else [])"

definition mk_api :: "mem_kernel keyctl_api" where
  "mk_api =
    \<lparr>kc_AddKey = (\<lambda>ty d b r w.
       let n = of_char (hd d); s = mk_session (word_of_int r);
           v = (case fst w s n of Some v \<Rightarrow> v | None \<Rightarrow> fst w (\<not> s) n \<noteq> Some True)
       in if mk_desc d \<and> mk_fits (bytes_of b) \<and> word_of_int r \<in> mk_rings
          then (Inr (sint (mk_id n v)),
            (fst (mk_set w s n (Some v)), (snd w)(mk_id n v := bytes_of b)))
          else (Inl (Errno 22), w)),
     kc_Search = (\<lambda>r ty d dest w.
       (case mk_link w (word_of_int r) d of None \<Rightarrow> Inl ENOKEY | Some i \<Rightarrow> Inr (sint i), w)),
     kc_Buffer = (\<lambda>i n w.
       (if word_of_int i \<in> mk_rings
        then mk_read (concat (map (int32_bytes False) (mk_ids w (mk_session (word_of_int i))))) n
        else mk_read (snd w (word_of_int i)) n, w)),
     kc_String = (\<lambda>i w.
       (Inr (described [''user'', ''0'', ''0'', ''3f010000''] [char_of (mk_byte (word_of_int i))]), w)),
     kc_Setperm = (\<lambda>i p w. (Inr (), w)),
     kc_GetKeyringID = (\<lambda>i create w. (Inr i, w)),
     kc_Syscall = (\<lambda>c child parent w.
       (0, mk_set w (mk_session (ucast parent)) (mk_byte (ucast child))
             (if c = KEYCTL_LINK then Some (mk_bit (ucast child)) else None))),
     kc_bigEndian = False\<rparr>"

lemma mk_id_decode:
  assumes "n < 256"
  shows "mk_byte (mk_id n b) = n" "mk_bit (mk_id n b) = b" "mk_id n b \<notin> mk_rings"
proof -
  have u: "unat (mk_id n b) = 16 + 2 * n + of_bool b"
    using assms unfolding mk_id_def by (subst unat_of_nat) (cases b; simp)
  then show "mk_byte (mk_id n b) = n" "mk_bit (mk_id n b) = b"
    by (cases b; simp add: mk_byte_def mk_bit_def)+
  have "unat r \<ge> 600" if "r \<in> mk_rings" for r
    using that by (auto simp: mk_rings_def KEY_SPEC_USER_KEYRING_def KEY_SPEC_SESSION_KEYRING_def)
  from this [of "mk_id n b"] u assms show "mk_id n b \<notin> mk_rings" by (cases b) auto
qed

lemma mk_id_inject:
  assumes "n < 256" "m < 256"
  shows "mk_id n b = mk_id m c \<longleftrightarrow> n = m \<and> b = c"
proof
  assume "mk_id n b = mk_id m c"
  then have "mk_byte (mk_id n b) = mk_byte (mk_id m c)" "mk_bit (mk_id n b) = mk_bit (mk_id m c)"
    by simp_all
  then show "n = m \<and> b = c" by (simp add: mk_id_decode(1,2) assms)
qed simp

lemma byte_less: "(of_char c :: nat) < 256"
proof -
  have "(of_char c :: nat) mod 256 < 256" by (rule mod_less_divisor) simp
  then show ?thesis by (simp only: of_char_mod_256)
qed

lemma mk_scast: "ucast (scast i :: 64 word) = (i :: 32 word)"
  by (rule bit_word_eqI) (simp add: bit_simps)

lemma mk_link_Some:
  "mk_link w r d = Some i \<longleftrightarrow> r \<in> mk_rings \<and> mk_desc d \<and>
     (\<exists>b. fst w (mk_session r) (of_char (hd d)) = Some b \<and> i = mk_id (of_char (hd d)) b)"
  by (auto simp: mk_link_def)

lemma mk_ids_set: "set (mk_ids w s) = {i. \<exists>n b. n < 256 \<and> fst w s n = Some b \<and> i = mk_id n b}"
  by (force simp: mk_ids_def image_iff)

lemma mk_ids_distinct: "distinct (mk_ids w s)"
  unfolding mk_ids_def
  by (rule distinct_map_filter_inj) (auto simp: inj_on_def mk_id_inject)

lemma mk_linked: "i \<in> linked mk_kernel mk_rings w \<longleftrightarrow>
  (\<exists>r\<in>mk_rings. \<exists>n b. n < 256 \<and> fst w (mk_session r) n = Some b \<and> i = mk_id n b)"
proof
  assume "i \<in> linked mk_kernel mk_rings w"
  then show "\<exists>r\<in>mk_rings. \<exists>n b. n < 256 \<and> fst w (mk_session r) n = Some b \<and> i = mk_id n b"
    by (auto simp: linked_def mk_kernel_def ran_def mk_link_Some intro: byte_less)
next
  assume "\<exists>r\<in>mk_rings. \<exists>n b. n < 256 \<and> fst w (mk_session r) n = Some b \<and> i = mk_id n b"
  then obtain r n b where r: "r \<in> mk_rings" "n < 256" "fst w (mk_session r) n = Some b" "i = mk_id n b"
    by blast
  then have "mk_link w r [char_of n] = Some i" by (simp add: mk_link_Some)
  with r(1) show "i \<in> linked mk_kernel mk_rings w"
    by (auto intro: linkedI simp: mk_kernel_def)
qed

lemma other_bit: "x \<noteq> Some (x \<noteq> Some True)"
  by (cases x) auto

lemma mk_link_payload: "mk_link (fst w, p) = mk_link w"
  by (rule ext)+ (simp add: mk_link_def)

lemma mk_link_set:
  assumes "r \<in> mk_rings" "mk_desc d"
  shows "mk_link (mk_set w (mk_session r) (of_char (hd d)) v) =
    (mk_link w)(r := (mk_link w r)(d := map_option (mk_id (of_char (hd d))) v))"
proof (intro ext)
  fix r' d'
  have s: "r' \<in> mk_rings \<Longrightarrow> mk_session r' = mk_session r \<longleftrightarrow> r' = r" for r'
    using assms(1) by (auto simp: mk_rings_def)
  show "mk_link (mk_set w (mk_session r) (of_char (hd d)) v) r' d' =
      ((mk_link w)(r := (mk_link w r)(d := map_option (mk_id (of_char (hd d))) v))) r' d'"
    using assms s [of r'] by (auto simp: mk_link_def mk_set_def length_Suc_conv)
qed

lemma mk_lawful_keys: "lawful_keys mk_api mk_kernel mk_rings mk_desc mk_fits"
  unfolding lawful_keys_def
proof (intro conjI allI ballI impI, goal_cases)
  case (1 w r r' d d' i)
  then show ?case
    by (auto simp: mk_kernel_def mk_link_Some mk_id_inject byte_less length_Suc_conv)
next
  case (2 w r d)
  then show ?case by (simp add: mk_api_def mk_kernel_def split: option.split)
next
  case (3 w r d b)
  let ?n = "of_char (hd d) :: nat" and ?s = "mk_session r"
  let ?v = "case fst w ?s ?n of Some v \<Rightarrow> v | None \<Rightarrow> fst w (\<not> ?s) ?n \<noteq> Some True"
  let ?w = "(fst (mk_set w ?s ?n (Some ?v)), (snd w)(mk_id ?n ?v := bytes_of b))"
  have add: "kc_AddKey mk_api ''user'' d b (sint r) w = (Inr (sint (mk_id ?n ?v)), ?w)"
    using 3 by (simp add: mk_api_def Let_def cong: option.case_cong)
  have links: "kn_links mk_kernel ?w =
      (kn_links mk_kernel w)(r := (kn_links mk_kernel w r)(d \<mapsto> mk_id ?n ?v))"
    using mk_link_set [of r d w "Some ?v"] 3 by (simp add: mk_kernel_def mk_link_payload)
  have new: "case kn_links mk_kernel w r d of
      None \<Rightarrow> mk_id ?n ?v \<notin> linked mk_kernel mk_rings w | Some j \<Rightarrow> mk_id ?n ?v = j"
  proof (cases "fst w ?s ?n")
    case None
    have "mk_id ?n ?v \<notin> linked mk_kernel mk_rings w"
    proof
      assume "mk_id ?n ?v \<in> linked mk_kernel mk_rings w"
      then obtain r' where "r' \<in> mk_rings" "fst w (mk_session r') ?n = Some ?v"
        by (auto simp: mk_linked mk_id_inject byte_less)
      with None other_bit show False by (cases "mk_session r' = ?s") auto
    qed
    with None show ?thesis by (simp add: mk_kernel_def mk_link_def)
  next
    case (Some v)
    with 3 show ?thesis by (simp add: mk_kernel_def mk_link_def)
  qed
  show ?case
    by (rule exI [of _ "mk_id ?n ?v"], rule exI [of _ ?w]) (use add links new in \<open>auto simp: mk_kernel_def\<close>)
qed

lemma mk_read_wr:
  "\<exists>wr. mk_read data n = Inr (int (length data), wr) \<and> (length data \<le> n \<longrightarrow> wr = data)"
  by (simp add: mk_read_def)

lemma mk_lawful_reads: "lawful_reads mk_api mk_kernel mk_rings"
  unfolding lawful_reads_def
proof (intro conjI allI ballI, goal_cases)
  case (1 w i n)
  then have "i \<notin> mk_rings" by (auto simp: mk_linked mk_id_decode)
  with mk_read_wr [of "snd w i" n] show ?case by (auto simp: mk_api_def mk_kernel_def)
next
  case (2 w r)
  let ?ids = "mk_ids w (mk_session r)"
  have "ran (kn_links mk_kernel w r) \<subseteq> set ?ids"
    by (auto simp: mk_kernel_def ran_def mk_link_Some mk_ids_set intro: byte_less)
  moreover have "described_member mk_api mk_kernel w r i" if "i \<in> set ?ids" for i
  proof -
    from that obtain n b where n: "n < 256" "fst w (mk_session r) n = Some b" "i = mk_id n b"
      by (auto simp: mk_ids_set)
    with 2 have "mk_link w r [char_of n] = Some i" by (simp add: mk_link_Some)
    then show ?thesis unfolding described_member_def
      by (intro exI [of _ "''user''"] exI [of _ "''0''"] exI [of _ "''3f010000''"] exI [of _ "[char_of n]"])
        (simp add: mk_api_def mk_kernel_def n mk_id_decode)
  qed
  moreover have "\<exists>wr. kc_Buffer mk_api (sint r) n w = (Inr (int (4 * length ?ids), wr), w) \<and>
      (4 * length ?ids \<le> n \<longrightarrow> wr = concat (map (int32_bytes (kc_bigEndian mk_api)) ?ids))" for n
    using mk_read_wr [of "concat (map (int32_bytes False) ?ids)" n] 2
    unfolding length_ids_buffer by (auto simp: mk_api_def)
  ultimately show ?case using mk_ids_distinct by blast
qed

lemma mk_lawful_moves: "lawful_moves mk_api mk_kernel mk_rings (\<lambda>_. True)"
  unfolding lawful_moves_def
proof (intro conjI allI ballI impI, goal_cases)
  case (1 w i p)
  then show ?case by (simp add: mk_api_def)
next
  case (2 w r r' d i)
  then obtain v where v: "mk_desc d" "i = mk_id (of_char (hd d)) v"
    by (auto simp: mk_kernel_def mk_link_Some)
  with 2 mk_link_set [of r' d w "Some v"] show ?case
    by (simp add: mk_api_def mk_kernel_def mk_scast mk_id_decode byte_less) (simp add: mk_set_def)
next
  case (3 w r d i)
  then obtain v where v: "mk_desc d" "i = mk_id (of_char (hd d)) v"
    by (auto simp: mk_kernel_def mk_link_Some)
  with 3 mk_link_set [of r d w None] show ?case
    by (simp add: mk_api_def mk_kernel_def mk_scast mk_id_decode byte_less KEYCTL_LINK_def
        KEYCTL_UNLINK_def) (simp add: mk_set_def)
qed

lemma mk_lawful: "lawful_keyctl mk_api mk_kernel mk_rings mk_desc mk_fits (\<lambda>_. True)"
  unfolding lawful_keyctl_def using mk_lawful_keys mk_lawful_reads mk_lawful_moves by blast

section \<open>Properties\<close>

definition keyctl_step :: "kop \<Rightarrow> 'w keyctl_state \<Rightarrow> 'w keyctl_state" where
  "keyctl_step = step_kop keyctl_get keyctl_put keyctl_delete keyctl_list"

text \<open>
  \<^bold>\<open>C21.\<close> Over a kernel that behaves as documented, any sequence of calls on a usable \<open>keyctl\<close> keyring,
  with keys free of semicolons and data the kernel accepts, returns and makes the keyring the map the
  calls describe, for the default permissions and for special ones alike: \<open>Get\<close> answers with the key
  and the bytes last set, \<open>ErrKeyNotFound\<close> when there are none, and \<open>Keys\<close> lists exactly the keys.
\<close>

theorem keyctl_history:
  assumes "keyctl_inv okd fits okperm s"
    and "list_all (ok_kop okd (keyctl_okitem okd fits)) ps" and "okd key"
  shows "get_answers key_data (fold (spec_kop key_data) ps (keyctl_view s) key)
      (fst (keyctl_get key (fold keyctl_step ps s))) \<and>
    (\<exists>ks. fst (keyctl_list (fold keyctl_step ps s)) = Inr ks \<and>
       distinct ks \<and> set ks = dom (fold (spec_kop key_data) ps (keyctl_view s)))"
  using keyctl.history [OF assms] unfolding keyctl_step_def .

definition empty_kernel :: mem_kernel where
  "empty_kernel = ((\<lambda>s n. None), (\<lambda>i. []))"

definition sample_keyctl :: "32 word \<Rightarrow> mem_kernel keyctl_state" where
  "sample_keyctl r = \<lparr>ks_api = mk_api, ks_kernel = mk_kernel, ks_rings = mk_rings,
     ks_keyring = \<lparr>kk_keyring = r, kk_perm = GetPermissions KEYCTL_PERM_ALL KEYCTL_PERM_ALL 0 0\<rparr>,
     ks_world = empty_kernel\<rparr>"

lemma sample_perm: "GetPermissions KEYCTL_PERM_ALL KEYCTL_PERM_ALL 0 0 \<noteq> 0"
  by code_simp

lemma sample_keyctl_inv: "keyctl_inv mk_desc mk_fits (\<lambda>_. True) (sample_keyctl KEY_SPEC_USER_KEYRING)"
  unfolding keyctl_inv_def keyctl_usable_def sample_keyctl_def keyctl_state.select_convs
  by (intro conjI mk_lawful)
    (auto simp: mk_rings_def mk_kernel_def mk_link_def empty_kernel_def sample_perm
      KEY_SPEC_USER_KEYRING_def KEY_SPEC_SESSION_KEYRING_def split: if_splits)

theorem keyctl_history_witness:
  "fst (keyctl_list (fold keyctl_step
      [KSet (zero_Item\<lparr>Key := ''b'', Data := Some ''3''\<rparr>), KRemove ''a'']
      (sample_keyctl KEY_SPEC_USER_KEYRING))) = Inr [''b'']"
proof -
  let ?i = "zero_Item\<lparr>Key := ''b'', Data := Some ''3''\<rparr>" and ?s = "sample_keyctl KEY_SPEC_USER_KEYRING"
  have "keyctl_view ?s = (\<lambda>_. None)"
    by (rule ext) (simp add: keyctl_view_def ring_view_def sample_keyctl_def mk_kernel_def mk_link_def
        empty_kernel_def)
  then have "dom (fold (spec_kop key_data) [KSet ?i, KRemove ''a''] (keyctl_view ?s)) = {''b''}"
    by auto
  with keyctl_history [OF sample_keyctl_inv, of "[KSet ?i, KRemove ''a'']" "''a''"] show ?thesis
    by (auto simp: keyctl_okitem_def dest: distinct_set_singleton)
qed

text \<open>
  \<^bold>\<open>C22.\<close> With special permissions and the session keyring itself as the keyring, \<open>Set\<close> reports success
  and the item is gone: the last step takes the key out of the session keyring again. Whatever was
  stored under the key before is lost too, and the next \<open>Get\<close> answers \<open>ErrKeyNotFound\<close>.
\<close>

theorem keyctl_session_perm_loses:
  assumes "lawful_keyctl api K rings okd fits okperm"
    and "KEY_SPEC_SESSION_KEYRING \<in> rings" and "kk_keyring k = KEY_SPEC_SESSION_KEYRING"
    and "kk_perm k \<noteq> 0" and "okperm (kk_perm k)" and "okd (Key i)" and "fits (bytes_of (Data i))"
  shows "\<exists>w'. keyctl_Set api k i w = (Inr (), w') \<and>
    keyctl_Get api k (Key i) w' = Some (Inl ErrKeyNotFound, w')"
proof -
  from assms(1) have keys: "lawful_keys api K rings okd fits" "lawful_moves api K rings okperm"
    "lawful_reads api K rings" by (simp_all add: lawful_keyctl_def)
  have r: "kk_keyring k \<in> rings" using assms(2,3) by simp
  from keyctl_Set_perm [OF keys(1,2) r assms(2,6,7,4,5)] obtain w3 w4 where
    w4: "keyctl_Set api k i w = (Inr (), w4)" "kn_links K w4 = (kn_links K w3)
      (KEY_SPEC_SESSION_KEYRING := (kn_links K w3 KEY_SPEC_SESSION_KEYRING)(Key i := None))"
    by metis
  then have "ring_view K (kk_keyring k) w4 (Key i) = None"
    by (simp add: ring_view_def assms(3))
  with keyctl_Get_lawful [OF keys(1,3) r assms(6), of w4] w4(1) show ?thesis by auto
qed

theorem keyctl_session_perm_loses_witness:
  "\<exists>w'. keyctl_Set mk_api
      \<lparr>kk_keyring = KEY_SPEC_SESSION_KEYRING, kk_perm = GetPermissions KEYCTL_PERM_ALL KEYCTL_PERM_ALL 0 0\<rparr>
      (zero_Item\<lparr>Key := ''b'', Data := Some ''3''\<rparr>) empty_kernel = (Inr (), w') \<and>
    keyctl_Get mk_api
      \<lparr>kk_keyring = KEY_SPEC_SESSION_KEYRING, kk_perm = GetPermissions KEYCTL_PERM_ALL KEYCTL_PERM_ALL 0 0\<rparr>
      ''b'' w' = Some (Inl ErrKeyNotFound, w')"
  using keyctl_session_perm_loses [OF mk_lawful, of
      "\<lparr>kk_keyring = KEY_SPEC_SESSION_KEYRING, kk_perm = GetPermissions KEYCTL_PERM_ALL KEYCTL_PERM_ALL 0 0\<rparr>"
      "zero_Item\<lparr>Key := ''b'', Data := Some ''3''\<rparr>" empty_kernel] sample_perm
  by (simp add: mk_rings_def)

text \<open>
  \<^bold>\<open>C23.\<close> Reading a key returns whenever the lengths the kernel reports for it stay below some bound,
  however the key changes between the calls and whatever else the kernel does, and what it returns
  without an error is the whole answer of one call, never a truncated one.
\<close>

theorem keyctlRead_returns:
  assumes "lengths_bounded api i B"
  shows "\<exists>r w'. keyctlRead api i w = Some (r, w') \<and>
    (\<forall>data. r = Inr data \<longrightarrow> complete_read api i (bytes_of data) w')"
proof -
  from keyctlRead_loop_returns [OF assms, of None w] obtain r w' where
    r: "keyctlRead api i w = Some (r, w')" by (auto simp: keyctlRead_def)
  from keyctlRead_loop_complete [OF r [unfolded keyctlRead_def]] show ?thesis
    using r by (auto simp: read_ok_def)
qed

text \<open>A key that grows by a byte with every call until it holds five.\<close>

definition growing_api :: "nat keyctl_api" where
  "growing_api =
    \<lparr>kc_AddKey = (\<lambda>ty d b r w. (Inl ENOKEY, w)), kc_Search = (\<lambda>r ty d dest w. (Inl ENOKEY, w)),
     kc_Buffer = (\<lambda>i n w. (Inr (int (min w 5), take n (replicate (min w 5) CHR ''x'')), Suc w)),
     kc_String = (\<lambda>i w. (Inl ENOKEY, w)), kc_Setperm = (\<lambda>i p w. (Inl ENOKEY, w)),
     kc_GetKeyringID = (\<lambda>i create w. (Inl ENOKEY, w)), kc_Syscall = (\<lambda>c x y w. (0, w)),
     kc_bigEndian = False\<rparr>"

theorem keyctlRead_returns_witness:
  "\<exists>r w'. keyctlRead growing_api 7 2 = Some (r, w') \<and>
    (\<forall>data. r = Inr data \<longrightarrow> complete_read growing_api 7 (bytes_of data) w')"
  by (rule keyctlRead_returns [of _ _ 5]) (simp add: lengths_bounded_def growing_api_def)

text \<open>
  \<^bold>\<open>C25.\<close> \<open>GetPermissions\<close> keeps the four permission sets apart: each of them, being six bits wide, is read
  back from its own byte of the mask, and the bits between the bytes' fields are clear.
\<close>

theorem GetPermissions_fields:
  assumes "\<forall>x\<in>{process, user, grp, others}. take_bit 6 x = (x :: 32 word)"
  shows "let perm = GetPermissions process user grp others in
    take_bit 8 (drop_bit KEYCTL_PERM_PROCESS perm) = process \<and>
    take_bit 8 (drop_bit KEYCTL_PERM_USER perm) = user \<and>
    take_bit 8 (drop_bit KEYCTL_PERM_GROUP perm) = grp \<and>
    take_bit 8 (drop_bit KEYCTL_PERM_OTHERS perm) = others"
proof -
  have b: "bit x n \<Longrightarrow> n < 6" if "take_bit 6 x = x" for x :: "32 word" and n
    using that by (metis bit_take_bit_iff)
  note defs = GetPermissions_def KEYCTL_PERM_PROCESS_def KEYCTL_PERM_USER_def KEYCTL_PERM_GROUP_def
    KEYCTL_PERM_OTHERS_def Let_def
  have x: "bit process n \<Longrightarrow> n < 6" "bit user n \<Longrightarrow> n < 6" "bit grp n \<Longrightarrow> n < 6"
    "bit others n \<Longrightarrow> n < 6" for n
    using b assms by auto
  show ?thesis unfolding defs
    by (intro conjI; rule bit_word_eqI) (auto simp: bit_simps dest: x)
qed

theorem GetPermissions_fields_witness:
  "take_bit 8 (drop_bit KEYCTL_PERM_USER
     (GetPermissions KEYCTL_PERM_ALL KEYCTL_PERM_READ 0 KEYCTL_PERM_VIEW)) = KEYCTL_PERM_READ"
proof -
  have "\<forall>x\<in>{KEYCTL_PERM_ALL, KEYCTL_PERM_READ, 0, KEYCTL_PERM_VIEW}. take_bit 6 x = (x :: 32 word)"
    by code_simp
  from GetPermissions_fields [OF this] show ?thesis by (simp add: Let_def)
qed

text \<open>
  \<^bold>\<open>C24.\<close> Over any kernel that behaves as documented, \<open>Keys\<close> answers with exactly one name per item, but
  the name is the part of the item's key behind its last semicolon: an item whose key holds a
  semicolon is listed under a name that \<open>Get\<close> does not know it by.
\<close>

theorem keyctl_Keys_last_parts:
  assumes "lawful_keyctl api K rings okd fits okperm" and "kk_keyring k \<in> rings"
  shows "\<exists>ds. keyctl_Keys api k w = Some (Inr (map last_part ds), w) \<and> distinct ds \<and>
    set ds = dom (ring_view K (kk_keyring k) w)"
proof -
  from assms(1) have "lawful_keys api K rings okd fits" "lawful_reads api K rings"
    by (simp_all add: lawful_keyctl_def)
  from keyctl_Keys_parts [OF this assms(2)] show ?thesis .
qed

definition semicolon_kernel :: mem_kernel where
  "semicolon_kernel = ((\<lambda>s n. if n = 59 \<and> \<not> s then Some True else None), (\<lambda>i. ''3''))"

theorem keyctl_Keys_last_parts_witness:
  "keyctl_Keys mk_api \<lparr>kk_keyring = KEY_SPEC_USER_KEYRING, kk_perm = 0\<rparr> semicolon_kernel =
     Some (Inr [''''], semicolon_kernel)"
proof -
  have semi: "of_char c = (59 :: nat) \<longleftrightarrow> c = CHR '';''" for c
    using of_char_eq_iff [where 'a = nat, of c "CHR '';''"] by simp
  have other: "\<not> mk_session KEY_SPEC_USER_KEYRING"
    by (simp add: KEY_SPEC_USER_KEYRING_def KEY_SPEC_SESSION_KEYRING_def)
  have "mk_link semicolon_kernel KEY_SPEC_USER_KEYRING d =
      (if d = '';'' then Some (mk_id 59 True) else None)" for d
    using other by (cases d) (auto simp: mk_link_def semicolon_kernel_def mk_rings_def semi)
  then have "dom (ring_view mk_kernel KEY_SPEC_USER_KEYRING semicolon_kernel) = {'';''}"
    by (auto simp: dom_ring_view mk_kernel_def split: if_splits)
  moreover have "last_part '';'' = ''''" by (simp add: last_part_def)
  ultimately show ?thesis
    using keyctl_Keys_last_parts [OF mk_lawful,
      of "\<lparr>kk_keyring = KEY_SPEC_USER_KEYRING, kk_perm = 0\<rparr>" semicolon_kernel]
    by (fastforce simp: mk_rings_def dest: distinct_set_singleton)
qed

end
