(* ===== verification/Secret_Service.thy ===== *)
theory Secret_Service
  imports Item_Json
begin

text \<open>
  \<open>secretservice.go\<close>: the backend over the freedesktop.org Secret Service. The library
  \<open>go-libsecret\<close> is a parameter: its objects (collections, items, sessions) are the D-Bus paths
  that name them.
\<close>

section \<open>The library\<close>

record Secret =
  sec_Session :: string
  sec_Parameters :: bytes
  sec_Value :: bytes
  sec_ContentType :: string

record 'w libsecret =
  ls_SessionBus :: "('w, unit) call"
  ls_NewService :: "('w, unit) call"
  ls_Open :: "('w, string) call"
  ls_Collections :: "('w, string list) call"
  ls_CreateCollection :: "string \<Rightarrow> ('w, string) call"
  ls_Unlock :: "string \<Rightarrow> ('w, unit) call"
  ls_Locked :: "string \<Rightarrow> ('w, bool) call"
  ls_SearchItems :: "string \<Rightarrow> string \<Rightarrow> ('w, string list) call"
  ls_Items :: "string \<Rightarrow> ('w, string list) call"
  ls_CreateItem :: "string \<Rightarrow> string \<Rightarrow> Secret \<Rightarrow> bool \<Rightarrow> ('w, string) call"
  ls_GetSecret :: "string \<Rightarrow> string \<Rightarrow> ('w, Secret) call"
  ls_Label :: "string \<Rightarrow> ('w, string) call"
  ls_Delete :: "string \<Rightarrow> ('w, unit) call"

definition libsecret_DBusPath :: string where "libsecret_DBusPath = ''/org/freedesktop/secrets''"

section \<open>Names of collections\<close>

text \<open>\<open>hex.DecodeString\<close> on two characters.\<close>

definition from_hex :: "char \<Rightarrow> nat option" where
  "from_hex c =
     (let n = byte_val c in
      if 48 \<le> n \<and> n \<le> 57 then Some (n - 48)
      else if 97 \<le> n \<and> n \<le> 102 then Some (n - 87)
      else if 65 \<le> n \<and> n \<le> 70 then Some (n - 55) else None)"

definition hex_byte :: "char \<Rightarrow> char \<Rightarrow> char option" where
  "hex_byte h l =
     (case (from_hex h, from_hex l) of
        (Some a, Some b) \<Rightarrow> Some (byte_of (16 * a + b)) | _ \<Rightarrow> None)"

text \<open>
  The loop over the bytes of \<open>src\<close>. A byte that is not an underscore is converted to a string by
  \<open>string(src[i])\<close>, which is the UTF-8 encoding of the code point with that number.
\<close>

fun decode_loop :: "string \<Rightarrow> string \<Rightarrow> string \<Rightarrow> string" where
  "decode_loop src dst [] = dst"
| "decode_loop src dst (c # r) =
     (if c \<noteq> CHR ''_'' then decode_loop src (dst @ encode_rune (byte_val c)) r
      else (case r of
              h # l # r \<Rightarrow>
                (case hex_byte h l of
                   None \<Rightarrow> src
                 | Some decoded \<Rightarrow> decode_loop src (dst @ [decoded]) r)
            | _ \<Rightarrow> src))"

definition decodeKeyringString :: "string \<Rightarrow> string" where
  "decodeKeyringString src = decode_loop src [] src"

section \<open>The keyring\<close>

record secretsKeyring =
  sk_name :: string
  sk_collection :: "string option"
  sk_session :: string

type_synonym 'w secrets_state = "secretsKeyring \<times> 'w"

abbreviation errCollectionNotFound :: goerr where
  "errCollectionNotFound \<equiv> Sentinel V_errCollectionNotFound"

fun find_collection :: "string \<Rightarrow> string list \<Rightarrow> string option" where
  "find_collection path [] = None"
| "find_collection path (collection # cs) =
     (if decodeKeyringString collection = path then Some collection else find_collection path cs)"

definition openSecrets :: "'w libsecret \<Rightarrow> ('w secrets_state, unit) call" where
  "openSecrets ls = (\<lambda>(k, w).
     (case ls_Open ls w of
        (Inl err, w) \<Rightarrow> (Inl err, (k, w))
      | (Inr session, w) \<Rightarrow>
          (let k = k\<lparr>sk_session := session\<rparr> in
           (case ls_Collections ls w of
              (Inl err, w) \<Rightarrow> (Inl err, (k, w))
            | (Inr collections, w) \<Rightarrow>
                (let path = libsecret_DBusPath @ ''/collection/'' @ sk_name k in
                 (case find_collection path collections of
                    Some c \<Rightarrow> (Inr (), (k\<lparr>sk_collection := Some c\<rparr>, w))
                  | None \<Rightarrow> (Inr (), (k, w))))))))"

definition openCollection :: "'w libsecret \<Rightarrow> ('w secrets_state, unit) call" where
  "openCollection ls = go_try (openSecrets ls) (\<lambda>_ (k, w).
     (if sk_collection k = None then (Inl errCollectionNotFound, (k, w)) else (Inr (), (k, w))))"

text \<open>A method on \<open>k.collection\<close>; a nil pointer panics.\<close>

definition with_collection :: "(string \<Rightarrow> ('w, 'a) call) \<Rightarrow> ('w secrets_state, 'a) call" where
  "with_collection m = (\<lambda>(k, w).
     (case sk_collection k of
        None \<Rightarrow> (Inl (GoPanic ''nil pointer dereference''), (k, w))
      | Some c \<Rightarrow> on_world (m c) (k, w)))"

definition ensureCollectionUnlocked :: "'w libsecret \<Rightarrow> ('w secrets_state, unit) call" where
  "ensureCollectionUnlocked ls =
     go_try (with_collection (ls_Locked ls)) (\<lambda>locked.
       if \<not> locked then go_return () else with_collection (ls_Unlock ls))"

text \<open>The lock of an item is checked and opened before it is read or deleted.\<close>

definition unlock_item :: "'w libsecret \<Rightarrow> string \<Rightarrow> ('w, unit) call" where
  "unlock_item ls item =
     go_try (ls_Locked ls item) (\<lambda>locked. if locked then ls_Unlock ls item else go_return ())"

definition secrets_Get :: "'w libsecret \<Rightarrow> string \<Rightarrow> ('w secrets_state, Item) call" where
  "secrets_Get ls key =
     go_tryE (\<lambda>err. if err = errCollectionNotFound then ErrKeyNotFound else err) (openCollection ls) (\<lambda>_.
     go_try (with_collection (\<lambda>c. ls_SearchItems ls c key)) (\<lambda>items.
       (if length items = 0 then go_fail ErrKeyNotFound
        else (let item = items ! 0 in
          go_try (on_world (unlock_item ls item)) (\<lambda>_ (k, w).
            go_try (on_world (ls_GetSecret ls item (sk_session k))) (\<lambda>secret.
              go_lift (json_Unmarshal_Item (sec_Value secret))) (k, w))))))"

definition secrets_GetMetadata :: "string \<Rightarrow> ('w secrets_state, Metadata) call" where
  "secrets_GetMetadata key = go_fail ErrMetadataNeedsCredentials"

definition secrets_Set :: "'w libsecret \<Rightarrow> Item \<Rightarrow> ('w secrets_state, unit) call" where
  "secrets_Set ls item =
     go_try (openSecrets ls) (\<lambda>_.
     go_try (\<lambda>(k, w).
       (if sk_collection k = None then
          (case ls_CreateCollection ls (sk_name k) w of
             (Inl err, w) \<Rightarrow> (Inl err, (k, w))
           | (Inr collection, w) \<Rightarrow> (Inr (), (k\<lparr>sk_collection := Some collection\<rparr>, w)))
        else (Inr (), (k, w)))) (\<lambda>_.
     go_try (ensureCollectionUnlocked ls) (\<lambda>_.
     go_try (go_lift (json_Marshal_Item item)) (\<lambda>data (k, w).
       (let secret = \<lparr>sec_Session = sk_session k, sec_Parameters = [], sec_Value = data,
                      sec_ContentType = ''application/json''\<rparr> in
        go_try (with_collection (\<lambda>c. ls_CreateItem ls c (Key item) secret True)) (\<lambda>_. go_return ())
          (k, w))))))"

definition secrets_Remove :: "'w libsecret \<Rightarrow> string \<Rightarrow> ('w secrets_state, unit) call" where
  "secrets_Remove ls key =
     go_tryE (\<lambda>err. if err = errCollectionNotFound then ErrKeyNotFound else err) (openCollection ls) (\<lambda>_.
     go_try (with_collection (\<lambda>c. ls_SearchItems ls c key)) (\<lambda>items.
       (if length items = 0 then go_return ()
        else (let item = items ! 0 in
          go_try (on_world (unlock_item ls item)) (\<lambda>_. on_world (ls_Delete ls item))))))"

text \<open>The loop over the items: an item whose label cannot be read is left out.\<close>

fun label_loop :: "'w libsecret \<Rightarrow> string list \<Rightarrow> string list \<Rightarrow> ('w, string list) call" where
  "label_loop ls keys [] w = (Inr keys, w)"
| "label_loop ls keys (item # items) w =
     (case ls_Label ls item w of
        (Inr label, w) \<Rightarrow> label_loop ls (keys @ [label]) items w
      | (Inl (GoPanic p), w) \<Rightarrow> (Inl (GoPanic p), w)
      | (Inl err, w) \<Rightarrow> label_loop ls keys items w)"

definition secrets_Keys :: "'w libsecret \<Rightarrow> ('w secrets_state, string list) call" where
  "secrets_Keys ls s =
     (case openCollection ls s of
        (Inl err, s) \<Rightarrow> if err = errCollectionNotFound then (Inr [], s) else (Inl err, s)
      | (Inr _, s) \<Rightarrow>
          go_try (ensureCollectionUnlocked ls) (\<lambda>_.
          go_try (with_collection (ls_Items ls)) (\<lambda>items. on_world (label_loop ls [] items))) s)"

definition deleteCollection :: "'w libsecret \<Rightarrow> ('w secrets_state, unit) call" where
  "deleteCollection ls = go_try (openCollection ls) (\<lambda>_. with_collection (ls_Delete ls))"

definition secrets_opener :: "'w libsecret \<Rightarrow> ('w, secretsKeyring) opener" where
  "secrets_opener ls cfg w =
     (let cfg = (if ServiceName cfg = '''' then cfg\<lparr>ServiceName := ''secret-service''\<rparr> else cfg);
          cfg = (if LibSecretCollectionName cfg = ''''
                 then cfg\<lparr>LibSecretCollectionName := ServiceName cfg\<rparr> else cfg)
      in case ls_NewService ls w of
           (Inl err, w) \<Rightarrow> (Inl err, w)
         | (Inr _, w) \<Rightarrow>
             (let ring = \<lparr>sk_name = LibSecretCollectionName cfg, sk_collection = None, sk_session = []\<rparr> in
              (case openSecrets ls (ring, w) of
                 (Inl err, (ring, w)) \<Rightarrow> (Inl err, w)
               | (Inr _, (ring, w)) \<Rightarrow> (Inr ring, w))))"

text \<open>The \<open>init\<close> function registers the opener only if there is a session bus.\<close>

definition secrets_init :: "'w libsecret \<Rightarrow> 'w \<Rightarrow> ('w, secretsKeyring) opener option \<times> 'w" where
  "secrets_init ls w =
     (case ls_SessionBus ls w of
        (Inl err, w) \<Rightarrow> (None, w)
      | (Inr _, w) \<Rightarrow> (Some (secrets_opener ls), w))"

end
