(* ===== verification/Secret_Service_Store.thy ===== *)
theory Secret_Service_Store
  imports Secret_Service "HOL-Library.AList"
begin

text \<open>
  What the Secret Service documents, as far as \<open>secretservice.go\<close> relies on it: names of
  collections survive their encoding in object paths, and over a service that behaves as
  documented the backend is a map from keys to items.
\<close>

section \<open>Names in object paths\<close>

text \<open>
  A D-Bus object path has letters, digits and underscores only; the service writes every other
  byte, the underscore included, as an underscore and two hexadecimal digits.
\<close>

definition alnum :: "char \<Rightarrow> bool" where
  "alnum c = (let n = byte_val c in
     48 \<le> n \<and> n \<le> 57 \<or> 65 \<le> n \<and> n \<le> 90 \<or> 97 \<le> n \<and> n \<le> 122)"

definition hex_digit :: "nat \<Rightarrow> char" where
  "hex_digit n = (if n < 10 then byte_of (48 + n) else byte_of (87 + n))"

definition encode_char :: "char \<Rightarrow> string" where
  "encode_char c =
     (if alnum c then [c] else [CHR ''_'', hex_digit (byte_val c div 16), hex_digit (byte_val c mod 16)])"

definition encode_name :: "string \<Rightarrow> string" where
  "encode_name n = concat (map encode_char n)"

definition collection_path :: "string \<Rightarrow> string" where
  "collection_path n = libsecret_DBusPath @ ''/collection/'' @ encode_name n"

lemma from_hex_digit: "n < 16 \<Longrightarrow> from_hex (hex_digit n) = Some n"
  by (simp add: from_hex_def hex_digit_def Let_def)

lemma hex_byte_digits: "hex_byte (hex_digit (byte_val c div 16)) (hex_digit (byte_val c mod 16)) = Some c"
proof -
  have "byte_val c div 16 < 16" using byte_val_less [of c] by (intro less_mult_imp_div_less) simp
  then show ?thesis by (simp add: hex_byte_def from_hex_digit)
qed

lemma decode_loop_plain:
  "\<forall>c\<in>set p. byte_val c < 128 \<and> c \<noteq> CHR ''_'' \<Longrightarrow>
     decode_loop src dst (p @ r) = decode_loop src (dst @ p) r"
  by (induction p arbitrary: dst) (simp_all add: encode_rune_def)

lemma decode_loop_char: "decode_loop src dst (encode_char c @ r) = decode_loop src (dst @ [c]) r"
proof (cases "alnum c")
  case True
  then have "byte_val c < 128" "c \<noteq> CHR ''_''"
    by (auto simp: alnum_def Let_def) (simp_all add: byte_val_def)
  with True show ?thesis by (simp add: encode_char_def encode_rune_def)
next
  case False
  then show ?thesis by (simp add: encode_char_def hex_byte_digits)
qed

lemma decode_loop_name: "decode_loop src dst (encode_name n) = dst @ n"
  by (induction n arbitrary: dst)
    (simp_all add: encode_name_def decode_loop_char del: decode_loop.simps, simp)

lemma decode_collection_path:
  "decodeKeyringString (collection_path n) = libsecret_DBusPath @ ''/collection/'' @ n"
proof -
  have "\<forall>c\<in>set (libsecret_DBusPath @ ''/collection/''). byte_val c < 128 \<and> c \<noteq> CHR ''_''"
    by (simp add: libsecret_DBusPath_def byte_val_def)
  from decode_loop_plain [OF this] show ?thesis
    unfolding decodeKeyringString_def collection_path_def
    by (simp only: append_assoc [symmetric] decode_loop_name append_Nil)
qed

lemma collection_path_inject [simp]: "collection_path n = collection_path m \<longleftrightarrow> n = m"
  by (metis decode_collection_path same_append_eq)

section \<open>A service that behaves as documented\<close>

text \<open>
  The part of the service's state the laws speak of: the collections, the items of a collection by
  their label (item path and secret value), which collections are unlocked, which sessions open.
\<close>

record 'w secret_store =
  ss_colls :: "'w \<Rightarrow> string list"
  ss_items :: "'w \<Rightarrow> string \<Rightarrow> string \<rightharpoonup> string \<times> bytes"
  ss_open :: "'w \<Rightarrow> string \<Rightarrow> bool"
  ss_session :: "'w \<Rightarrow> string \<Rightarrow> bool"

definition ss_frame :: "'w secret_store \<Rightarrow> 'w \<Rightarrow> 'w \<Rightarrow> bool" where
  "ss_frame K w w' \<longleftrightarrow> ss_colls K w' = ss_colls K w \<and> ss_items K w' = ss_items K w \<and>
     (\<forall>s. ss_session K w s \<longrightarrow> ss_session K w' s)"

text \<open>
  Reading needs an unlocked collection and an open session; the user answers the prompt of \<open>Unlock\<close>
  with the right password; the library searches items by the label it gives them and replaces
  an item with the same label. \<open>fits\<close> says which secret values the service stores.
\<close>

definition lawful_session :: "'w libsecret \<Rightarrow> 'w secret_store \<Rightarrow> bool" where
  "lawful_session ls K \<longleftrightarrow>
     (\<forall>w. \<exists>s w'. ls_Open ls w = (Inr s, w') \<and> ss_session K w' s \<and> ss_frame K w w') \<and>
     (\<forall>w. \<forall>c\<in>set (ss_colls K w). ls_Locked ls c w = (Inr (\<not> ss_open K w c), w) \<and>
        (\<exists>w'. ls_Unlock ls c w = (Inr (), w') \<and> ss_frame K w w' \<and> ss_open K w' c)) \<and>
     (\<forall>w c k p v. ss_items K w c k = Some (p, v) \<longrightarrow> ls_Locked ls p w = (Inr (\<not> ss_open K w c), w) \<and>
        (\<exists>w'. ls_Unlock ls p w = (Inr (), w') \<and> ss_frame K w w' \<and> ss_open K w' c))"

definition lawful_collections :: "'w libsecret \<Rightarrow> 'w secret_store \<Rightarrow> bool" where
  "lawful_collections ls K \<longleftrightarrow>
     (\<forall>w. ls_Collections ls w = (Inr (ss_colls K w), w)) \<and>
     (\<forall>w. \<forall>c\<in>set (ss_colls K w). \<exists>n. c = collection_path n) \<and>
     (\<forall>w n. collection_path n \<notin> set (ss_colls K w) \<longrightarrow>
        (\<exists>w'. ls_CreateCollection ls n w = (Inr (collection_path n), w') \<and>
           set (ss_colls K w') = insert (collection_path n) (set (ss_colls K w)) \<and>
           ss_items K w' = (ss_items K w)(collection_path n := Map.empty) \<and>
           (\<forall>s. ss_session K w s \<longrightarrow> ss_session K w' s)))"

definition lawful_items :: "'w libsecret \<Rightarrow> 'w secret_store \<Rightarrow> (bytes \<Rightarrow> bool) \<Rightarrow> bool" where
  "lawful_items ls K fits \<longleftrightarrow>
     (\<forall>w c c' k k' p v v'. ss_items K w c k = Some (p, v) \<and> ss_items K w c' k' = Some (p, v') \<longrightarrow>
        c = c' \<and> k = k') \<and>
     (\<forall>w. \<forall>c\<in>set (ss_colls K w). \<forall>k.
        ls_SearchItems ls c k w =
          (Inr (case ss_items K w c k of None \<Rightarrow> [] | Some (p, v) \<Rightarrow> [p]), w)) \<and>
     (\<forall>w. \<forall>c\<in>set (ss_colls K w). ss_open K w c \<longrightarrow>
        (\<exists>ps. ls_Items ls c w = (Inr ps, w) \<and> distinct ps \<and>
           set ps = {p. \<exists>k v. ss_items K w c k = Some (p, v)})) \<and>
     (\<forall>w c k p v. ss_items K w c k = Some (p, v) \<longrightarrow> ls_Label ls p w = (Inr k, w)) \<and>
     (\<forall>w c k p v s. ss_items K w c k = Some (p, v) \<and> ss_open K w c \<and> ss_session K w s \<longrightarrow>
        (\<exists>sec. ls_GetSecret ls p s w = (Inr sec, w) \<and> sec_Value sec = v)) \<and>
     (\<forall>w c k p v. ss_items K w c k = Some (p, v) \<and> ss_open K w c \<longrightarrow>
        (\<exists>w'. ls_Delete ls p w = (Inr (), w') \<and> ss_colls K w' = ss_colls K w \<and>
           ss_items K w' = (ss_items K w)(c := (ss_items K w c)(k := None)))) \<and>
     (\<forall>w. \<forall>c\<in>set (ss_colls K w). \<forall>k sec.
        ss_open K w c \<and> ss_session K w (sec_Session sec) \<and> fits (sec_Value sec) \<longrightarrow>
        (\<exists>p w'. ls_CreateItem ls c k sec True w = (Inr p, w') \<and> ss_colls K w' = ss_colls K w \<and>
           ss_items K w' = (ss_items K w)(c := (ss_items K w c)(k \<mapsto> (p, sec_Value sec)))))"

definition lawful_secrets :: "'w libsecret \<Rightarrow> 'w secret_store \<Rightarrow> (bytes \<Rightarrow> bool) \<Rightarrow> bool" where
  "lawful_secrets ls K fits \<longleftrightarrow>
     lawful_session ls K \<and> lawful_collections ls K \<and> lawful_items ls K fits"

lemma lawful_secretsD:
  assumes "lawful_secrets ls K fits"
  shows "lawful_session ls K" "lawful_collections ls K" "lawful_items ls K fits"
  using assms by (simp_all add: lawful_secrets_def)

lemma session_laws:
  assumes "lawful_secrets ls K fits"
  shows "\<exists>s w'. ls_Open ls w = (Inr s, w') \<and> ss_session K w' s \<and> ss_frame K w w'"
    "c \<in> set (ss_colls K w) \<Longrightarrow> ls_Locked ls c w = (Inr (\<not> ss_open K w c), w)"
    "c \<in> set (ss_colls K w) \<Longrightarrow> \<exists>w'. ls_Unlock ls c w = (Inr (), w') \<and> ss_frame K w w' \<and> ss_open K w' c"
    "ss_items K w c k = Some (p, v) \<Longrightarrow> ls_Locked ls p w = (Inr (\<not> ss_open K w c), w)"
    "ss_items K w c k = Some (p, v) \<Longrightarrow>
       \<exists>w'. ls_Unlock ls p w = (Inr (), w') \<and> ss_frame K w w' \<and> ss_open K w' c"
  using lawful_secretsD(1) [OF assms, unfolded lawful_session_def] by - (blast+)

lemma collection_laws:
  assumes "lawful_secrets ls K fits"
  shows "ls_Collections ls w = (Inr (ss_colls K w), w)"
    "\<forall>c\<in>set (ss_colls K w). \<exists>n. c = collection_path n"
    "collection_path n \<notin> set (ss_colls K w) \<Longrightarrow>
        \<exists>w'. ls_CreateCollection ls n w = (Inr (collection_path n), w') \<and>
           set (ss_colls K w') = insert (collection_path n) (set (ss_colls K w)) \<and>
           ss_items K w' = (ss_items K w)(collection_path n := Map.empty) \<and>
           (\<forall>s. ss_session K w s \<longrightarrow> ss_session K w' s)"
  using lawful_secretsD(2) [OF assms, unfolded lawful_collections_def] by - (blast+)

lemma item_laws:
  assumes "lawful_secrets ls K fits"
  shows "ss_items K w c k = Some (p, v) \<Longrightarrow> ss_items K w c' k' = Some (p, v') \<Longrightarrow> c = c' \<and> k = k'"
    "c \<in> set (ss_colls K w) \<Longrightarrow> ls_SearchItems ls c k w =
       (Inr (case ss_items K w c k of None \<Rightarrow> [] | Some (p, v) \<Rightarrow> [p]), w)"
    "c \<in> set (ss_colls K w) \<Longrightarrow> ss_open K w c \<Longrightarrow> \<exists>ps. ls_Items ls c w = (Inr ps, w) \<and>
       distinct ps \<and> set ps = {p. \<exists>k v. ss_items K w c k = Some (p, v)}"
    "ss_items K w c k = Some (p, v) \<Longrightarrow> ls_Label ls p w = (Inr k, w)"
    "ss_items K w c k = Some (p, v) \<Longrightarrow> ss_open K w c \<Longrightarrow> ss_session K w s \<Longrightarrow>
       \<exists>sec. ls_GetSecret ls p s w = (Inr sec, w) \<and> sec_Value sec = v"
    "ss_items K w c k = Some (p, v) \<Longrightarrow> ss_open K w c \<Longrightarrow>
       \<exists>w'. ls_Delete ls p w = (Inr (), w') \<and> ss_colls K w' = ss_colls K w \<and>
         ss_items K w' = (ss_items K w)(c := (ss_items K w c)(k := None))"
    "c \<in> set (ss_colls K w) \<Longrightarrow> ss_open K w c \<Longrightarrow> ss_session K w (sec_Session sec) \<Longrightarrow>
       fits (sec_Value sec) \<Longrightarrow>
       \<exists>p w'. ls_CreateItem ls c k sec True w = (Inr p, w') \<and> ss_colls K w' = ss_colls K w \<and>
         ss_items K w' = (ss_items K w)(c := (ss_items K w c)(k \<mapsto> (p, sec_Value sec)))"
proof -
  note laws = lawful_secretsD(3) [OF assms, unfolded lawful_items_def]
  note search = conjunct1 [OF conjunct2 [OF laws]] and rest = conjunct2 [OF conjunct2 [OF laws]]
  note list = conjunct1 [OF rest] and more = conjunct2 [OF rest]
  note label = conjunct1 [OF more] and secret = conjunct1 [OF conjunct2 [OF more]]
  note delete = conjunct1 [OF conjunct2 [OF conjunct2 [OF more]]]
    and create = conjunct2 [OF conjunct2 [OF conjunct2 [OF more]]]
  show "ss_items K w c k = Some (p, v) \<Longrightarrow> ss_items K w c' k' = Some (p, v') \<Longrightarrow> c = c' \<and> k = k'"
    using conjunct1 [OF laws] by blast
  show "c \<in> set (ss_colls K w) \<Longrightarrow> ls_SearchItems ls c k w =
       (Inr (case ss_items K w c k of None \<Rightarrow> [] | Some (p, v) \<Rightarrow> [p]), w)"
    using search by simp
  show "c \<in> set (ss_colls K w) \<Longrightarrow> ss_open K w c \<Longrightarrow> \<exists>ps. ls_Items ls c w = (Inr ps, w) \<and>
       distinct ps \<and> set ps = {p. \<exists>k v. ss_items K w c k = Some (p, v)}"
    using list by blast
  show "ss_items K w c k = Some (p, v) \<Longrightarrow> ls_Label ls p w = (Inr k, w)"
    using label by blast
  show "ss_items K w c k = Some (p, v) \<Longrightarrow> ss_open K w c \<Longrightarrow> ss_session K w s \<Longrightarrow>
       \<exists>sec. ls_GetSecret ls p s w = (Inr sec, w) \<and> sec_Value sec = v"
    using secret by blast
  show "ss_items K w c k = Some (p, v) \<Longrightarrow> ss_open K w c \<Longrightarrow>
       \<exists>w'. ls_Delete ls p w = (Inr (), w') \<and> ss_colls K w' = ss_colls K w \<and>
         ss_items K w' = (ss_items K w)(c := (ss_items K w c)(k := None))"
    using delete by blast
  show "c \<in> set (ss_colls K w) \<Longrightarrow> ss_open K w c \<Longrightarrow> ss_session K w (sec_Session sec) \<Longrightarrow>
       fits (sec_Value sec) \<Longrightarrow>
       \<exists>p w'. ls_CreateItem ls c k sec True w = (Inr p, w') \<and> ss_colls K w' = ss_colls K w \<and>
         ss_items K w' = (ss_items K w)(c := (ss_items K w c)(k \<mapsto> (p, sec_Value sec)))"
    using create by blast
qed

lemma ss_frame_trans: "ss_frame K w w1 \<Longrightarrow> ss_frame K w1 w2 \<Longrightarrow> ss_frame K w w2"
  by (simp add: ss_frame_def)

lemma ss_frame_refl [simp]: "ss_frame K w w"
  by (simp add: ss_frame_def)

section \<open>Opening the collection\<close>

text \<open>The collection of a keyring object: it points to the right one if it points to one.\<close>

definition coll_of :: "'w secret_store \<Rightarrow> 'w \<Rightarrow> secretsKeyring \<Rightarrow> string option" where
  "coll_of K w k = (if collection_path (sk_name k) \<in> set (ss_colls K w)
     then Some (collection_path (sk_name k)) else None)"

definition secrets_ok :: "'w secret_store \<Rightarrow> 'w \<Rightarrow> secretsKeyring \<Rightarrow> bool" where
  "secrets_ok K w k \<longleftrightarrow> sk_collection k = None \<or> sk_collection k = coll_of K w k"

lemma find_collection_path:
  assumes "\<forall>c\<in>set cs. \<exists>n. c = collection_path n"
  shows "find_collection (libsecret_DBusPath @ ''/collection/'' @ n) cs =
    (if collection_path n \<in> set cs then Some (collection_path n) else None)"
  using assms by (induction cs) (auto simp: decode_collection_path)

lemma openSecrets_lawful:
  assumes law: "lawful_secrets ls K fits" and ok: "secrets_ok K w k"
  obtains k' w' where "openSecrets ls (k, w) = (Inr (), (k', w'))" "ss_frame K w w'"
    "sk_name k' = sk_name k" "sk_collection k' = coll_of K w k" "ss_session K w' (sk_session k')"
proof -
  from session_laws(1) [OF law] obtain s w' where
    o: "ls_Open ls w = (Inr s, w')" "ss_session K w' s" "ss_frame K w w'" by blast
  note cs = collection_laws(1) [OF law, of w'] and paths = collection_laws(2) [OF law, of w']
  have same: "ss_colls K w' = ss_colls K w" using o(3) by (simp add: ss_frame_def)
  let ?k = "k\<lparr>sk_session := s, sk_collection := coll_of K w k\<rparr>"
  have "openSecrets ls (k, w) = (Inr (), (?k, w'))"
    using o(1) cs find_collection_path [OF paths] ok
    by (auto simp: openSecrets_def Let_def coll_of_def secrets_ok_def same)
  then show thesis using o by (intro that [of ?k w']) simp_all
qed

lemma openCollection_lawful:
  assumes law: "lawful_secrets ls K fits" and ok: "secrets_ok K w k"
  obtains k' w' where "ss_frame K w w'" "sk_name k' = sk_name k" "sk_collection k' = coll_of K w k"
    "ss_session K w' (sk_session k')" "openSecrets ls (k, w) = (Inr (), (k', w'))"
    "openCollection ls (k, w) =
      (case coll_of K w k of None \<Rightarrow> Inl errCollectionNotFound | Some _ \<Rightarrow> Inr (), (k', w'))"
proof -
  from openSecrets_lawful [OF assms] obtain k' w' where
    "openSecrets ls (k, w) = (Inr (), (k', w'))" "ss_frame K w w'"
    "sk_name k' = sk_name k" "sk_collection k' = coll_of K w k" "ss_session K w' (sk_session k')" .
  then show thesis
    by (intro that [of w' k'])
      (auto simp: openCollection_def call_simps split: option.split)
qed

lemma ensureCollectionUnlocked_lawful:
  assumes law: "lawful_secrets ls K fits" and c: "sk_collection k = Some c" "c \<in> set (ss_colls K w)"
  obtains w' where "ensureCollectionUnlocked ls (k, w) = (Inr (), (k, w'))" "ss_frame K w w'"
    "ss_open K w' c"
proof (cases "ss_open K w c")
  case True
  with session_laws(2) [OF law c(2)] have "ls_Locked ls c w = (Inr False, w)" by simp
  with True c show thesis
    by (intro that [of w]) (simp_all add: ensureCollectionUnlocked_def call_simps with_collection_def on_world_def)
next
  case False
  with session_laws(2,3) [OF law c(2)] obtain w' where "ls_Locked ls c w = (Inr True, w)"
    "ls_Unlock ls c w = (Inr (), w')" "ss_frame K w w'" "ss_open K w' c" by auto
  with c show thesis
    by (intro that [of w']) (simp_all add: ensureCollectionUnlocked_def call_simps with_collection_def on_world_def)
qed

lemma unlock_item_lawful:
  assumes law: "lawful_secrets ls K fits" and i: "ss_items K w c key = Some (p, v)"
  obtains w' where "unlock_item ls p w = (Inr (), w')" "ss_frame K w w'" "ss_open K w' c"
proof (cases "ss_open K w c")
  case True
  with session_laws(4) [OF law i] have "ls_Locked ls p w = (Inr False, w)" by simp
  with True show thesis by (intro that [of w]) (simp_all add: unlock_item_def call_simps)
next
  case False
  with session_laws(4,5) [OF law i] obtain w' where "ls_Locked ls p w = (Inr True, w)"
    "ls_Unlock ls p w = (Inr (), w')" "ss_frame K w w'" "ss_open K w' c" by auto
  then show thesis by (intro that [of w']) (simp_all add: unlock_item_def call_simps)
qed

section \<open>The operations over such a service\<close>

text \<open>The items of a keyring as the service holds them: item path and secret by label.\<close>

definition secrets_map :: "'w secret_store \<Rightarrow> secretsKeyring \<times> 'w \<Rightarrow> string \<rightharpoonup> string \<times> bytes" where
  "secrets_map K s = (case coll_of K (snd s) (fst s) of
     None \<Rightarrow> Map.empty | Some c \<Rightarrow> ss_items K (snd s) c)"

lemma coll_of_frame: "ss_frame K w w' \<Longrightarrow> sk_name k' = sk_name k \<Longrightarrow> coll_of K w' k' = coll_of K w k"
  by (simp add: coll_of_def ss_frame_def)

lemma secrets_map_frame:
  "ss_frame K w w' \<Longrightarrow> sk_name k' = sk_name k \<Longrightarrow> secrets_map K (k', w') = secrets_map K (k, w)"
  by (simp add: secrets_map_def coll_of_frame) (simp add: ss_frame_def split: option.split)

text \<open>What every operation keeps: the name, and a collection pointer that is right.\<close>

definition secrets_kept :: "'w secret_store \<Rightarrow> secretsKeyring \<times> 'w \<Rightarrow> secretsKeyring \<times> 'w \<Rightarrow> bool" where
  "secrets_kept K s s' \<longleftrightarrow> sk_name (fst s') = sk_name (fst s) \<and> secrets_ok K (snd s') (fst s')"

lemma secrets_Get_lawful:
  assumes law: "lawful_secrets ls K fits" and ok: "secrets_ok K w k"
  shows "\<exists>s'. secrets_Get ls key (k, w) =
      (case secrets_map K (k, w) key of
         None \<Rightarrow> Inl ErrKeyNotFound | Some (p, v) \<Rightarrow> json_Unmarshal_Item v, s') \<and>
    secrets_kept K (k, w) s' \<and> secrets_map K s' = secrets_map K (k, w)"
proof -
  from openCollection_lawful [OF assms] obtain k1 w1 where
    k1: "ss_frame K w w1" "sk_name k1 = sk_name k" "sk_collection k1 = coll_of K w k"
    "ss_session K w1 (sk_session k1)"
    "openCollection ls (k, w) =
      (case coll_of K w k of None \<Rightarrow> Inl errCollectionNotFound | Some _ \<Rightarrow> Inr (), (k1, w1))"
    by metis
  have kept: "secrets_kept K (k, w) (k1, w') \<and> secrets_map K (k1, w') = secrets_map K (k, w)"
    if "ss_frame K w1 w'" for w'
    using ss_frame_trans [OF k1(1) that] k1(2,3)
    by (simp add: secrets_kept_def secrets_ok_def coll_of_frame secrets_map_frame)
  show ?thesis
  proof (cases "coll_of K w k")
    case None
    with k1(5) kept [of w1] show ?thesis
      by (auto simp: secrets_Get_def call_simps secrets_map_def)
  next
    case (Some c)
    with k1 have c: "c \<in> set (ss_colls K w1)" "sk_collection k1 = Some c"
      by (auto simp: coll_of_def ss_frame_def split: if_splits)
    have m: "secrets_map K (k, w) key = ss_items K w1 c key"
      using Some k1(1) by (simp add: secrets_map_def ss_frame_def)
    note s = item_laws(2) [OF law c(1), of key]
    show ?thesis
    proof (cases "ss_items K w1 c key")
      case None
      with s k1(5) Some c m kept [of w1] show ?thesis
        by (auto simp: secrets_Get_def call_simps with_collection_def on_world_def)
    next
      case (Some pv)
      obtain p v where pv: "pv = (p, v)" by (cases pv)
      with Some have i: "ss_items K w1 c key = Some (p, v)" by simp
      from unlock_item_lawful [OF law i] obtain w2 where
        w2: "unlock_item ls p w1 = (Inr (), w2)" "ss_frame K w1 w2" "ss_open K w2 c" .
      then have "ss_items K w2 c key = Some (p, v)" "ss_session K w2 (sk_session k1)"
        using i k1(4) by (simp_all add: ss_frame_def)
      with item_laws(5) [OF law _ w2(3)] obtain sec where
        "ls_GetSecret ls p (sk_session k1) w2 = (Inr sec, w2)" "sec_Value sec = v" by blast
      with s i k1(5) \<open>coll_of K w k = Some c\<close> c m kept [OF w2(2)] w2(1) show ?thesis
        by (auto simp: secrets_Get_def call_simps with_collection_def on_world_def)
    qed
  qed
qed

lemma secrets_Set_lawful:
  assumes law: "lawful_secrets ls K fits" and ok: "secrets_ok K w k"
    and fits: "fits (item.text_of i)"
  shows "\<exists>s' p. secrets_Set ls i (k, w) = (Inr (), s') \<and> secrets_kept K (k, w) s' \<and>
    secrets_map K s' = (secrets_map K (k, w))(Key i \<mapsto> (p, item.text_of i))"
proof -
  let ?c = "collection_path (sk_name k)"
  from openSecrets_lawful [OF law ok] obtain k1 w1 where
    k1: "openSecrets ls (k, w) = (Inr (), (k1, w1))" "ss_frame K w w1"
    "sk_name k1 = sk_name k" "sk_collection k1 = coll_of K w k" "ss_session K w1 (sk_session k1)" .
  let ?create = "\<lambda>(k, w).
       (if sk_collection k = None then
          (case ls_CreateCollection ls (sk_name k) w of
             (Inl err, w) \<Rightarrow> (Inl err, (k, w))
           | (Inr collection, w) \<Rightarrow> (Inr (), (k\<lparr>sk_collection := Some collection\<rparr>, w)))
        else (Inr (), (k, w)))"
  have "\<exists>w2. ?create (k1, w1) = (Inr (), (k1\<lparr>sk_collection := Some ?c\<rparr>, w2)) \<and>
      ?c \<in> set (ss_colls K w2) \<and> ss_items K w2 ?c = secrets_map K (k, w) \<and>
      ss_session K w2 (sk_session k1)"
  proof (cases "coll_of K w k")
    case None
    with k1(2) have "?c \<notin> set (ss_colls K w1)"
      by (simp add: coll_of_def ss_frame_def split: if_splits)
    from collection_laws(3) [OF law this] None k1 show ?thesis
      by (auto simp: secrets_map_def)
  next
    case (Some c)
    then have "c = ?c" "?c \<in> set (ss_colls K w)" by (simp_all add: coll_of_def split: if_splits)
    with Some k1 show ?thesis
      by (intro exI [of _ w1]) (auto simp: secrets_map_def ss_frame_def)
  qed
  then obtain w2 where w2: "?create (k1, w1) = (Inr (), (k1\<lparr>sk_collection := Some ?c\<rparr>, w2))"
    "?c \<in> set (ss_colls K w2)" "ss_items K w2 ?c = secrets_map K (k, w)"
    "ss_session K w2 (sk_session k1)" by blast
  let ?k = "k1\<lparr>sk_collection := Some ?c\<rparr>"
  from ensureCollectionUnlocked_lawful [OF law _ w2(2), of ?k] obtain w3 where
    w3: "ensureCollectionUnlocked ls (?k, w2) = (Inr (), (?k, w3))" "ss_frame K w2 w3" "ss_open K w3 ?c"
    by auto
  let ?sec = "\<lparr>sec_Session = sk_session k1, sec_Parameters = [], sec_Value = item.text_of i,
      sec_ContentType = ''application/json''\<rparr>"
  have c3: "?c \<in> set (ss_colls K w3)" and s3: "ss_session K w3 (sec_Session ?sec)"
    using w2(2,4) w3(2) by (simp_all add: ss_frame_def)
  from item_laws(7) [OF law c3 w3(3) s3, of "Key i"] fits obtain p w4 where
    w4: "ls_CreateItem ls ?c (Key i) ?sec True w3 = (Inr p, w4)" "ss_colls K w4 = ss_colls K w3"
    "ss_items K w4 = (ss_items K w3)(?c := (ss_items K w3 ?c)(Key i \<mapsto> (p, item.text_of i)))"
    by auto
  have "secrets_Set ls i (k, w) = (Inr (), (?k, w4))"
    using k1(1) w2(1) w3(1) w4(1) item.enc_text [of i]
    by (simp add: secrets_Set_def call_simps with_collection_def on_world_def Let_def)
  moreover have "coll_of K w4 ?k = Some ?c"
    using c3 w4(2) k1(3) by (simp add: coll_of_def)
  moreover have "ss_items K w3 ?c = secrets_map K (k, w)"
    using w2(3) w3(2) by (simp add: ss_frame_def)
  ultimately show ?thesis
    using k1(3) w4(3)
    by (intro exI [of _ "(?k, w4)"] exI [of _ p]) (simp add: secrets_kept_def secrets_ok_def secrets_map_def)
qed

lemma secrets_Remove_lawful:
  assumes law: "lawful_secrets ls K fits" and ok: "secrets_ok K w k"
  shows "\<exists>r s'. secrets_Remove ls key (k, w) = (r, s') \<and>
    (secrets_map K (k, w) key \<noteq> None \<longrightarrow> r = Inr ()) \<and>
    secrets_kept K (k, w) s' \<and> secrets_map K s' = (secrets_map K (k, w))(key := None)"
proof -
  from openCollection_lawful [OF assms] obtain k1 w1 where
    k1: "ss_frame K w w1" "sk_name k1 = sk_name k" "sk_collection k1 = coll_of K w k"
    "openCollection ls (k, w) =
      (case coll_of K w k of None \<Rightarrow> Inl errCollectionNotFound | Some _ \<Rightarrow> Inr (), (k1, w1))"
    by metis
  have kept: "secrets_kept K (k, w) (k1, w1)" and same: "secrets_map K (k1, w1) = secrets_map K (k, w)"
    using k1 by (simp_all add: secrets_kept_def secrets_ok_def coll_of_frame secrets_map_frame)
  show ?thesis
  proof (cases "coll_of K w k")
    case None
    then have "secrets_map K (k, w) = Map.empty" by (simp add: secrets_map_def)
    with None k1(4) kept same show ?thesis
      by (auto simp: secrets_Remove_def call_simps)
  next
    case (Some c)
    with k1 have c: "c \<in> set (ss_colls K w1)" "sk_collection k1 = Some c" "coll_of K w1 k1 = Some c"
      by (auto simp: coll_of_def ss_frame_def split: if_splits)
    then have m: "secrets_map K (k, w) = ss_items K w1 c"
      using same by (simp add: secrets_map_def)
    note s = item_laws(2) [OF law c(1), of key]
    show ?thesis
    proof (cases "ss_items K w1 c key")
      case None
      then have "(secrets_map K (k, w))(key := None) = secrets_map K (k, w)"
        using m by (simp add: fun_upd_idem)
      with None s k1(4) Some c kept same show ?thesis
        by (auto simp: secrets_Remove_def call_simps with_collection_def on_world_def)
    next
      case (Some pv)
      obtain p v where pv: "pv = (p, v)" by (cases pv)
      with Some have i: "ss_items K w1 c key = Some (p, v)" by simp
      from unlock_item_lawful [OF law i] obtain w2 where
        w2: "unlock_item ls p w1 = (Inr (), w2)" "ss_frame K w1 w2" "ss_open K w2 c" .
      with i have i2: "ss_items K w2 c key = Some (p, v)" by (simp add: ss_frame_def)
      from item_laws(6) [OF law i2 w2(3)] obtain w3 where
        w3: "ls_Delete ls p w2 = (Inr (), w3)" "ss_colls K w3 = ss_colls K w2"
        "ss_items K w3 = (ss_items K w2)(c := (ss_items K w2 c)(key := None))" by blast
      have "coll_of K w3 k1 = Some c"
        using c(3) w2(2) w3(2) by (simp add: coll_of_def ss_frame_def)
      then have "secrets_kept K (k, w) (k1, w3)" "secrets_map K (k1, w3) = (secrets_map K (k, w))(key := None)"
        using c k1(2) w2(2) w3(3) m by (simp_all add: secrets_kept_def secrets_ok_def secrets_map_def ss_frame_def)
      with s i k1(4) \<open>coll_of K w k = Some c\<close> c w2(1) w3(1) show ?thesis
        by (auto simp: secrets_Remove_def call_simps with_collection_def on_world_def)
    qed
  qed
qed

lemma label_loop_lawful:
  assumes "\<forall>p\<in>set ps. ls_Label ls p w = (Inr (f p), w)"
  shows "label_loop ls keys ps w = (Inr (keys @ map f ps), w)"
  using assms by (induction ps arbitrary: keys) simp_all

lemma secrets_Keys_lawful:
  assumes law: "lawful_secrets ls K fits" and ok: "secrets_ok K w k"
  shows "\<exists>ks s'. secrets_Keys ls (k, w) = (Inr ks, s') \<and> distinct ks \<and>
    set ks = dom (secrets_map K (k, w)) \<and>
    secrets_kept K (k, w) s' \<and> secrets_map K s' = secrets_map K (k, w)"
proof -
  from openCollection_lawful [OF assms] obtain k1 w1 where
    k1: "ss_frame K w w1" "sk_name k1 = sk_name k" "sk_collection k1 = coll_of K w k"
    "openCollection ls (k, w) =
      (case coll_of K w k of None \<Rightarrow> Inl errCollectionNotFound | Some _ \<Rightarrow> Inr (), (k1, w1))"
    by metis
  have kept: "secrets_kept K (k, w) (k1, w') \<and> secrets_map K (k1, w') = secrets_map K (k, w)"
    if "ss_frame K w1 w'" for w'
    using ss_frame_trans [OF k1(1) that] k1(2,3)
    by (simp add: secrets_kept_def secrets_ok_def coll_of_frame secrets_map_frame)
  show ?thesis
  proof (cases "coll_of K w k")
    case None
    then have "secrets_map K (k, w) = Map.empty" by (simp add: secrets_map_def)
    with None k1(4) kept [of w1] show ?thesis by (auto simp: secrets_Keys_def)
  next
    case (Some c)
    with k1 have c: "c \<in> set (ss_colls K w1)" "sk_collection k1 = Some c"
      by (auto simp: coll_of_def ss_frame_def split: if_splits)
    from ensureCollectionUnlocked_lawful [OF law c(2,1)] obtain w2 where
      w2: "ensureCollectionUnlocked ls (k1, w1) = (Inr (), (k1, w2))" "ss_frame K w1 w2" "ss_open K w2 c" .
    with c(1) have "c \<in> set (ss_colls K w2)" by (simp add: ss_frame_def)
    from item_laws(3) [OF law this w2(3)] obtain ps where
      ps: "ls_Items ls c w2 = (Inr ps, w2)" "distinct ps"
      "set ps = {p. \<exists>k v. ss_items K w2 c k = Some (p, v)}" by blast
    have m: "secrets_map K (k, w) = ss_items K w2 c"
      using Some k1(1) w2(2) by (simp add: secrets_map_def ss_frame_def)
    define f where "f p = projr (fst (ls_Label ls p w2))" for p
    have label: "ss_items K w2 c key = Some (p, v) \<Longrightarrow> ls_Label ls p w2 = (Inr key, w2)" for key p v
      by (rule item_laws(4) [OF law])
    then have f: "ss_items K w2 c key = Some (p, v) \<Longrightarrow> f p = key" for key p v
      by (simp add: f_def)
    have "\<forall>p\<in>set ps. ls_Label ls p w2 = (Inr (f p), w2)"
      using ps(3) label f by auto
    from label_loop_lawful [OF this, of "[]"] have
      "label_loop ls [] ps w2 = (Inr (map f ps), w2)" by simp
    moreover have "inj_on f (set ps)"
    proof (rule inj_onI)
      fix x y
      assume xy: "x \<in> set ps" "y \<in> set ps" "f x = f y"
      then obtain kx vx ky vy where
        i: "ss_items K w2 c kx = Some (x, vx)" "ss_items K w2 c ky = Some (y, vy)"
        using ps(3) by auto
      from f [OF i(1)] f [OF i(2)] xy(3) i show "x = y" by simp
    qed
    then have "distinct (map f ps)" using ps(2) by (simp add: distinct_map)
    moreover have "set (map f ps) = dom (secrets_map K (k, w))"
      using ps(3) f m by (force simp: image_iff)
    moreover note kept [OF w2(2)]
    ultimately show ?thesis
      using k1(4) Some c w2(1) ps(1)
      by (auto simp: secrets_Keys_def call_simps with_collection_def on_world_def)
  qed
qed

section \<open>The keyring contract\<close>

record 'w secrets_env =
  se_ls :: "'w libsecret"
  se_store :: "'w secret_store"
  se_state :: "'w secrets_state"

text \<open>
  A usable keyring: its collection pointer is right, and what its collection holds are items in
  JSON, under their own keys.
\<close>

definition secrets_item :: "string \<times> bytes \<Rightarrow> Item option" where
  "secrets_item pv = (case json_Unmarshal_Item (snd pv) of Inr i \<Rightarrow> Some i | Inl e \<Rightarrow> None)"

definition secrets_inv :: "(bytes \<Rightarrow> bool) \<Rightarrow> 'w secrets_env \<Rightarrow> bool" where
  "secrets_inv fits s \<longleftrightarrow> lawful_secrets (se_ls s) (se_store s) fits \<and>
     secrets_ok (se_store s) (snd (se_state s)) (fst (se_state s)) \<and>
     (\<forall>pv\<in>ran (secrets_map (se_store s) (se_state s)). secrets_item pv \<noteq> None)"

definition secrets_view :: "'w secrets_env \<Rightarrow> string \<Rightarrow> Item option" where
  "secrets_view s key = Option.bind (secrets_map (se_store s) (se_state s) key) secrets_item"

definition secrets_okitem :: "(bytes \<Rightarrow> bool) \<Rightarrow> Item \<Rightarrow> bool" where
  "secrets_okitem fits i \<longleftrightarrow> utf8_Item i \<and> fits (item.text_of i)"

definition secrets_lift ::
  "('w libsecret \<Rightarrow> ('w secrets_state, 'a) call) \<Rightarrow> ('w secrets_env, 'a) call" where
  "secrets_lift m s = (case m (se_ls s) (se_state s) of (r, st) \<Rightarrow> (r, s\<lparr>se_state := st\<rparr>))"

lemma secrets_item_Some [simp]: "secrets_item pv = Some i \<longleftrightarrow> json_Unmarshal_Item (snd pv) = Inr i"
  by (simp add: secrets_item_def split: sum.split)

lemma secrets_item_text: "utf8_Item i \<Longrightarrow> secrets_item (p, item.text_of i) = Some i"
  by (simp add: item.dec_text)

lemma dom_secrets_view:
  "secrets_inv fits s \<Longrightarrow> dom (secrets_view s) = dom (secrets_map (se_store s) (se_state s))"
  by (rule set_eqI, case_tac "secrets_map (se_store s) (se_state s) x")
    (auto simp: secrets_view_def secrets_inv_def simp del: split_paired_All split_paired_Ex dest!: bspec [OF _ ranI])

text \<open>A step that leaves the store's view of the keyring as it was, or updates it at one key.\<close>

lemma secrets_step:
  assumes inv: "secrets_inv fits s" and kept: "secrets_kept (se_store s) (se_state s) st"
    and map: "secrets_map (se_store s) st = (secrets_map (se_store s) (se_state s))(key := v)"
    and item: "\<forall>pv. v = Some pv \<longrightarrow> secrets_item pv \<noteq> None"
  shows "secrets_inv fits (s\<lparr>se_state := st\<rparr>) \<and>
    secrets_view (s\<lparr>se_state := st\<rparr>) = (secrets_view s)(key := Option.bind v secrets_item)"
proof -
  have "ran ((secrets_map (se_store s) (se_state s))(key := v)) \<subseteq>
      ran (secrets_map (se_store s) (se_state s)) \<union> set_option v"
    by (auto simp: ran_def split: if_splits)
  then show ?thesis
    using inv kept item
    by (auto simp: secrets_inv_def secrets_kept_def secrets_view_def map fun_eq_iff)
qed

lemma secrets_same:
  assumes inv: "secrets_inv fits s" and kept: "secrets_kept (se_store s) (se_state s) st"
    and map: "secrets_map (se_store s) st = secrets_map (se_store s) (se_state s)"
  shows "secrets_inv fits (s\<lparr>se_state := st\<rparr>) \<and> secrets_view (s\<lparr>se_state := st\<rparr>) = secrets_view s"
  using assms by (simp add: secrets_inv_def secrets_kept_def secrets_view_def [abs_def])

interpretation secrets: keyring_contract "secrets_inv fits" secrets_view
  "\<lambda>_. True" "secrets_okitem fits" "\<lambda>i. i"
  "\<lambda>key. secrets_lift (\<lambda>ls. secrets_Get ls key)"
  "\<lambda>i. secrets_lift (\<lambda>ls. secrets_Set ls i)"
  "\<lambda>key. secrets_lift (\<lambda>ls. secrets_Remove ls key)"
  "secrets_lift secrets_Keys"
  for fits
proof (unfold_locales, goal_cases)
  case (1 i)
  show ?case by simp
next
  case (2 s key v)
  obtain k w where st: "se_state s = (k, w)" by (cases "se_state s")
  from 2 have law: "lawful_secrets (se_ls s) (se_store s) fits" "secrets_ok (se_store s) w k"
    by (simp_all add: secrets_inv_def st)
  from secrets_Get_lawful [OF law, of key] obtain s' where
    "secrets_Get (se_ls s) key (k, w) = (case secrets_map (se_store s) (k, w) key of
       None \<Rightarrow> Inl ErrKeyNotFound | Some (p, v) \<Rightarrow> json_Unmarshal_Item v, s')"
    "secrets_kept (se_store s) (k, w) s'" "secrets_map (se_store s) s' = secrets_map (se_store s) (k, w)"
    by blast
  moreover from 2 obtain p b where "secrets_map (se_store s) (k, w) key = Some (p, b)"
    "json_Unmarshal_Item b = Inr v"
    by (auto simp: secrets_view_def st bind_eq_Some_conv)
  ultimately show ?case using 2 secrets_same [of fits s s'] by (simp add: secrets_lift_def st)
next
  case (3 s key)
  obtain k w where st: "se_state s = (k, w)" by (cases "se_state s")
  from 3 have law: "lawful_secrets (se_ls s) (se_store s) fits" "secrets_ok (se_store s) w k"
    by (simp_all add: secrets_inv_def st)
  from secrets_Get_lawful [OF law, of key] obtain s' where
    s': "secrets_Get (se_ls s) key (k, w) = (case secrets_map (se_store s) (k, w) key of
       None \<Rightarrow> Inl ErrKeyNotFound | Some (p, v) \<Rightarrow> json_Unmarshal_Item v, s')"
    "secrets_kept (se_store s) (k, w) s'" "secrets_map (se_store s) s' = secrets_map (se_store s) (k, w)"
    by blast
  from 3 dom_secrets_view [OF 3(1)] have "secrets_map (se_store s) (k, w) key = None"
    by (metis domIff st)
  with s' 3 secrets_same [of fits s s'] show ?case by (simp add: secrets_lift_def st)
next
  case (4 s i)
  obtain k w where st: "se_state s = (k, w)" by (cases "se_state s")
  from 4 have law: "lawful_secrets (se_ls s) (se_store s) fits" "secrets_ok (se_store s) w k"
    and i: "utf8_Item i" "fits (item.text_of i)"
    by (simp_all add: secrets_inv_def secrets_okitem_def st)
  from secrets_Set_lawful [where i = i, OF law i(2)] obtain s' p where
    s': "secrets_Set (se_ls s) i (k, w) = (Inr (), s')" "secrets_kept (se_store s) (k, w) s'"
    "secrets_map (se_store s) s' = (secrets_map (se_store s) (k, w))(Key i \<mapsto> (p, item.text_of i))"
    by blast
  with secrets_step [OF 4(1), of s' "Key i" "Some (p, item.text_of i)"] show ?case
    by (simp add: st secrets_item_text [OF i(1)] item.dec_text [OF i(1)] secrets_lift_def)
next
  case (5 s key)
  obtain k w where st: "se_state s = (k, w)" by (cases "se_state s")
  from 5 have law: "lawful_secrets (se_ls s) (se_store s) fits" "secrets_ok (se_store s) w k"
    by (simp_all add: secrets_inv_def st)
  from secrets_Remove_lawful [OF law, of key] obtain r s' where
    s': "secrets_Remove (se_ls s) key (k, w) = (r, s')"
    "secrets_map (se_store s) (k, w) key \<noteq> None \<longrightarrow> r = Inr ()"
    "secrets_kept (se_store s) (k, w) s'"
    "secrets_map (se_store s) s' = (secrets_map (se_store s) (k, w))(key := None)" by blast
  have "secrets_view s key \<noteq> None \<longrightarrow> r = Inr ()"
    using s'(2) by (cases "secrets_map (se_store s) (k, w) key") (auto simp: secrets_view_def st)
  with s' secrets_step [OF 5(1), of s' key None] show ?case
    by (simp add: st secrets_lift_def)
next
  case (6 s)
  obtain k w where st: "se_state s = (k, w)" by (cases "se_state s")
  from 6 have law: "lawful_secrets (se_ls s) (se_store s) fits" "secrets_ok (se_store s) w k"
    by (simp_all add: secrets_inv_def st)
  from secrets_Keys_lawful [OF law] obtain ks s' where
    "secrets_Keys (se_ls s) (k, w) = (Inr ks, s')" "distinct ks"
    "set ks = dom (secrets_map (se_store s) (k, w))" "secrets_kept (se_store s) (k, w) s'"
    "secrets_map (se_store s) s' = secrets_map (se_store s) (k, w)" by blast
  with 6 secrets_same [of fits s s'] dom_secrets_view [OF 6] show ?case
    by (simp add: secrets_lift_def st)
qed

section \<open>A service in memory\<close>

text \<open>
  The names of the collections, the secrets by collection path and label, and the locked
  collections. An item's path is the letter \<open>i\<close>, the length of the collection's path in unary, a
  slash, the collection's path and the label.
\<close>

type_synonym mem_secrets = "string list \<times> ((string \<times> string) \<times> bytes) list \<times> string list"

definition ms_path :: "string \<Rightarrow> string \<Rightarrow> string" where
  "ms_path c k = CHR ''i'' # replicate (length c) CHR ''x'' @ ''/'' @ c @ k"

definition ms_parse :: "string \<Rightarrow> string \<times> string" where
  "ms_parse p =
     (let n = length (takeWhile (\<lambda>c. c \<noteq> CHR ''/'') (tl p)); r = drop (Suc n) (tl p)
      in (take n r, drop n r))"

lemma ms_parse_path [simp]: "ms_parse (ms_path c k) = (c, k)"
proof -
  have "takeWhile (\<lambda>x. x \<noteq> CHR ''/'') (replicate n CHR ''x'' @ CHR ''/'' # r) = replicate n CHR ''x''" for n r
    by (induction n) simp_all
  then show ?thesis by (simp add: ms_parse_def ms_path_def Let_def)
qed

definition ms_coll :: "string \<Rightarrow> string" where
  "ms_coll p = (if hd p = CHR ''i'' then fst (ms_parse p) else p)"

lemma ms_coll [simp]: "ms_coll (ms_path c k) = c" "ms_coll (collection_path n) = collection_path n"
proof -
  show "ms_coll (ms_path c k) = c" unfolding ms_coll_def by (simp, simp add: ms_path_def)
  show "ms_coll (collection_path n) = collection_path n"
    by (simp add: ms_coll_def collection_path_def libsecret_DBusPath_def)
qed

definition ms_colls :: "mem_secrets \<Rightarrow> string list" where
  "ms_colls w = map collection_path (fst w)"

definition ms_keys :: "mem_secrets \<Rightarrow> string \<Rightarrow> string list" where
  "ms_keys w c = remdups (map snd (filter (\<lambda>x. fst x = c) (map fst (fst (snd w)))))"

definition mem_libsecret :: "mem_secrets libsecret" where
  "mem_libsecret =
    \<lparr>ls_SessionBus = go_return (), ls_NewService = go_return (), ls_Open = go_return ''s'',
     ls_Collections = (\<lambda>w. (Inr (ms_colls w), w)),
     ls_CreateCollection = (\<lambda>n (ns, is, ls). (Inr (collection_path n),
        (ns @ [n], filter (\<lambda>x. fst (fst x) \<noteq> collection_path n) is, ls))),
     ls_Unlock = (\<lambda>p (ns, is, ls). (Inr (), (ns, is, filter (\<lambda>c. c \<noteq> ms_coll p) ls))),
     ls_Locked = (\<lambda>p (ns, is, ls). (Inr (ms_coll p \<in> set ls), (ns, is, ls))),
     ls_SearchItems = (\<lambda>c k w. (Inr (if map_of (fst (snd w)) (c, k) = None then [] else [ms_path c k]), w)),
     ls_Items = (\<lambda>c w. (Inr (map (ms_path c) (ms_keys w c)), w)),
     ls_CreateItem = (\<lambda>c k sec replace (ns, is, ls).
        (Inr (ms_path c k), (ns, AList.update (c, k) (sec_Value sec) is, ls))),
     ls_GetSecret = (\<lambda>p s w. (case map_of (fst (snd w)) (ms_parse p) of
        None \<Rightarrow> (Inl (Foreign ''no such object''), w)
      | Some v \<Rightarrow> (Inr \<lparr>sec_Session = s, sec_Parameters = [], sec_Value = v,
                    sec_ContentType = ''application/json''\<rparr>, w))),
     ls_Label = (\<lambda>p w. (Inr (snd (ms_parse p)), w)),
     ls_Delete = (\<lambda>p (ns, is, ls). (Inr (), (ns, AList.delete (ms_parse p) is, ls)))\<rparr>"

definition mem_store :: "mem_secrets secret_store" where
  "mem_store =
    \<lparr>ss_colls = ms_colls,
     ss_items = (\<lambda>w c k. map_option (\<lambda>v. (ms_path c k, v)) (map_of (fst (snd w)) (c, k))),
     ss_open = (\<lambda>w c. c \<notin> set (snd (snd w))),
     ss_session = (\<lambda>w s. True)\<rparr>"

lemma map_of_drop:
  "map_of (filter (\<lambda>x. fst (fst x) \<noteq> c) is) (c', k) = (if c' = c then None else map_of is (c', k))"
  by (induction "is") auto

lemma mem_session: "lawful_session mem_libsecret mem_store"
  by (auto simp: lawful_session_def mem_libsecret_def mem_store_def ss_frame_def go_return_def
      ms_colls_def)

lemma mem_collections: "lawful_collections mem_libsecret mem_store"
  by (auto simp: lawful_collections_def mem_libsecret_def mem_store_def ms_colls_def map_of_drop
      fun_eq_iff)

lemma ms_keys_set: "set (ms_keys w c) = {k. map_of (fst (snd w)) (c, k) \<noteq> None}"
  by (force simp: ms_keys_def map_of_eq_None_iff)

lemma ms_path_inject: "ms_path c k = ms_path c' k' \<longleftrightarrow> c = c' \<and> k = k'"
  by (metis ms_parse_path prod.inject)

lemma mem_items: "lawful_items mem_libsecret mem_store (\<lambda>_. True)"
  unfolding lawful_items_def
proof (intro conjI allI ballI impI, goal_cases)
  case (1 w c c' k k' p v v')
  then show ?case by (auto simp: mem_store_def ms_path_inject)
next
  case (2 w c c' k k' p v v')
  then show ?case by (auto simp: mem_store_def ms_path_inject)
next
  case (3 w c k)
  then show ?case by (simp add: mem_store_def mem_libsecret_def split: option.split)
next
  case (4 w c)
  have "distinct (map (ms_path c) (ms_keys w c))"
    by (simp add: distinct_map inj_on_def ms_path_inject) (simp add: ms_keys_def)
  moreover have "set (map (ms_path c) (ms_keys w c)) =
      {p. \<exists>k v. ss_items mem_store w c k = Some (p, v)}"
    by (auto simp: mem_store_def ms_keys_set)
  ultimately show ?case by (auto simp: mem_libsecret_def)
next
  case (5 w c k p v)
  then show ?case by (auto simp: mem_store_def mem_libsecret_def)
next
  case (6 w c k p v s)
  then show ?case by (auto simp: mem_store_def mem_libsecret_def)
next
  case (7 w c k p v)
  obtain ns ents ls where w: "w = (ns, ents, ls)" by (cases w)
  from 7 have p: "p = ms_path c k" by (auto simp: mem_store_def)
  show ?case
    by (simp add: w p mem_store_def mem_libsecret_def ms_colls_def delete_conv') (intro ext, simp)
next
  case (8 w c k sec)
  obtain ns ents ls where w: "w = (ns, ents, ls)" by (cases w)
  show ?case
    by (simp add: w mem_store_def mem_libsecret_def ms_colls_def update_conv') (intro ext, simp)
qed

lemma mem_secrets_lawful: "lawful_secrets mem_libsecret mem_store (\<lambda>_. True)"
  by (simp add: lawful_secrets_def mem_session mem_collections mem_items)

section \<open>Properties\<close>

definition secrets_step_kop :: "kop \<Rightarrow> 'w secrets_env \<Rightarrow> 'w secrets_env" where
  "secrets_step_kop = step_kop (\<lambda>key. secrets_lift (\<lambda>ls. secrets_Get ls key))
     (\<lambda>i. secrets_lift (\<lambda>ls. secrets_Set ls i))
     (\<lambda>key. secrets_lift (\<lambda>ls. secrets_Remove ls key)) (secrets_lift secrets_Keys)"

text \<open>
  \<^bold>\<open>C26.\<close> Over a Secret Service that behaves as documented, any sequence of calls on a keyring makes it
  the map from keys to items that the calls describe, whether or not its collection existed, was
  known to the keyring object or was locked when a call came: \<open>Get\<close> answers with the item last set
  in full, \<open>ErrKeyNotFound\<close> when there is none, and \<open>Keys\<close> lists exactly the keys.
\<close>

theorem secrets_history:
  assumes "lawful_secrets (se_ls s) (se_store s) fits"
    and "secrets_ok (se_store s) (snd (se_state s)) (fst (se_state s))"
    and "\<forall>pv\<in>ran (secrets_map (se_store s) (se_state s)). secrets_item pv \<noteq> None"
    and "list_all (ok_kop (\<lambda>_. True) (secrets_okitem fits)) ps"
  shows "get_answers (\<lambda>i. i) (fold (spec_kop (\<lambda>i. i)) ps (secrets_view s) key)
      (fst (secrets_lift (\<lambda>ls. secrets_Get ls key) (fold secrets_step_kop ps s))) \<and>
    (\<exists>ks. fst (secrets_lift secrets_Keys (fold secrets_step_kop ps s)) = Inr ks \<and>
       distinct ks \<and> set ks = dom (fold (spec_kop (\<lambda>i. i)) ps (secrets_view s)))"
  using secrets.history [of fits s ps key] assms unfolding secrets_step_kop_def secrets_inv_def by simp

text \<open>A keyring whose collection does not exist yet, next to a locked collection of another.\<close>

definition sample_secrets :: "mem_secrets secrets_env" where
  "sample_secrets =
     \<lparr>se_ls = mem_libsecret, se_store = mem_store,
      se_state = (\<lparr>sk_name = ''my_keys'', sk_collection = None, sk_session = []\<rparr>,
        ([''login''], [((collection_path ''login'', ''k''), ''{}'')], [collection_path ''login'']))\<rparr>"

theorem secrets_history_witness:
  "fst (secrets_lift (\<lambda>ls. secrets_Get ls ''k'') (fold secrets_step_kop
      [KSet (zero_Item\<lparr>Key := ''k'', Data := Some ''1''\<rparr>), KKeys] sample_secrets)) =
    Inr (zero_Item\<lparr>Key := ''k'', Data := Some ''1''\<rparr>)"
proof -
  let ?i = "zero_Item\<lparr>Key := ''k'', Data := Some ''1''\<rparr>"
  have "coll_of mem_store (snd (se_state sample_secrets)) (fst (se_state sample_secrets)) = None"
    by (simp add: coll_of_def sample_secrets_def mem_store_def ms_colls_def)
  then have empty: "secrets_map mem_store (se_state sample_secrets) = Map.empty"
    by (simp add: secrets_map_def)
  have "secrets_okitem (\<lambda>_. True) ?i"
    by (simp add: secrets_okitem_def utf8_Item_def zero_Item_def byte_val_def)
  with secrets_history [of sample_secrets "\<lambda>_. True" "[KSet ?i, KKeys]" "''k''"] empty
  show ?thesis
    by (simp add: mem_secrets_lawful secrets_ok_def sample_secrets_def)
qed

text \<open>
  \<^bold>\<open>C30.\<close> Collection names survive the encoding in object paths: decoding the path that the service makes
  of any name, whatever bytes it has, gives the name behind the path of the collections, so
  \<open>openSecrets\<close> finds the collection of the keyring and no other.
\<close>

theorem decode_collection_names:
  "decodeKeyringString (collection_path n) = libsecret_DBusPath @ ''/collection/'' @ n \<and>
   (decodeKeyringString (collection_path m) = libsecret_DBusPath @ ''/collection/'' @ n \<longleftrightarrow> m = n) \<and>
   find_collection (libsecret_DBusPath @ ''/collection/'' @ n) (map collection_path ns) =
     (if n \<in> set ns then Some (collection_path n) else None)"
proof -
  have "\<forall>c\<in>set (map collection_path ns). \<exists>n. c = collection_path n" by auto
  from find_collection_path [OF this] show ?thesis
    by (auto simp: decode_collection_path)
qed

text \<open>
  What \<open>Remove\<close> answers for an item that is not there depends on the collection: with the collection
  in place the call succeeds, without it the call answers \<open>ErrKeyNotFound\<close>.
\<close>

theorem secrets_Remove_missing:
  assumes "lawful_secrets ls K fits" and "secrets_ok K w k" and "secrets_map K (k, w) key = None"
  shows "fst (secrets_Remove ls key (k, w)) =
    (if coll_of K w k = None then Inl ErrKeyNotFound else Inr ())"
proof -
  from openCollection_lawful [OF assms(1,2)] obtain k1 w1 where
    k1: "ss_frame K w w1" "sk_collection k1 = coll_of K w k"
    "openCollection ls (k, w) =
      (case coll_of K w k of None \<Rightarrow> Inl errCollectionNotFound | Some _ \<Rightarrow> Inr (), (k1, w1))"
    by metis
  show ?thesis
  proof (cases "coll_of K w k")
    case None
    with k1(3) show ?thesis by (simp add: secrets_Remove_def call_simps)
  next
    case (Some c)
    with k1(1) assms(3) have "c \<in> set (ss_colls K w1)" "ss_items K w1 c key = None"
      by (auto simp: coll_of_def ss_frame_def secrets_map_def split: if_splits)
    with item_laws(2) [OF assms(1), of c w1 key] k1(2,3) Some show ?thesis
      by (simp add: secrets_Remove_def call_simps with_collection_def on_world_def)
  qed
qed

theorem secrets_Remove_missing_witness:
  "fst (secrets_Remove mem_libsecret ''k'' (se_state sample_secrets)) = Inl ErrKeyNotFound"
proof -
  have none: "coll_of mem_store (snd (se_state sample_secrets)) (fst (se_state sample_secrets)) = None"
    by (simp add: coll_of_def sample_secrets_def mem_store_def ms_colls_def)
  with secrets_Remove_missing [OF mem_secrets_lawful, of "snd (se_state sample_secrets)"
      "fst (se_state sample_secrets)" "''k''"]
  show ?thesis by (simp add: secrets_map_def secrets_ok_def sample_secrets_def)
qed

end
