(* ===== verification/KWallet.thy ===== *)
theory KWallet
  imports Item_Json "HOL-Library.AList"
begin

text \<open>
  \<open>kwallet.go\<close>: the backend over KDE's wallet, with its D-Bus bindings. The D-Bus library is a
  parameter: a method call with typed arguments that answers with a body of typed values.
\<close>

section \<open>D-Bus\<close>

datatype dbus_value =
    DBool bool
  | DInt32 "32 word"
  | DInt64 "64 word"
  | DString string
  | DStrings "string list"
  | DBytes bytes

record 'w dbus_api =
  db_SessionBus :: "('w, unit) call"
  db_Call :: "string \<Rightarrow> string \<Rightarrow> string \<Rightarrow> dbus_value list \<Rightarrow> ('w, dbus_value list) call"

definition dbusServiceName :: string where "dbusServiceName = ''org.kde.kwalletd5''"
definition dbusPath :: string where "dbusPath = ''/modules/kwalletd5''"

text \<open>
  \<open>call.Body[0].(T)\<close>: an empty body makes the index expression panic, a value of another type the
  type assertion.
\<close>

definition body_as :: "(dbus_value \<Rightarrow> 'a option) \<Rightarrow> dbus_value list \<Rightarrow> 'a res" where
  "body_as get body =
     (case body of
        [] \<Rightarrow> Inl (GoPanic ''index out of range'')
      | v # _ \<Rightarrow> (case get v of None \<Rightarrow> Inl (GoPanic ''interface conversion'') | Some x \<Rightarrow> Inr x))"

definition as_bool :: "dbus_value \<Rightarrow> bool option" where
  "as_bool v = (case v of DBool b \<Rightarrow> Some b | _ \<Rightarrow> None)"
definition as_int32 :: "dbus_value \<Rightarrow> 32 word option" where
  "as_int32 v = (case v of DInt32 i \<Rightarrow> Some i | _ \<Rightarrow> None)"
definition as_strings :: "dbus_value \<Rightarrow> string list option" where
  "as_strings v = (case v of DStrings s \<Rightarrow> Some s | _ \<Rightarrow> None)"
definition as_bytes :: "dbus_value \<Rightarrow> bytes option" where
  "as_bytes v = (case v of DBytes b \<Rightarrow> Some b | _ \<Rightarrow> None)"

section \<open>The bindings\<close>

definition kw_call :: "'w dbus_api \<Rightarrow> string \<Rightarrow> dbus_value list \<Rightarrow> ('w, dbus_value list) call" where
  "kw_call api method args = db_Call api dbusServiceName dbusPath (''org.kde.KWallet.'' @ method) args"

definition kw_IsOpen :: "'w dbus_api \<Rightarrow> 32 word \<Rightarrow> ('w, bool) call" where
  "kw_IsOpen api handle =
     go_try (kw_call api ''isOpen'' [DInt32 handle]) (\<lambda>body. go_lift (body_as as_bool body))"

definition kw_Open :: "'w dbus_api \<Rightarrow> string \<Rightarrow> 64 word \<Rightarrow> string \<Rightarrow> ('w, 32 word) call" where
  "kw_Open api name wID appid =
     go_try (kw_call api ''open'' [DString name, DInt64 wID, DString appid])
       (\<lambda>body. go_lift (body_as as_int32 body))"

definition kw_EntryList :: "'w dbus_api \<Rightarrow> 32 word \<Rightarrow> string \<Rightarrow> string \<Rightarrow> ('w, string list) call" where
  "kw_EntryList api handle folder appid =
     go_try (kw_call api ''entryList'' [DInt32 handle, DString folder, DString appid])
       (\<lambda>body. go_lift (body_as as_strings body))"

definition kw_WriteEntry ::
  "'w dbus_api \<Rightarrow> 32 word \<Rightarrow> string \<Rightarrow> string \<Rightarrow> bytes \<Rightarrow> string \<Rightarrow> ('w, unit) call" where
  "kw_WriteEntry api handle folder key value appid =
     go_try (kw_call api ''writeEntry''
       [DInt32 handle, DString folder, DString key, DBytes value, DString appid]) (\<lambda>_. go_return ())"

definition kw_RemoveEntry :: "'w dbus_api \<Rightarrow> 32 word \<Rightarrow> string \<Rightarrow> string \<Rightarrow> string \<Rightarrow> ('w, unit) call" where
  "kw_RemoveEntry api handle folder key appid =
     go_try (kw_call api ''removeEntry'' [DInt32 handle, DString folder, DString key, DString appid])
       (\<lambda>_. go_return ())"

definition kw_ReadEntry :: "'w dbus_api \<Rightarrow> 32 word \<Rightarrow> string \<Rightarrow> string \<Rightarrow> string \<Rightarrow> ('w, bytes) call" where
  "kw_ReadEntry api handle folder key appid =
     go_try (kw_call api ''readEntry'' [DInt32 handle, DString folder, DString key, DString appid])
       (\<lambda>body. go_lift (body_as as_bytes body))"

section \<open>The keyring\<close>

record kwalletKeyring =
  kw_name :: string
  kw_handle :: "32 word"
  kw_appID :: string
  kw_folder :: string

type_synonym 'w kwallet_state = "kwalletKeyring \<times> 'w"

definition openWallet :: "'w dbus_api \<Rightarrow> ('w kwallet_state, unit) call" where
  "openWallet api = (\<lambda>(k, w).
     (case kw_IsOpen api (kw_handle k) w of
        (Inl err, w) \<Rightarrow> (Inl err, (k, w))
      | (Inr isOpen, w) \<Rightarrow>
          if \<not> isOpen then
            (case kw_Open api (kw_name k) 0 (kw_appID k) w of
               (Inl err, w) \<Rightarrow> (Inl err, (k, w))
             | (Inr handle, w) \<Rightarrow> (Inr (), (k\<lparr>kw_handle := handle\<rparr>, w)))
          else (Inr (), (k, w))))"

text \<open>A binding called with the current handle, folder and application.\<close>

definition with_wallet ::
  "('w dbus_api \<Rightarrow> 32 word \<Rightarrow> string \<Rightarrow> string \<Rightarrow> ('w, 'a) call) \<Rightarrow> 'w dbus_api \<Rightarrow> ('w kwallet_state, 'a) call" where
  "with_wallet m api = (\<lambda>(k, w). on_world (m api (kw_handle k) (kw_folder k) (kw_appID k)) (k, w))"

definition kwallet_Get :: "'w dbus_api \<Rightarrow> string \<Rightarrow> ('w kwallet_state, Item) call" where
  "kwallet_Get api key =
     go_try (openWallet api) (\<lambda>_.
     go_try (with_wallet (\<lambda>api h f a. kw_ReadEntry api h f key a) api) (\<lambda>data.
       if length data = 0 then go_fail ErrKeyNotFound else go_lift (json_Unmarshal_Item data)))"

definition kwallet_GetMetadata :: "string \<Rightarrow> ('w kwallet_state, Metadata) call" where
  "kwallet_GetMetadata key = go_fail ErrMetadataNeedsCredentials"

definition kwallet_Set :: "'w dbus_api \<Rightarrow> Item \<Rightarrow> ('w kwallet_state, unit) call" where
  "kwallet_Set api item =
     go_try (openWallet api) (\<lambda>_.
     go_try (go_lift (json_Marshal_Item item)) (\<lambda>data.
       with_wallet (\<lambda>api h f a. kw_WriteEntry api h f (Key item) data a) api))"

definition kwallet_Remove :: "'w dbus_api \<Rightarrow> string \<Rightarrow> ('w kwallet_state, unit) call" where
  "kwallet_Remove api key =
     go_try (openWallet api) (\<lambda>_. with_wallet (\<lambda>api h f a. kw_RemoveEntry api h f key a) api)"

definition kwallet_Keys :: "'w dbus_api \<Rightarrow> ('w kwallet_state, string list) call" where
  "kwallet_Keys api = go_try (openWallet api) (\<lambda>_. with_wallet kw_EntryList api)"

definition newKwallet :: "'w dbus_api \<Rightarrow> ('w, unit) call" where
  "newKwallet api = db_SessionBus api"

definition kwallet_opener :: "'w dbus_api \<Rightarrow> ('w, kwalletKeyring) opener" where
  "kwallet_opener api cfg w =
     (let cfg = (if ServiceName cfg = '''' then cfg\<lparr>ServiceName := ''kdewallet''\<rparr> else cfg);
          cfg = (if KWalletAppID cfg = '''' then cfg\<lparr>KWalletAppID := ''keyring''\<rparr> else cfg);
          cfg = (if KWalletFolder cfg = '''' then cfg\<lparr>KWalletFolder := ''keyring''\<rparr> else cfg)
      in case newKwallet api w of
           (Inl err, w) \<Rightarrow> (Inl err, w)
         | (Inr _, w) \<Rightarrow>
             (let ring = \<lparr>kw_name = ServiceName cfg, kw_handle = 0, kw_appID = KWalletAppID cfg,
                          kw_folder = KWalletFolder cfg\<rparr> in
              (case openWallet api (ring, w) of
                 (Inl err, (ring, w)) \<Rightarrow> (Inl err, w)
               | (Inr _, (ring, w)) \<Rightarrow> (Inr ring, w))))"

definition kwallet_init ::
  "'w dbus_api \<Rightarrow> (string \<Rightarrow> string) \<Rightarrow> 'w \<Rightarrow> ('w, kwalletKeyring) opener option \<times> 'w" where
  "kwallet_init api getenv w =
     (if getenv ''DISABLE_KWALLET'' = ''1'' then (None, w)
      else case db_SessionBus api w of
        (Inl err, w) \<Rightarrow> (None, w)
      | (Inr _, w) \<Rightarrow> (Some (kwallet_opener api), w))"

section \<open>A wallet service that behaves as documented\<close>

text \<open>
  The wallets open under a handle, and the entries of a folder of a wallet. Handle 0 is never
  given out. The user lets the application open the wallet, and \<open>fits\<close> says which values it stores.
\<close>

record 'w wallets =
  wl_open :: "'w \<Rightarrow> 32 word \<Rightarrow> string option"
  wl_entries :: "'w \<Rightarrow> string \<Rightarrow> string \<Rightarrow> string \<rightharpoonup> bytes"

definition wl_kept :: "'w wallets \<Rightarrow> 'w \<Rightarrow> 'w \<Rightarrow> bool" where
  "wl_kept W w w' \<longleftrightarrow> (\<forall>h. wl_open W w h \<noteq> None \<longrightarrow> wl_open W w' h = wl_open W w h)"

definition lawful_kwallet :: "'w dbus_api \<Rightarrow> 'w wallets \<Rightarrow> (bytes \<Rightarrow> bool) \<Rightarrow> bool" where
  "lawful_kwallet api W fits \<longleftrightarrow>
     (\<forall>w h. kw_call api ''isOpen'' [DInt32 h] w = (Inr [DBool (wl_open W w h \<noteq> None)], w)) \<and>
     (\<forall>w. wl_open W w 0 = None) \<and>
     (\<forall>w n i a. \<exists>h w'. kw_call api ''open'' [DString n, DInt64 i, DString a] w = (Inr [DInt32 h], w') \<and>
        wl_open W w' h = Some n \<and> wl_entries W w' = wl_entries W w) \<and>
     (\<forall>w h n f a. wl_open W w h = Some n \<longrightarrow>
        (\<exists>ks. kw_call api ''entryList'' [DInt32 h, DString f, DString a] w = (Inr [DStrings ks], w) \<and>
           distinct ks \<and> set ks = dom (wl_entries W w n f)) \<and>
        (\<forall>key. kw_call api ''readEntry'' [DInt32 h, DString f, DString key, DString a] w =
           (Inr [DBytes (case wl_entries W w n f key of None \<Rightarrow> [] | Some v \<Rightarrow> v)], w)) \<and>
        (\<forall>key v. fits v \<longrightarrow>
           (\<exists>w'. kw_call api ''writeEntry''
               [DInt32 h, DString f, DString key, DBytes v, DString a] w = (Inr [DInt32 0], w') \<and>
             wl_kept W w w' \<and> wl_entries W w' =
               (wl_entries W w)(n := (wl_entries W w n)(f := (wl_entries W w n f)(key \<mapsto> v))))) \<and>
        (\<forall>key. \<exists>r w'. kw_call api ''removeEntry''
               [DInt32 h, DString f, DString key, DString a] w = (Inr [DInt32 r], w') \<and>
             wl_kept W w w' \<and> wl_entries W w' =
               (wl_entries W w)(n := (wl_entries W w n)(f := (wl_entries W w n f)(key := None)))))"

text \<open>The handle of the keyring object is closed or open on its own wallet.\<close>

definition kwallet_ok :: "'w wallets \<Rightarrow> 'w kwallet_state \<Rightarrow> bool" where
  "kwallet_ok W s \<longleftrightarrow> wl_open W (snd s) (kw_handle (fst s)) \<in> {None, Some (kw_name (fst s))}"

definition kwallet_map :: "'w wallets \<Rightarrow> 'w kwallet_state \<Rightarrow> string \<rightharpoonup> bytes" where
  "kwallet_map W s = wl_entries W (snd s) (kw_name (fst s)) (kw_folder (fst s))"

lemma openWallet_lawful:
  assumes "lawful_kwallet api W fits" "kwallet_ok W (k, w)"
  obtains k' w' where "openWallet api (k, w) = (Inr (), (k', w'))" "kw_name k' = kw_name k"
    "kw_folder k' = kw_folder k" "wl_open W w' (kw_handle k') = Some (kw_name k')"
    "kwallet_map W (k', w') = kwallet_map W (k, w)" "wl_entries W w' = wl_entries W w"
proof (cases "wl_open W w (kw_handle k)")
  case None
  with assms(1) have closed: "kw_IsOpen api (kw_handle k) w = (Inr False, w)"
    by (simp add: lawful_kwallet_def kw_IsOpen_def call_simps body_as_def as_bool_def)
  from assms(1) obtain h w' where
    h: "kw_call api ''open'' [DString (kw_name k), DInt64 0, DString (kw_appID k)] w = (Inr [DInt32 h], w')"
    "wl_open W w' h = Some (kw_name k)" "wl_entries W w' = wl_entries W w"
    unfolding lawful_kwallet_def by metis
  then have "kw_Open api (kw_name k) 0 (kw_appID k) w = (Inr h, w')"
    by (simp add: kw_Open_def call_simps body_as_def as_int32_def)
  with closed h show thesis
    by (intro that [of "k\<lparr>kw_handle := h\<rparr>" w']) (simp_all add: openWallet_def kwallet_map_def)
next
  case (Some n)
  with assms have "n = kw_name k" "kw_IsOpen api (kw_handle k) w = (Inr True, w)"
    by (simp_all add: lawful_kwallet_def kwallet_ok_def kw_IsOpen_def call_simps body_as_def as_bool_def)
  with Some show thesis by (intro that [of k w]) (simp_all add: openWallet_def)
qed

lemma wallet_laws:
  assumes "lawful_kwallet api W fits" "wl_open W w h = Some n"
  shows "\<exists>ks. kw_EntryList api h f a w = (Inr ks, w) \<and> distinct ks \<and> set ks = dom (wl_entries W w n f)"
    and "kw_ReadEntry api h f key a w =
      (Inr (case wl_entries W w n f key of None \<Rightarrow> [] | Some v \<Rightarrow> v), w)"
    and "fits v \<Longrightarrow> \<exists>w'. kw_WriteEntry api h f key v a w = (Inr (), w') \<and> wl_kept W w w' \<and>
      wl_entries W w' = (wl_entries W w)(n := (wl_entries W w n)(f := (wl_entries W w n f)(key \<mapsto> v)))"
    and "\<exists>w'. kw_RemoveEntry api h f key a w = (Inr (), w') \<and> wl_kept W w w' \<and>
      wl_entries W w' = (wl_entries W w)(n := (wl_entries W w n)(f := (wl_entries W w n f)(key := None)))"
proof -
  note laws = conjunct2 [OF conjunct2 [OF conjunct2 [OF assms(1) [unfolded lawful_kwallet_def]]],
      rule_format, OF assms(2), of f a]
  from laws obtain ks where
    "kw_call api ''entryList'' [DInt32 h, DString f, DString a] w = (Inr [DStrings ks], w)"
    "distinct ks" "set ks = dom (wl_entries W w n f)" by blast
  then show "\<exists>ks. kw_EntryList api h f a w = (Inr ks, w) \<and> distinct ks \<and> set ks = dom (wl_entries W w n f)"
    by (simp add: kw_EntryList_def call_simps body_as_def as_strings_def)
  show "kw_ReadEntry api h f key a w =
      (Inr (case wl_entries W w n f key of None \<Rightarrow> [] | Some v \<Rightarrow> v), w)"
    using laws by (simp add: kw_ReadEntry_def call_simps body_as_def as_bytes_def)
  show "\<exists>w'. kw_WriteEntry api h f key v a w = (Inr (), w') \<and> wl_kept W w w' \<and>
      wl_entries W w' = (wl_entries W w)(n := (wl_entries W w n)(f := (wl_entries W w n f)(key \<mapsto> v)))"
    if "fits v"
  proof -
    from laws that obtain w' where
      "kw_call api ''writeEntry'' [DInt32 h, DString f, DString key, DBytes v, DString a] w = (Inr [DInt32 0], w')"
      "wl_kept W w w'"
      "wl_entries W w' = (wl_entries W w)(n := (wl_entries W w n)(f := (wl_entries W w n f)(key \<mapsto> v)))"
      by blast
    then show ?thesis by (simp add: kw_WriteEntry_def call_simps)
  qed
  from laws obtain r w' where
    "kw_call api ''removeEntry'' [DInt32 h, DString f, DString key, DString a] w = (Inr [DInt32 r], w')"
    "wl_kept W w w'"
    "wl_entries W w' = (wl_entries W w)(n := (wl_entries W w n)(f := (wl_entries W w n f)(key := None)))"
    by blast
  then show "\<exists>w'. kw_RemoveEntry api h f key a w = (Inr (), w') \<and> wl_kept W w w' \<and>
      wl_entries W w' = (wl_entries W w)(n := (wl_entries W w n)(f := (wl_entries W w n f)(key := None)))"
    by (simp add: kw_RemoveEntry_def call_simps)
qed

section \<open>The operations over such a service\<close>

lemma kwallet_Get_lawful:
  assumes "lawful_kwallet api W fits" "kwallet_ok W (k, w)"
  shows "\<exists>s'. kwallet_Get api key (k, w) =
      (case kwallet_map W (k, w) key of None \<Rightarrow> Inl ErrKeyNotFound
       | Some b \<Rightarrow> if b = [] then Inl ErrKeyNotFound else json_Unmarshal_Item b, s') \<and>
    kwallet_ok W s' \<and> kwallet_map W s' = kwallet_map W (k, w)"
proof -
  from openWallet_lawful [OF assms] obtain k' w' where
    o: "openWallet api (k, w) = (Inr (), (k', w'))" "wl_open W w' (kw_handle k') = Some (kw_name k')"
    "kwallet_map W (k', w') = kwallet_map W (k, w)" by metis
  note r = wallet_laws(2) [OF assms(1) o(2), of "kw_folder k'" key "kw_appID k'"]
  have "wl_entries W w' (kw_name k') (kw_folder k') key = kwallet_map W (k, w) key"
    using o(3) by (simp add: kwallet_map_def)
  with o r show ?thesis
    by (intro exI [of _ "(k', w')"])
      (simp add: kwallet_Get_def call_simps with_wallet_def on_world_def kwallet_ok_def split: option.split)
qed

lemma kwallet_changes:
  assumes "wl_open W w' (kw_handle k') = Some (kw_name k')" "wl_kept W w' w2"
    and "wl_entries W w2 = (wl_entries W w')(kw_name k' := (wl_entries W w' (kw_name k'))
           (kw_folder k' := (wl_entries W w' (kw_name k') (kw_folder k'))(key := v)))"
  shows "kwallet_ok W (k', w2) \<and> kwallet_map W (k', w2) = (kwallet_map W (k', w'))(key := v)"
  using assms by (simp add: kwallet_ok_def kwallet_map_def wl_kept_def)

lemma kwallet_Set_lawful:
  assumes "lawful_kwallet api W fits" "kwallet_ok W (k, w)" "fits (item.text_of i)"
  shows "\<exists>s'. kwallet_Set api i (k, w) = (Inr (), s') \<and> kwallet_ok W s' \<and>
    kwallet_map W s' = (kwallet_map W (k, w))(Key i \<mapsto> item.text_of i)"
proof -
  from openWallet_lawful [OF assms(1,2)] obtain k' w' where
    o: "openWallet api (k, w) = (Inr (), (k', w'))" "wl_open W w' (kw_handle k') = Some (kw_name k')"
    "kwallet_map W (k', w') = kwallet_map W (k, w)" by metis
  from wallet_laws(3) [OF assms(1) o(2) assms(3), of "kw_folder k'" "Key i" "kw_appID k'"] obtain w2 where
    w2: "kw_WriteEntry api (kw_handle k') (kw_folder k') (Key i) (item.text_of i) (kw_appID k') w' = (Inr (), w2)"
    "wl_kept W w' w2"
    "wl_entries W w2 = (wl_entries W w')(kw_name k' := (wl_entries W w' (kw_name k'))
       (kw_folder k' := (wl_entries W w' (kw_name k') (kw_folder k'))(Key i \<mapsto> item.text_of i)))" by blast
  with o kwallet_changes [OF o(2) w2(2,3)] item.enc_text [of i] show ?thesis
    by (intro exI [of _ "(k', w2)"])
      (simp add: kwallet_Set_def call_simps with_wallet_def on_world_def)
qed

lemma kwallet_Remove_lawful:
  assumes "lawful_kwallet api W fits" "kwallet_ok W (k, w)"
  shows "\<exists>s'. kwallet_Remove api key (k, w) = (Inr (), s') \<and> kwallet_ok W s' \<and>
    kwallet_map W s' = (kwallet_map W (k, w))(key := None)"
proof -
  from openWallet_lawful [OF assms(1,2)] obtain k' w' where
    o: "openWallet api (k, w) = (Inr (), (k', w'))" "wl_open W w' (kw_handle k') = Some (kw_name k')"
    "kwallet_map W (k', w') = kwallet_map W (k, w)" by metis
  from wallet_laws(4) [OF assms(1) o(2), of "kw_folder k'" key "kw_appID k'"] obtain w2 where
    w2: "kw_RemoveEntry api (kw_handle k') (kw_folder k') key (kw_appID k') w' = (Inr (), w2)"
    "wl_kept W w' w2"
    "wl_entries W w2 = (wl_entries W w')(kw_name k' := (wl_entries W w' (kw_name k'))
       (kw_folder k' := (wl_entries W w' (kw_name k') (kw_folder k'))(key := None)))" by blast
  with o kwallet_changes [OF o(2) w2(2,3)] show ?thesis
    by (intro exI [of _ "(k', w2)"])
      (simp add: kwallet_Remove_def call_simps with_wallet_def on_world_def)
qed

lemma kwallet_Keys_lawful:
  assumes "lawful_kwallet api W fits" "kwallet_ok W (k, w)"
  shows "\<exists>ks s'. kwallet_Keys api (k, w) = (Inr ks, s') \<and> distinct ks \<and>
    set ks = dom (kwallet_map W (k, w)) \<and> kwallet_ok W s' \<and> kwallet_map W s' = kwallet_map W (k, w)"
proof -
  from openWallet_lawful [OF assms] obtain k' w' where
    o: "openWallet api (k, w) = (Inr (), (k', w'))" "wl_open W w' (kw_handle k') = Some (kw_name k')"
    "kwallet_map W (k', w') = kwallet_map W (k, w)" by metis
  from wallet_laws(1) [OF assms(1) o(2), of "kw_folder k'" "kw_appID k'"] obtain ks where
    ks: "kw_EntryList api (kw_handle k') (kw_folder k') (kw_appID k') w' = (Inr ks, w')" "distinct ks"
    "set ks = dom (wl_entries W w' (kw_name k') (kw_folder k'))" by blast
  have "set ks = dom (kwallet_map W (k, w))"
    using o(3) ks(3) by (simp add: kwallet_map_def)
  with o ks(1,2) show ?thesis
    by (intro exI [of _ ks] exI [of _ "(k', w')"])
      (simp add: kwallet_Keys_def call_simps with_wallet_def on_world_def kwallet_ok_def)
qed

section \<open>The keyring contract\<close>

record 'w kwallet_env =
  we_api :: "'w dbus_api"
  we_wallets :: "'w wallets"
  we_state :: "'w kwallet_state"

definition kwallet_entries :: "'w kwallet_env \<Rightarrow> string \<rightharpoonup> bytes" where
  "kwallet_entries s = kwallet_map (we_wallets s) (we_state s)"

definition kwallet_inv :: "(bytes \<Rightarrow> bool) \<Rightarrow> 'w kwallet_env \<Rightarrow> bool" where
  "kwallet_inv fits s \<longleftrightarrow> lawful_kwallet (we_api s) (we_wallets s) fits \<and>
     kwallet_ok (we_wallets s) (we_state s) \<and> holds_items (kwallet_entries s)"

definition kwallet_view :: "'w kwallet_env \<Rightarrow> string \<rightharpoonup> Item" where
  "kwallet_view s = items_view (kwallet_entries s)"

definition kwallet_lift ::
  "('w dbus_api \<Rightarrow> ('w kwallet_state, 'a) call) \<Rightarrow> ('w kwallet_env, 'a) call" where
  "kwallet_lift m s = (case m (we_api s) (we_state s) of (r, st) \<Rightarrow> (r, s\<lparr>we_state := st\<rparr>))"

interpretation kwallet: keyring_contract "kwallet_inv fits" kwallet_view
  "\<lambda>_. True" "storable fits" "\<lambda>i. i"
  "\<lambda>key. kwallet_lift (\<lambda>api. kwallet_Get api key)" "\<lambda>i. kwallet_lift (\<lambda>api. kwallet_Set api i)"
  "\<lambda>key. kwallet_lift (\<lambda>api. kwallet_Remove api key)" "kwallet_lift kwallet_Keys"
  for fits
proof (unfold_locales, goal_cases)
  case (1 i)
  show ?case by simp
next
  case (2 s key v)
  obtain k w where st: "we_state s = (k, w)" by (cases "we_state s")
  from 2 have law: "lawful_kwallet (we_api s) (we_wallets s) fits" "kwallet_ok (we_wallets s) (k, w)"
    by (simp_all add: kwallet_inv_def st)
  from 2 obtain b where b: "kwallet_map (we_wallets s) (k, w) key = Some b" "json_Unmarshal_Item b = Inr v"
    by (auto simp: kwallet_view_def kwallet_entries_def items_view_Some st)
  then have "b \<noteq> []" by auto
  with b kwallet_Get_lawful [OF law, of key] 2 show ?case
    by (auto simp: kwallet_lift_def kwallet_inv_def kwallet_view_def kwallet_entries_def st)
next
  case (3 s key)
  obtain k w where st: "we_state s = (k, w)" by (cases "we_state s")
  from 3 have law: "lawful_kwallet (we_api s) (we_wallets s) fits" "kwallet_ok (we_wallets s) (k, w)"
    by (simp_all add: kwallet_inv_def st)
  from 3 have "kwallet_map (we_wallets s) (k, w) key = None"
    by (simp add: kwallet_view_def kwallet_inv_def items_view_None) (simp add: kwallet_entries_def st)
  with kwallet_Get_lawful [OF law, of key] 3 show ?case
    by (auto simp: kwallet_lift_def kwallet_inv_def kwallet_view_def kwallet_entries_def st)
next
  case (4 s i)
  obtain k w where st: "we_state s = (k, w)" by (cases "we_state s")
  from 4 have law: "lawful_kwallet (we_api s) (we_wallets s) fits" "kwallet_ok (we_wallets s) (k, w)"
    "holds_items (kwallet_map (we_wallets s) (k, w))" and i: "utf8_Item i" "fits (item.text_of i)"
    by (simp_all add: kwallet_inv_def st storable_def kwallet_entries_def)
  from kwallet_Set_lawful [OF law(1,2) i(2)] items_view_upd [OF law(3) i(1), of "Key i"] law(1)
  show ?case by (auto simp: kwallet_lift_def kwallet_inv_def kwallet_view_def kwallet_entries_def st)
next
  case (5 s key)
  obtain k w where st: "we_state s = (k, w)" by (cases "we_state s")
  from 5 have law: "lawful_kwallet (we_api s) (we_wallets s) fits" "kwallet_ok (we_wallets s) (k, w)"
    "holds_items (kwallet_map (we_wallets s) (k, w))"
    by (simp_all add: kwallet_inv_def st kwallet_entries_def)
  from kwallet_Remove_lawful [OF law(1,2), of key] items_view_del [OF law(3), of key] law(1)
  show ?case by (auto simp: kwallet_lift_def kwallet_inv_def kwallet_view_def kwallet_entries_def st)
next
  case (6 s)
  obtain k w where st: "we_state s = (k, w)" by (cases "we_state s")
  from 6 have law: "lawful_kwallet (we_api s) (we_wallets s) fits" "kwallet_ok (we_wallets s) (k, w)"
    "holds_items (kwallet_map (we_wallets s) (k, w))"
    by (simp_all add: kwallet_inv_def st kwallet_entries_def)
  from kwallet_Keys_lawful [OF law(1,2)] dom_items_view [OF law(3)] law(1,3) show ?case
    by (auto simp: kwallet_lift_def kwallet_inv_def kwallet_view_def kwallet_entries_def st)
qed

section \<open>A wallet service in memory\<close>

text \<open>The wallet open under handle 7, if any, and the entries by wallet, folder and key.\<close>

type_synonym mem_wallets = "string option \<times> ((string \<times> string \<times> string) \<times> bytes) list"

definition mw_open :: "mem_wallets \<Rightarrow> 32 word \<Rightarrow> string option" where
  "mw_open w h = (if h = 7 then fst w else None)"

definition mw_keys :: "mem_wallets \<Rightarrow> string \<Rightarrow> string \<Rightarrow> string list" where
  "mw_keys w n f =
     remdups (map (\<lambda>x. snd (snd x)) (filter (\<lambda>x. fst x = n \<and> fst (snd x) = f) (map fst (snd w))))"

fun d_int :: "dbus_value \<Rightarrow> 32 word" where "d_int (DInt32 h) = h" | "d_int _ = 0"
fun d_str :: "dbus_value \<Rightarrow> string" where "d_str (DString s) = s" | "d_str _ = []"
fun d_bytes :: "dbus_value \<Rightarrow> bytes" where "d_bytes (DBytes b) = b" | "d_bytes _ = []"

definition mw_call :: "string \<Rightarrow> dbus_value list \<Rightarrow> (mem_wallets, dbus_value list) call" where
  "mw_call m args w =
     (let h = d_int (args ! 0) in
      if m = ''org.kde.KWallet.isOpen'' then (Inr [DBool (mw_open w h \<noteq> None)], w)
      else if m = ''org.kde.KWallet.open'' then (Inr [DInt32 7], (Some (d_str (args ! 0)), snd w))
      else if m = ''org.kde.KWallet.entryList'' then
        (Inr [DStrings (case mw_open w h of None \<Rightarrow> [] | Some n \<Rightarrow> mw_keys w n (d_str (args ! 1)))], w)
      else if m = ''org.kde.KWallet.writeEntry'' then
        (case mw_open w h of None \<Rightarrow> (Inr [DInt32 (- 1)], w)
         | Some n \<Rightarrow> (Inr [DInt32 0],
             (fst w, AList.update (n, d_str (args ! 1), d_str (args ! 2)) (d_bytes (args ! 3)) (snd w))))
      else if m = ''org.kde.KWallet.removeEntry'' then
        (case mw_open w h of None \<Rightarrow> (Inr [DInt32 (- 1)], w)
         | Some n \<Rightarrow> (Inr [DInt32 0],
             (fst w, AList.delete (n, d_str (args ! 1), d_str (args ! 2)) (snd w))))
      else if m = ''org.kde.KWallet.readEntry'' then
        (Inr [DBytes (case mw_open w h of None \<Rightarrow> [] | Some n \<Rightarrow>
           (case map_of (snd w) (n, d_str (args ! 1), d_str (args ! 2)) of None \<Rightarrow> [] | Some v \<Rightarrow> v))], w)
      else (Inl (Foreign ''org.freedesktop.DBus.Error.UnknownMethod''), w))"

definition mem_dbus :: "mem_wallets dbus_api" where
  "mem_dbus = \<lparr>db_SessionBus = go_return (), db_Call = (\<lambda>dest path m args. mw_call m args)\<rparr>"

definition mem_wallets :: "mem_wallets wallets" where
  "mem_wallets = \<lparr>wl_open = mw_open, wl_entries = (\<lambda>w n f key. map_of (snd w) (n, f, key))\<rparr>"

lemma mw_keys_set: "set (mw_keys w n f) = dom (\<lambda>key. map_of (snd w) (n, f, key))"
  by (force simp: mw_keys_def dom_def map_of_eq_None_iff)

lemma mw_upd:
  "(\<lambda>n' f' key'. ((map_of es)((n, f, key) := v)) (n', f', key')) =
     (\<lambda>n f key. map_of es (n, f, key))(n := (\<lambda>f key. map_of es (n, f, key))
       (f := (\<lambda>key. map_of es (n, f, key))(key := v)))"
  by (intro ext) simp

lemma mem_kwallet_lawful: "lawful_kwallet mem_dbus mem_wallets (\<lambda>_. True)"
  unfolding lawful_kwallet_def
proof (intro conjI allI impI, goal_cases)
  case (4 w h n f a)
  have "distinct (mw_keys w n f)" by (simp add: mw_keys_def)
  with 4 show ?case by (simp add: kw_call_def mem_dbus_def mw_call_def mem_wallets_def mw_keys_set)
next
  case (6 w h n f a key v)
  then show ?case
    using mw_upd [of "snd w" n f key "Some v"]
    by (simp add: kw_call_def mem_dbus_def mw_call_def mem_wallets_def wl_kept_def mw_open_def update_conv'
        split: if_splits)
next
  case (7 w h n f a key)
  then show ?case
    using mw_upd [of "snd w" n f key None]
    by (simp add: kw_call_def mem_dbus_def mw_call_def mem_wallets_def wl_kept_def mw_open_def delete_conv'
        split: if_splits)
qed (simp_all add: kw_call_def mem_dbus_def mw_call_def mem_wallets_def, simp_all add: mw_open_def)

section \<open>Properties\<close>

definition kwallet_step :: "kop \<Rightarrow> 'w kwallet_env \<Rightarrow> 'w kwallet_env" where
  "kwallet_step = step_kop (\<lambda>key. kwallet_lift (\<lambda>api. kwallet_Get api key))
     (\<lambda>i. kwallet_lift (\<lambda>api. kwallet_Set api i))
     (\<lambda>key. kwallet_lift (\<lambda>api. kwallet_Remove api key)) (kwallet_lift kwallet_Keys)"

text \<open>
  \<^bold>\<open>C27.\<close> Over a wallet service that behaves as documented, any sequence of calls on a \<open>kwallet\<close> keyring
  makes it the map from keys to items that the calls describe, whether its handle was still open
  or had to be opened again: \<open>Get\<close> answers with the item last set in full, \<open>ErrKeyNotFound\<close> when
  there is none, and \<open>Keys\<close> lists exactly the keys.
\<close>

theorem kwallet_history:
  assumes "lawful_kwallet (we_api s) (we_wallets s) fits"
    and "kwallet_ok (we_wallets s) (we_state s)" and "holds_items (kwallet_entries s)"
    and "list_all (ok_kop (\<lambda>_. True) (storable fits)) ps"
  shows "get_answers (\<lambda>i. i) (fold (spec_kop (\<lambda>i. i)) ps (kwallet_view s) key)
      (fst (kwallet_lift (\<lambda>api. kwallet_Get api key) (fold kwallet_step ps s))) \<and>
    (\<exists>ks. fst (kwallet_lift kwallet_Keys (fold kwallet_step ps s)) = Inr ks \<and>
       distinct ks \<and> set ks = dom (fold (spec_kop (\<lambda>i. i)) ps (kwallet_view s)))"
  using kwallet.history [of fits s ps key] assms unfolding kwallet_step_def kwallet_inv_def by simp

definition sample_kwallet :: "mem_wallets kwallet_env" where
  "sample_kwallet =
     \<lparr>we_api = mem_dbus, we_wallets = mem_wallets,
      we_state = (\<lparr>kw_name = ''kdewallet'', kw_handle = 0, kw_appID = ''app'', kw_folder = ''keyring''\<rparr>,
        (None, []))\<rparr>"

theorem kwallet_history_witness:
  "fst (kwallet_lift (\<lambda>api. kwallet_Get api ''k'') (fold kwallet_step
      [KSet (zero_Item\<lparr>Key := ''k'', Data := Some ''1''\<rparr>), KKeys] sample_kwallet)) =
    Inr (zero_Item\<lparr>Key := ''k'', Data := Some ''1''\<rparr>)"
proof -
  let ?i = "zero_Item\<lparr>Key := ''k'', Data := Some ''1''\<rparr>"
  have "storable (\<lambda>_. True) ?i"
    by (simp add: storable_def utf8_Item_def zero_Item_def byte_val_def)
  moreover have "lawful_kwallet (we_api sample_kwallet) (we_wallets sample_kwallet) (\<lambda>_. True)"
    "kwallet_ok (we_wallets sample_kwallet) (we_state sample_kwallet)"
    "holds_items (kwallet_entries sample_kwallet)"
    using mem_kwallet_lawful by (simp_all add: sample_kwallet_def kwallet_ok_def kwallet_entries_def
        kwallet_map_def holds_items_def) (simp_all add: mem_wallets_def mw_open_def)
  ultimately show ?thesis
    using kwallet_history [of sample_kwallet "\<lambda>_. True" "[KSet ?i, KKeys]" "''k''"] by simp
qed

text \<open>
  \<^bold>\<open>C35.\<close> The bindings drop the result codes of the wallet service: when the wallet is not open, the user
  refuses to open it (\<open>open\<close> answers with the handle -1) and \<open>writeEntry\<close> and \<open>removeEntry\<close> report
  failure in their result code, \<open>Set\<close> and \<open>Remove\<close> report success all the same.
\<close>

theorem kwallet_ignores_refusal:
  assumes "kw_call api ''isOpen'' [DInt32 (kw_handle k)] w = (Inr [DBool False], w)"
    and "kw_call api ''open'' [DString (kw_name k), DInt64 0, DString (kw_appID k)] w =
      (Inr [DInt32 (- 1)], w)"
    and "\<forall>key v. kw_call api ''writeEntry'' [DInt32 (- 1), DString (kw_folder k), DString key, DBytes v,
        DString (kw_appID k)] w = (Inr [DInt32 code], w)"
    and "\<forall>key. kw_call api ''removeEntry'' [DInt32 (- 1), DString (kw_folder k), DString key,
        DString (kw_appID k)] w = (Inr [DInt32 code], w)"
  shows "kwallet_Set api i (k, w) = (Inr (), (k\<lparr>kw_handle := - 1\<rparr>, w)) \<and>
    kwallet_Remove api key (k, w) = (Inr (), (k\<lparr>kw_handle := - 1\<rparr>, w))"
proof -
  have "openWallet api (k, w) = (Inr (), (k\<lparr>kw_handle := - 1\<rparr>, w))"
    using assms(1,2) by (simp add: openWallet_def kw_IsOpen_def kw_Open_def call_simps body_as_def
        as_bool_def as_int32_def)
  with assms(3,4) item.enc_text [of i] show ?thesis
    by (simp add: kwallet_Set_def kwallet_Remove_def kw_WriteEntry_def kw_RemoveEntry_def call_simps
        with_wallet_def on_world_def)
qed

text \<open>A service whose user refuses: nothing is open, every entry call fails with code -1.\<close>

definition refusing_dbus :: "nat dbus_api" where
  "refusing_dbus =
    \<lparr>db_SessionBus = go_return (),
     db_Call = (\<lambda>dest path m args w.
       (Inr [if m = ''org.kde.KWallet.isOpen'' then DBool False else DInt32 (- 1)], w))\<rparr>"

theorem kwallet_ignores_refusal_witness:
  "fst (kwallet_Set refusing_dbus zero_Item
     (\<lparr>kw_name = ''kdewallet'', kw_handle = 0, kw_appID = ''app'', kw_folder = ''keyring''\<rparr>, 0)) = Inr ()"
  using kwallet_ignores_refusal [of refusing_dbus
      "\<lparr>kw_name = ''kdewallet'', kw_handle = 0, kw_appID = ''app'', kw_folder = ''keyring''\<rparr>" 0 "- 1"
      zero_Item "''k''"]
  by (simp add: kw_call_def refusing_dbus_def)

end
