(* ===== verification/Filepath.thy ===== *)
theory Filepath
  imports Keyring_API "HOL-Library.AList"
begin

text \<open>
  The part of Go's \<open>path/filepath\<close> (on Unix) and \<open>os\<close> that the file-based backends use, and
  \<open>tilde.go\<close>.
\<close>

section \<open>Paths\<close>

text \<open>\<open>strings.Join(parts, "/")\<close>.\<close>

fun join_slash :: "string list \<Rightarrow> string" where
  "join_slash [] = []"
| "join_slash [p] = p"
| "join_slash (p # ps) = p @ ''/'' @ join_slash ps"

text \<open>
  \<open>filepath.Clean\<close>: empty parts and dots are dropped, a parent reference takes the part before it
  away where there is one.
\<close>

fun clean_loop :: "bool \<Rightarrow> string list \<Rightarrow> string list \<Rightarrow> string list" where
  "clean_loop rooted out [] = out"
| "clean_loop rooted out (c # cs) =
     (if c = [] \<or> c = ''.'' then clean_loop rooted out cs
      else if c = ''..'' then
        (if out \<noteq> [] \<and> last out \<noteq> ''..'' then clean_loop rooted (butlast out) cs
         else if rooted then clean_loop rooted out cs
         else clean_loop rooted (out @ [c]) cs)
      else clean_loop rooted (out @ [c]) cs)"

definition clean_parts :: "string \<Rightarrow> string list" where
  "clean_parts path = clean_loop (HasPrefix path ''/'') [] (Split (CHR ''/'') path)"

definition render_path :: "bool \<Rightarrow> string list \<Rightarrow> string" where
  "render_path rooted ps =
     (if rooted then CHR ''/'' # join_slash ps else if ps = [] then ''.'' else join_slash ps)"

definition Clean :: "string \<Rightarrow> string" where
  "Clean path = render_path (HasPrefix path ''/'') (clean_parts path)"

text \<open>\<open>filepath.Join\<close>: from the first element that is not empty on.\<close>

fun Join :: "string list \<Rightarrow> string" where
  "Join [] = []"
| "Join (e # es) = (if e \<noteq> [] then Clean (join_slash (e # es)) else Join es)"

text \<open>\<open>filepath.Ext\<close>: from the last dot of the last element on.\<close>

fun Ext :: "string \<Rightarrow> string" where
  "Ext [] = []"
| "Ext (c # cs) =
     (if c = CHR ''.'' \<and> CHR ''.'' \<notin> set cs \<and> CHR ''/'' \<notin> set cs then c # cs else Ext cs)"

text \<open>The names a directory entry can have, as one part of a path.\<close>

definition plain_part :: "string \<Rightarrow> bool" where
  "plain_part p \<longleftrightarrow> p \<noteq> [] \<and> p \<noteq> ''.'' \<and> p \<noteq> ''..'' \<and> CHR ''/'' \<notin> set p"

lemma Split_append: "Split c (a @ c # b) = Split c a @ Split c b"
  by (induction a) (auto split: list.splits)

lemma clean_loop_append: "clean_loop r out (cs @ ds) = clean_loop r (clean_loop r out cs) ds"
  by (cases r; induction cs arbitrary: out) simp_all

lemma clean_loop_plain: "list_all plain_part ps \<Longrightarrow> clean_loop r out ps = out @ ps"
  by (induction ps arbitrary: out) (simp_all add: plain_part_def)

lemma Split_join_plain: "ps \<noteq> [] \<Longrightarrow> list_all plain_part ps \<Longrightarrow> Split (CHR ''/'') (join_slash ps) = ps"
  by (induction ps rule: join_slash.induct)
    (simp_all add: plain_part_def Split_no_sep Split_append_sep)

text \<open>Below a directory that is given, plain parts stay as they are.\<close>

lemma Clean_below:
  assumes "d \<noteq> []" "ps \<noteq> []" "list_all plain_part ps"
  shows "Clean (d @ ''/'' @ join_slash ps) =
    render_path (HasPrefix d ''/'') (clean_parts d @ ps)"
proof -
  have "HasPrefix (d @ ''/'' @ join_slash ps) ''/'' = HasPrefix d ''/''"
    using assms(1) by (cases d) (simp_all add: HasPrefix_def)
  then show ?thesis
    using assms by (simp add: Clean_def clean_parts_def Split_append clean_loop_append
        Split_join_plain clean_loop_plain)
qed

lemma Join_plain:
  assumes "d \<noteq> []" "plain_part n"
  shows "Join [d, n] = render_path (HasPrefix d ''/'') (clean_parts d @ [n])"
  using Clean_below [OF assms(1), of "[n]"] assms by simp

lemma join_slash_app: "ps \<noteq> [] \<Longrightarrow> qs \<noteq> [] \<Longrightarrow> join_slash (ps @ qs) = join_slash ps @ ''/'' @ join_slash qs"
  by (induction ps rule: join_slash.induct) (auto simp: neq_Nil_conv)

lemma render_path_snoc_inject:
  "render_path r (ps @ [n]) = render_path r (ps @ [m]) \<longleftrightarrow> n = m"
  by (cases "ps = []") (auto simp: render_path_def join_slash_app)

lemma Join_plain_inject:
  "d \<noteq> [] \<Longrightarrow> plain_part n \<Longrightarrow> plain_part m \<Longrightarrow> Join [d, n] = Join [d, m] \<longleftrightarrow> n = m"
  using Join_plain [of d n] Join_plain [of d m] render_path_snoc_inject by metis

section \<open>The operating system\<close>

text \<open>
  The functions of \<open>os\<close> are parameters. An error that says that a file does not exist is the error
  number \<open>ENOENT\<close>; the \<open>PathError\<close> around it is left out.
\<close>

record FileInfo =
  fi_IsDir :: bool
  fi_ModTime :: time

record 'w os_api =
  os_UserHomeDir :: "('w, string) call"
  os_LookupEnv :: "string \<Rightarrow> string option"
  os_Stat :: "string \<Rightarrow> ('w, FileInfo) call"
  os_MkdirAll :: "string \<Rightarrow> 32 word \<Rightarrow> ('w, unit) call"
  os_ReadFile :: "string \<Rightarrow> ('w, bytes) call"
  os_WriteFile :: "string \<Rightarrow> bytes \<Rightarrow> 32 word \<Rightarrow> ('w, unit) call"
  os_Remove :: "string \<Rightarrow> ('w, unit) call"
  os_ReadDir :: "string \<Rightarrow> 'w \<Rightarrow> string list \<times> 'w"
  os_Now :: "'w \<Rightarrow> string \<times> 'w"

definition ENOENT :: goerr where "ENOENT = Errno 2"

definition os_IsNotExist :: "goerr \<Rightarrow> bool" where
  "os_IsNotExist err = (err = ENOENT)"

section \<open>Home directories\<close>

definition tildePrefixes :: "bool \<Rightarrow> string list" where
  "tildePrefixes windows = (if windows then [[CHR ''~'', CHR 0x5C], ''~/''] else [''~/''])"

text \<open>\<open>strings.Replace(s, old, new, 1)\<close> for a non-empty \<open>old\<close>.\<close>

fun replace_first :: "string \<Rightarrow> string \<Rightarrow> string \<Rightarrow> string" where
  "replace_first [] old new = []"
| "replace_first (c # s) old new =
     (if HasPrefix (c # s) old then new @ drop (length old) (c # s) else c # replace_first s old new)"

fun tilde_loop :: "'w os_api \<Rightarrow> string list \<Rightarrow> string \<Rightarrow> ('w, string) call" where
  "tilde_loop os [] dir w = (Inr dir, w)"
| "tilde_loop os (p # ps) dir w =
     (if HasPrefix dir p
      then (case os_UserHomeDir os w of
              (Inl err, w) \<Rightarrow> (Inl err, w)
            | (Inr homeDir, w) \<Rightarrow> (Inr (replace_first dir ''~'' homeDir), w))
      else tilde_loop os ps dir w)"

definition ExpandTilde :: "'w os_api \<Rightarrow> bool \<Rightarrow> string \<Rightarrow> ('w, string) call" where
  "ExpandTilde os windows dir = tilde_loop os (tildePrefixes windows) dir"

text \<open>
  \<open>ExpandTilde\<close> puts the home directory in place of a tilde that stands before a separator at the
  start of the path, keeps everything behind it, further tildes included, and leaves every other
  path alone without asking for the home directory. Only Windows takes a backslash for a separator.
\<close>

theorem ExpandTilde_exact:
  "ExpandTilde os windows dir w =
    (case dir of
       t # sep # rest \<Rightarrow>
         if t = CHR ''~'' \<and> (sep = CHR ''/'' \<or> windows \<and> sep = CHR 0x5C)
         then (case os_UserHomeDir os w of
                 (Inl err, w') \<Rightarrow> (Inl err, w') | (Inr home, w') \<Rightarrow> (Inr (home @ sep # rest), w'))
         else (Inr dir, w)
     | _ \<Rightarrow> (Inr dir, w))"
  by (cases dir; cases "tl dir")
    (auto simp: ExpandTilde_def tildePrefixes_def HasPrefix_def split: prod.split sum.split)

end
