(* ===== verification/File_Keyring.thy ===== *)
theory File_Keyring
  imports Filepath Item_Json
begin

text \<open>
  \<open>file.go\<close>: the backend that keeps every item in a file of its own, encrypted with a password. The
  operating system, the JWE library \<open>jose2go\<close> and the library \<open>percent\<close> that escapes file names are
  parameters.
\<close>

record 'w file_env =
  fe_os :: "'w os_api"
  percent_Encode :: "string \<Rightarrow> string \<Rightarrow> string"
  percent_Decode :: "string \<Rightarrow> string"
  jose_Encrypt :: "string \<Rightarrow> string \<Rightarrow> string \<Rightarrow> ('w, string) call"
  jose_Decode :: "string \<Rightarrow> string \<Rightarrow> string res"

definition filenameEscape :: "('w, 'x) file_env_scheme \<Rightarrow> string \<Rightarrow> string" where
  "filenameEscape env s = percent_Encode env s ''/''"

definition filenameUnescape :: "('w, 'x) file_env_scheme \<Rightarrow> string \<Rightarrow> string" where
  "filenameUnescape env = percent_Decode env"

record 'w fileKeyring =
  fk_dir :: string
  fk_passwordFunc :: "'w PromptFunc option"
  fk_password :: string

type_synonym 'w file_state = "'w fileKeyring \<times> 'w"

definition file_opener :: "('w, 'w fileKeyring) opener" where
  "file_opener cfg = go_return \<lparr>fk_dir = FileDir cfg, fk_passwordFunc = FilePasswordFunc cfg, fk_password = []\<rparr>"

text \<open>
  \<open>os.Stat\<close> answers with a nil \<open>FileInfo\<close> whenever it answers with an error, so the second branch of
  the source, which wants an error and a \<open>FileInfo\<close> that is no directory, is never taken: every error
  other than one that says that the directory does not exist is returned as it is, and what exists is
  taken for a directory.
\<close>

definition resolveDir :: "'w file_env \<Rightarrow> 'w fileKeyring \<Rightarrow> ('w, string) call" where
  "resolveDir env k =
     (if fk_dir k = [] then go_fail (Textf ''no directory provided for file keyring'' [])
      else go_try (ExpandTilde (fe_os env) False (fk_dir k)) (\<lambda>dir w.
        (case os_Stat (fe_os env) dir w of
           (Inl err, w) \<Rightarrow>
             if os_IsNotExist err
             then go_try (os_MkdirAll (fe_os env) dir 448) (\<lambda>_. go_return dir) w
             else (Inl err, w)
         | (Inr stat, w) \<Rightarrow> (Inr dir, w))))"

definition file_unlock :: "'w file_env \<Rightarrow> ('w file_state, unit) call" where
  "file_unlock env = (\<lambda>(k, w).
     (case resolveDir env k w of
        (Inl err, w) \<Rightarrow> (Inl err, (k, w))
      | (Inr dir, w) \<Rightarrow>
          if fk_password k = [] then
            (case fk_passwordFunc k of
               None \<Rightarrow> (Inl (GoPanic ''nil pointer dereference''), (k, w))
             | Some f \<Rightarrow>
                 (case f (''Enter passphrase to unlock '' @ go_quote dir) w of
                    (Inl err, w) \<Rightarrow> (Inl err, (k, w))
                  | (Inr pwd, w) \<Rightarrow> (Inr (), (k\<lparr>fk_password := pwd\<rparr>, w))))
          else (Inr (), (k, w))))"

definition file_filename :: "'w file_env \<Rightarrow> 'w fileKeyring \<Rightarrow> string \<Rightarrow> ('w, string) call" where
  "file_filename env k key =
     go_try (resolveDir env k) (\<lambda>dir. go_return (Join [dir, filenameEscape env key]))"

text \<open>\<open>k.filename\<close> on the current keyring object.\<close>

definition with_filename :: "'w file_env \<Rightarrow> string \<Rightarrow> ('w file_state, string) call" where
  "with_filename env key = (\<lambda>(k, w). on_world (file_filename env k key) (k, w))"

definition file_Get :: "'w file_env \<Rightarrow> string \<Rightarrow> ('w file_state, Item) call" where
  "file_Get env key =
     go_try (with_filename env key) (\<lambda>filename.
     go_tryE (\<lambda>err. if os_IsNotExist err then ErrKeyNotFound else err)
       (on_world (os_ReadFile (fe_os env) filename)) (\<lambda>bytes.
     go_try (file_unlock env) (\<lambda>_ (k, w).
       (go_try (go_lift (jose_Decode env bytes (fk_password k))) (\<lambda>payload.
          go_lift (json_Unmarshal_Item payload))) (k, w))))"

definition file_GetMetadata :: "'w file_env \<Rightarrow> string \<Rightarrow> ('w file_state, Metadata) call" where
  "file_GetMetadata env key =
     go_try (with_filename env key) (\<lambda>filename.
     go_tryE (\<lambda>err. if os_IsNotExist err then ErrKeyNotFound else err)
       (on_world (os_Stat (fe_os env) filename)) (\<lambda>stat.
     go_return (zero_Metadata\<lparr>ModificationTime := fi_ModTime stat\<rparr>)))"

definition file_Set :: "'w file_env \<Rightarrow> Item \<Rightarrow> ('w file_state, unit) call" where
  "file_Set env i =
     go_try (go_lift (json_Marshal_Item i)) (\<lambda>bytes.
     go_try (file_unlock env) (\<lambda>_ (k, w).
       (case os_Now (fe_os env) w of (created, w) \<Rightarrow>
          (go_try (on_world (jose_Encrypt env bytes (fk_password k) created)) (\<lambda>token.
           go_try (with_filename env (Key i)) (\<lambda>filename.
             on_world (os_WriteFile (fe_os env) filename token 384)))) (k, w))))"

definition file_Remove :: "'w file_env \<Rightarrow> string \<Rightarrow> ('w file_state, unit) call" where
  "file_Remove env key =
     go_try (with_filename env key) (\<lambda>filename. on_world (os_Remove (fe_os env) filename))"

fun names_loop :: "('w, 'x) file_env_scheme \<Rightarrow> string list \<Rightarrow> string list \<Rightarrow> string list" where
  "names_loop env keys [] = keys"
| "names_loop env keys (f # fs) = names_loop env (keys @ [filenameUnescape env f]) fs"

text \<open>The error of \<open>os.ReadDir\<close> is dropped; the entries it read until then are used.\<close>

definition file_Keys :: "'w file_env \<Rightarrow> ('w file_state, string list) call" where
  "file_Keys env = (\<lambda>(k, w).
     (case resolveDir env k w of
        (Inl err, w) \<Rightarrow> (Inl err, (k, w))
      | (Inr dir, w) \<Rightarrow>
          (case os_ReadDir (fe_os env) dir w of (files, w) \<Rightarrow> (Inr (names_loop env [] files), (k, w)))))"

section \<open>A directory and libraries that behave as documented\<close>

text \<open>
  The directory of the keyring: whether it exists, and the bytes and modification times of the
  files in it.
\<close>

record 'w file_dir =
  fd_exists :: "'w \<Rightarrow> bool"
  fd_files :: "'w \<Rightarrow> string \<rightharpoonup> bytes \<times> time"

definition fd_same :: "'w file_dir \<Rightarrow> 'w \<Rightarrow> 'w \<Rightarrow> bool" where
  "fd_same D w w' \<longleftrightarrow> fd_exists D w' = fd_exists D w \<and> fd_files D w' = fd_files D w"

text \<open>
  The process may use the directory, which holds files only, whose names the file system accepts
  (\<open>okname\<close>; a part of a path other than a dot or two); nobody else changes it during a call.
\<close>

definition lawful_dir :: "'w os_api \<Rightarrow> 'w file_dir \<Rightarrow> string \<Rightarrow> (string \<Rightarrow> bool) \<Rightarrow> bool" where
  "lawful_dir os D dir okname \<longleftrightarrow> dir \<noteq> [] \<and> (\<forall>n. okname n \<longrightarrow> plain_part n) \<and>
     (\<forall>w. if fd_exists D w then \<exists>t. os_Stat os dir w = (Inr \<lparr>fi_IsDir = True, fi_ModTime = t\<rparr>, w)
          else os_Stat os dir w = (Inl ENOENT, w) \<and> fd_files D w = Map.empty \<and>
            (\<exists>w'. os_MkdirAll os dir 448 w = (Inr (), w') \<and> fd_exists D w' \<and> fd_files D w' = Map.empty)) \<and>
     (\<forall>w. \<exists>s w'. os_Now os w = (s, w') \<and> fd_same D w w') \<and>
     (\<forall>w. fd_exists D w \<longrightarrow>
        (\<exists>ns. os_ReadDir os dir w = (ns, w) \<and> distinct ns \<and> set ns = dom (fd_files D w))) \<and>
     (\<forall>w n. fd_exists D w \<and> okname n \<longrightarrow>
        (case fd_files D w n of
           None \<Rightarrow> os_ReadFile os (Join [dir, n]) w = (Inl ENOENT, w) \<and>
             os_Stat os (Join [dir, n]) w = (Inl ENOENT, w) \<and>
             os_Remove os (Join [dir, n]) w = (Inl ENOENT, w)
         | Some (b, t) \<Rightarrow> os_ReadFile os (Join [dir, n]) w = (Inr b, w) \<and>
             os_Stat os (Join [dir, n]) w = (Inr \<lparr>fi_IsDir = False, fi_ModTime = t\<rparr>, w) \<and>
             (\<exists>w'. os_Remove os (Join [dir, n]) w = (Inr (), w') \<and> fd_exists D w' \<and>
                fd_files D w' = (fd_files D w)(n := None))) \<and>
        (\<forall>b. \<exists>t w'. os_WriteFile os (Join [dir, n]) b 384 w = (Inr (), w') \<and> fd_exists D w' \<and>
           fd_files D w' = (fd_files D w)(n \<mapsto> (b, t))))"

text \<open>
  Escaped names hold no slash and are unescaped to what they were made from; a token is decoded to
  its payload with the password it was encrypted with.
\<close>

definition lawful_file_libs :: "'w file_env \<Rightarrow> 'w file_dir \<Rightarrow> bool" where
  "lawful_file_libs env D \<longleftrightarrow>
     (\<forall>s. filenameUnescape env (filenameEscape env s) = s \<and> CHR ''/'' \<notin> set (filenameEscape env s)) \<and>
     (\<forall>p pw c w. \<exists>t w'. jose_Encrypt env p pw c w = (Inr t, w') \<and> jose_Decode env t pw = Inr p \<and>
        fd_same D w w')"

lemma dir_laws:
  assumes "lawful_dir os D dir okname"
  shows "okname n \<Longrightarrow> plain_part n"
    and "fd_exists D w \<Longrightarrow> \<exists>t. os_Stat os dir w = (Inr \<lparr>fi_IsDir = True, fi_ModTime = t\<rparr>, w)"
    and "\<not> fd_exists D w \<Longrightarrow> os_Stat os dir w = (Inl ENOENT, w) \<and> fd_files D w = Map.empty \<and>
      (\<exists>w'. os_MkdirAll os dir 448 w = (Inr (), w') \<and> fd_exists D w' \<and> fd_files D w' = Map.empty)"
    and "\<exists>s w'. os_Now os w = (s, w') \<and> fd_same D w w'"
    and "fd_exists D w \<Longrightarrow> \<exists>ns. os_ReadDir os dir w = (ns, w) \<and> distinct ns \<and> set ns = dom (fd_files D w)"
proof -
  note laws = assms [unfolded lawful_dir_def]
  note stat = spec [OF conjunct1 [OF conjunct2 [OF conjunct2 [OF laws]]], of w]
  show "okname n \<Longrightarrow> plain_part n" using laws by blast
  show "fd_exists D w \<Longrightarrow> \<exists>t. os_Stat os dir w = (Inr \<lparr>fi_IsDir = True, fi_ModTime = t\<rparr>, w)"
    using stat by simp
  show "\<not> fd_exists D w \<Longrightarrow> os_Stat os dir w = (Inl ENOENT, w) \<and> fd_files D w = Map.empty \<and>
      (\<exists>w'. os_MkdirAll os dir 448 w = (Inr (), w') \<and> fd_exists D w' \<and> fd_files D w' = Map.empty)"
    using stat by simp
  show "\<exists>s w'. os_Now os w = (s, w') \<and> fd_same D w w'" using laws by blast
  show "fd_exists D w \<Longrightarrow> \<exists>ns. os_ReadDir os dir w = (ns, w) \<and> distinct ns \<and> set ns = dom (fd_files D w)"
    using laws by blast
qed

lemma file_laws:
  assumes "lawful_dir os D dir okname" "fd_exists D w" "okname n"
  shows "fd_files D w n = None \<Longrightarrow> os_ReadFile os (Join [dir, n]) w = (Inl ENOENT, w) \<and>
      os_Stat os (Join [dir, n]) w = (Inl ENOENT, w) \<and> os_Remove os (Join [dir, n]) w = (Inl ENOENT, w)"
    and "fd_files D w n = Some (b, t) \<Longrightarrow> os_ReadFile os (Join [dir, n]) w = (Inr b, w) \<and>
      os_Stat os (Join [dir, n]) w = (Inr \<lparr>fi_IsDir = False, fi_ModTime = t\<rparr>, w) \<and>
      (\<exists>w'. os_Remove os (Join [dir, n]) w = (Inr (), w') \<and> fd_exists D w' \<and>
         fd_files D w' = (fd_files D w)(n := None))"
    and "\<exists>t w'. os_WriteFile os (Join [dir, n]) b' 384 w = (Inr (), w') \<and> fd_exists D w' \<and>
      fd_files D w' = (fd_files D w)(n \<mapsto> (b', t))"
proof -
  from assms(1) have "\<forall>w n. fd_exists D w \<and> okname n \<longrightarrow>
        (case fd_files D w n of
           None \<Rightarrow> os_ReadFile os (Join [dir, n]) w = (Inl ENOENT, w) \<and>
             os_Stat os (Join [dir, n]) w = (Inl ENOENT, w) \<and>
             os_Remove os (Join [dir, n]) w = (Inl ENOENT, w)
         | Some (b, t) \<Rightarrow> os_ReadFile os (Join [dir, n]) w = (Inr b, w) \<and>
             os_Stat os (Join [dir, n]) w = (Inr \<lparr>fi_IsDir = False, fi_ModTime = t\<rparr>, w) \<and>
             (\<exists>w'. os_Remove os (Join [dir, n]) w = (Inr (), w') \<and> fd_exists D w' \<and>
                fd_files D w' = (fd_files D w)(n := None))) \<and>
        (\<forall>b. \<exists>t w'. os_WriteFile os (Join [dir, n]) b 384 w = (Inr (), w') \<and> fd_exists D w' \<and>
           fd_files D w' = (fd_files D w)(n \<mapsto> (b, t)))"
    unfolding lawful_dir_def by (elim conjE)
  note laws = this [rule_format, OF conjI, OF assms(2,3)]
  show "fd_files D w n = None \<Longrightarrow> os_ReadFile os (Join [dir, n]) w = (Inl ENOENT, w) \<and>
      os_Stat os (Join [dir, n]) w = (Inl ENOENT, w) \<and> os_Remove os (Join [dir, n]) w = (Inl ENOENT, w)"
    using laws by simp
  show "fd_files D w n = Some (b, t) \<Longrightarrow> os_ReadFile os (Join [dir, n]) w = (Inr b, w) \<and>
      os_Stat os (Join [dir, n]) w = (Inr \<lparr>fi_IsDir = False, fi_ModTime = t\<rparr>, w) \<and>
      (\<exists>w'. os_Remove os (Join [dir, n]) w = (Inr (), w') \<and> fd_exists D w' \<and>
         fd_files D w' = (fd_files D w)(n := None))"
    using laws by simp
  show "\<exists>t w'. os_WriteFile os (Join [dir, n]) b' 384 w = (Inr (), w') \<and> fd_exists D w' \<and>
      fd_files D w' = (fd_files D w)(n \<mapsto> (b', t))"
    using laws by blast
qed

section \<open>The operations over them\<close>

record 'w file_context =
  fc_env :: "'w file_env"
  fc_dir :: "'w file_dir"
  fc_path :: string
  fc_okname :: "string \<Rightarrow> bool"
  fc_password :: string

text \<open>
  A keyring object whose directory is \<open>fc_path\<close>, and which has or will be told the password.
\<close>

definition answers_password :: "'w file_dir \<Rightarrow> string \<Rightarrow> 'w PromptFunc \<Rightarrow> bool" where
  "answers_password D pw f \<longleftrightarrow> (\<forall>m w. \<exists>w'. f m w = (Inr pw, w') \<and> fd_same D w w')"

definition file_ok :: "'w file_context \<Rightarrow> 'w fileKeyring \<Rightarrow> bool" where
  "file_ok c k \<longleftrightarrow> fk_dir k \<noteq> [] \<and>
     (\<forall>w. \<exists>w'. ExpandTilde (fe_os (fc_env c)) False (fk_dir k) w = (Inr (fc_path c), w') \<and>
        fd_same (fc_dir c) w w') \<and>
     (fk_password k = fc_password c \<or> fk_password k = []) \<and>
     (fk_password k = [] \<longrightarrow>
        (\<exists>f. fk_passwordFunc k = Some f \<and> answers_password (fc_dir c) (fc_password c) f))"

definition lawful_file :: "'w file_context \<Rightarrow> bool" where
  "lawful_file c \<longleftrightarrow> lawful_dir (fe_os (fc_env c)) (fc_dir c) (fc_path c) (fc_okname c) \<and>
     lawful_file_libs (fc_env c) (fc_dir c)"

definition file_okkey :: "'w file_context \<Rightarrow> string \<Rightarrow> bool" where
  "file_okkey c key = fc_okname c (filenameEscape (fc_env c) key)"

abbreviation fc_files :: "'w file_context \<Rightarrow> 'w \<Rightarrow> string \<rightharpoonup> bytes \<times> time" where
  "fc_files c \<equiv> fd_files (fc_dir c)"

lemma resolveDir_lawful:
  assumes "lawful_file c" "file_ok c k"
  obtains w' where "resolveDir (fc_env c) k w = (Inr (fc_path c), w')" "fd_exists (fc_dir c) w'"
    "fc_files c w' = fc_files c w"
proof -
  from assms(2) obtain w1 where w1: "fk_dir k \<noteq> []"
    "ExpandTilde (fe_os (fc_env c)) False (fk_dir k) w = (Inr (fc_path c), w1)" "fd_same (fc_dir c) w w1"
    unfolding file_ok_def by blast
  from assms(1) have law: "lawful_dir (fe_os (fc_env c)) (fc_dir c) (fc_path c) (fc_okname c)"
    by (simp add: lawful_file_def)
  show thesis
  proof (cases "fd_exists (fc_dir c) w1")
    case True
    from dir_laws(2) [OF law True] w1 show thesis
      by (intro that [of w1]) (auto simp: resolveDir_def call_simps fd_same_def True)
  next
    case False
    from dir_laws(3) [OF law False] obtain w2 where
      "os_Stat (fe_os (fc_env c)) (fc_path c) w1 = (Inl ENOENT, w1)" "fc_files c w1 = Map.empty"
      "os_MkdirAll (fe_os (fc_env c)) (fc_path c) 448 w1 = (Inr (), w2)" "fd_exists (fc_dir c) w2"
      "fc_files c w2 = Map.empty" by blast
    with w1 show thesis
      by (intro that [of w2]) (auto simp: resolveDir_def call_simps fd_same_def os_IsNotExist_def)
  qed
qed

lemma with_filename_lawful:
  assumes "lawful_file c" "file_ok c k"
  obtains w' where "with_filename (fc_env c) key (k, w) =
      (Inr (Join [fc_path c, filenameEscape (fc_env c) key]), (k, w'))"
    "fd_exists (fc_dir c) w'" "fc_files c w' = fc_files c w"
proof -
  from resolveDir_lawful [OF assms] obtain w' where
    "resolveDir (fc_env c) k w = (Inr (fc_path c), w')" "fd_exists (fc_dir c) w'"
    "fc_files c w' = fc_files c w" .
  then show thesis
    by (intro that [of w']) (simp_all add: with_filename_def on_world_def file_filename_def call_simps)
qed

lemma file_unlock_lawful:
  assumes "lawful_file c" "file_ok c k"
  obtains k' w' where "file_unlock (fc_env c) (k, w) = (Inr (), (k', w'))" "file_ok c k'"
    "fk_password k' = fc_password c" "fd_exists (fc_dir c) w'" "fc_files c w' = fc_files c w"
proof -
  from resolveDir_lawful [OF assms] obtain w1 where
    w1: "resolveDir (fc_env c) k w = (Inr (fc_path c), w1)" "fd_exists (fc_dir c) w1"
    "fc_files c w1 = fc_files c w" .
  show thesis
  proof (cases "fk_password k = []")
    case False
    with assms(2) have "fk_password k = fc_password c" by (simp add: file_ok_def)
    with False w1 assms(2) show thesis
      by (intro that [of k w1]) (simp_all add: file_unlock_def)
  next
    case True
    with assms(2) obtain f where f: "fk_passwordFunc k = Some f" "answers_password (fc_dir c) (fc_password c) f"
      unfolding file_ok_def by blast
    from f(2) obtain w2 where
      w2: "f (''Enter passphrase to unlock '' @ go_quote (fc_path c)) w1 = (Inr (fc_password c), w2)"
      "fd_same (fc_dir c) w1 w2"
      unfolding answers_password_def by blast
    have "file_ok c (k\<lparr>fk_password := fc_password c\<rparr>)"
      using assms(2) f unfolding file_ok_def by (cases "fc_password c = []") simp_all
    with True w1 f(1) w2 show thesis
      by (intro that [of "k\<lparr>fk_password := fc_password c\<rparr>" w2])
        (simp_all add: file_unlock_def fd_same_def)
  qed
qed

text \<open>The JSON the files hold, by key.\<close>

definition file_texts :: "'w file_context \<Rightarrow> 'w \<Rightarrow> string \<rightharpoonup> bytes" where
  "file_texts c w key =
     (if file_okkey c key then
        Option.bind (fc_files c w (filenameEscape (fc_env c) key)) (\<lambda>(b, t).
          case jose_Decode (fc_env c) b (fc_password c) of Inr p \<Rightarrow> Some p | Inl e \<Rightarrow> None)
      else None)"

text \<open>Every file was written by the backend: its name is a key's, its token holds a payload.\<close>

definition file_plain :: "'w file_context \<Rightarrow> 'w \<Rightarrow> bool" where
  "file_plain c w \<longleftrightarrow>
     (\<forall>n b t. fc_files c w n = Some (b, t) \<longrightarrow>
        (\<exists>key. n = filenameEscape (fc_env c) key) \<and> fc_okname c n \<and>
        (\<exists>p. jose_Decode (fc_env c) b (fc_password c) = Inr p))"

lemma escape_inject:
  "lawful_file c \<Longrightarrow> filenameEscape (fc_env c) key = filenameEscape (fc_env c) key' \<longleftrightarrow> key = key'"
  unfolding lawful_file_def lawful_file_libs_def by metis

lemma file_texts_files: "fc_files c w' = fc_files c w \<Longrightarrow> file_texts c w' = file_texts c w"
  by (rule ext) (simp add: file_texts_def)

lemma file_plain_files: "fc_files c w' = fc_files c w \<Longrightarrow> file_plain c w' = file_plain c w"
  by (simp add: file_plain_def)

lemma file_texts_None:
  assumes "file_plain c w" "file_okkey c key"
  shows "file_texts c w key = None \<longleftrightarrow> fc_files c w (filenameEscape (fc_env c) key) = None"
proof (cases "fc_files c w (filenameEscape (fc_env c) key)")
  case None
  then show ?thesis by (simp add: file_texts_def)
next
  case (Some bt)
  obtain b t where bt: "bt = (b, t)" by (cases bt)
  with Some assms(1) obtain p where "jose_Decode (fc_env c) b (fc_password c) = Inr p"
    unfolding file_plain_def by blast
  with Some bt assms(2) show ?thesis by (simp add: file_texts_def)
qed

lemma file_texts_upd:
  assumes law: "lawful_file c" and key: "file_okkey c key"
    and files: "fc_files c w' = (fc_files c w)(filenameEscape (fc_env c) key := v)"
  shows "file_texts c w' = (file_texts c w)(key := Option.bind v (\<lambda>(b, t).
      case jose_Decode (fc_env c) b (fc_password c) of Inr p \<Rightarrow> Some p | Inl e \<Rightarrow> None))"
  by (rule ext) (simp add: file_texts_def files key escape_inject [OF law])

lemma file_Get_lawful:
  assumes law: "lawful_file c" and ok: "file_ok c k" and key: "file_okkey c key" and plain: "file_plain c w"
  shows "\<exists>k' w'. file_Get (fc_env c) key (k, w) =
      (case file_texts c w key of None \<Rightarrow> Inl ErrKeyNotFound | Some p \<Rightarrow> json_Unmarshal_Item p, (k', w')) \<and>
    file_ok c k' \<and> fc_files c w' = fc_files c w"
proof -
  let ?n = "filenameEscape (fc_env c) key" and ?os = "fe_os (fc_env c)"
  have dir: "lawful_dir ?os (fc_dir c) (fc_path c) (fc_okname c)" and n: "fc_okname c ?n"
    using law key by (simp_all add: lawful_file_def file_okkey_def)
  from with_filename_lawful [OF law ok] obtain w1 where
    w1: "with_filename (fc_env c) key (k, w) = (Inr (Join [fc_path c, ?n]), (k, w1))"
    "fd_exists (fc_dir c) w1" "fc_files c w1 = fc_files c w" by metis
  show ?thesis
  proof (cases "fc_files c w1 ?n")
    case None
    with file_laws(1) [OF dir w1(2) n] have
      "os_ReadFile ?os (Join [fc_path c, ?n]) w1 = (Inl ENOENT, w1)" by blast
    moreover have "file_texts c w key = None" using None w1(3) by (simp add: file_texts_def)
    ultimately show ?thesis using w1 ok
      by (intro exI [of _ k] exI [of _ w1]) (simp add: file_Get_def call_simps on_world_def os_IsNotExist_def)
  next
    case (Some bt)
    obtain b t where bt: "bt = (b, t)" by (cases bt)
    with file_laws(2) [OF dir w1(2) n] Some have
      read: "os_ReadFile ?os (Join [fc_path c, ?n]) w1 = (Inr b, w1)" by blast
    from file_unlock_lawful [OF law ok, of w1] obtain k2 w2 where
      w2: "file_unlock (fc_env c) (k, w1) = (Inr (), (k2, w2))" "file_ok c k2"
      "fk_password k2 = fc_password c" "fc_files c w2 = fc_files c w1" by metis
    from plain Some bt w1(3) obtain p where p: "jose_Decode (fc_env c) b (fc_password c) = Inr p"
      unfolding file_plain_def by metis
    then have "file_texts c w key = Some p"
      using Some bt w1(3) key by (simp add: file_texts_def)
    with w1 read w2 p show ?thesis
      by (intro exI [of _ k2] exI [of _ w2]) (simp add: file_Get_def call_simps on_world_def)
  qed
qed

lemma file_Set_lawful:
  assumes law: "lawful_file c" and ok: "file_ok c k" and key: "file_okkey c (Key i)"
    and plain: "file_plain c w"
  shows "\<exists>k' w'. file_Set (fc_env c) i (k, w) = (Inr (), (k', w')) \<and> file_ok c k' \<and> file_plain c w' \<and>
    file_texts c w' = (file_texts c w)(Key i \<mapsto> item.text_of i)"
proof -
  let ?n = "filenameEscape (fc_env c) (Key i)" and ?os = "fe_os (fc_env c)"
  have dir: "lawful_dir ?os (fc_dir c) (fc_path c) (fc_okname c)" and n: "fc_okname c ?n"
    and libs: "lawful_file_libs (fc_env c) (fc_dir c)"
    using law key by (simp_all add: lawful_file_def file_okkey_def)
  from file_unlock_lawful [OF law ok, of w] obtain k1 w1 where
    w1: "file_unlock (fc_env c) (k, w) = (Inr (), (k1, w1))" "file_ok c k1"
    "fk_password k1 = fc_password c" "fc_files c w1 = fc_files c w" by metis
  from dir_laws(4) [OF dir] obtain created w2 where
    w2: "os_Now ?os w1 = (created, w2)" "fd_same (fc_dir c) w1 w2" by blast
  from libs obtain tok w3 where
    w3: "jose_Encrypt (fc_env c) (item.text_of i) (fc_password c) created w2 = (Inr tok, w3)"
    "jose_Decode (fc_env c) tok (fc_password c) = Inr (item.text_of i)" "fd_same (fc_dir c) w2 w3"
    unfolding lawful_file_libs_def by blast
  from with_filename_lawful [OF law w1(2)] obtain w4 where
    w4: "with_filename (fc_env c) (Key i) (k1, w3) = (Inr (Join [fc_path c, ?n]), (k1, w4))"
    "fd_exists (fc_dir c) w4" "fc_files c w4 = fc_files c w3" by metis
  from file_laws(3) [OF dir w4(2) n, of tok] obtain t w5 where
    w5: "os_WriteFile ?os (Join [fc_path c, ?n]) tok 384 w4 = (Inr (), w5)"
    "fc_files c w5 = (fc_files c w4)(?n \<mapsto> (tok, t))" by blast
  have files: "fc_files c w5 = (fc_files c w)(?n \<mapsto> (tok, t))"
    using w1(4) w2(2) w3(3) w4(3) w5(2) by (simp add: fd_same_def)
  have "file_Set (fc_env c) i (k, w) = (Inr (), (k1, w5))"
    using w1 w2(1) w3(1) w4(1) w5(1) item.enc_text [of i]
    by (simp add: file_Set_def call_simps on_world_def)
  moreover have "file_plain c w5"
    using plain n w3(2) unfolding file_plain_def files by (auto split: if_splits)
  moreover have "file_texts c w5 = (file_texts c w)(Key i \<mapsto> item.text_of i)"
    using file_texts_upd [OF law key files] w3(2) by simp
  ultimately show ?thesis using w1(2) by blast
qed

lemma file_Remove_lawful:
  assumes law: "lawful_file c" and ok: "file_ok c k" and key: "file_okkey c key" and plain: "file_plain c w"
  shows "\<exists>w'. file_Remove (fc_env c) key (k, w) =
      (if file_texts c w key = None then Inl ENOENT else Inr (), (k, w')) \<and> file_plain c w' \<and>
    file_texts c w' = (file_texts c w)(key := None)"
proof -
  let ?n = "filenameEscape (fc_env c) key" and ?os = "fe_os (fc_env c)"
  have dir: "lawful_dir ?os (fc_dir c) (fc_path c) (fc_okname c)" and n: "fc_okname c ?n"
    using law key by (simp_all add: lawful_file_def file_okkey_def)
  from with_filename_lawful [OF law ok] obtain w1 where
    w1: "with_filename (fc_env c) key (k, w) = (Inr (Join [fc_path c, ?n]), (k, w1))"
    "fd_exists (fc_dir c) w1" "fc_files c w1 = fc_files c w" by metis
  note none = file_texts_None [OF plain key]
  show ?thesis
  proof (cases "fc_files c w1 ?n")
    case None
    with file_laws(1) [OF dir w1(2) n] have
      "os_Remove ?os (Join [fc_path c, ?n]) w1 = (Inl ENOENT, w1)" by blast
    then have "file_Remove (fc_env c) key (k, w) = (Inl ENOENT, (k, w1))"
      using w1(1) by (simp add: file_Remove_def call_simps on_world_def)
    moreover have "file_texts c w key = None" using none None w1(3) by simp
    moreover have "file_plain c w1" "file_texts c w1 = file_texts c w"
      using plain file_plain_files [OF w1(3)] file_texts_files [OF w1(3)] by simp_all
    ultimately show ?thesis by (intro exI [of _ w1]) (simp add: fun_upd_idem)
  next
    case (Some bt)
    obtain b t where bt: "bt = (b, t)" by (cases bt)
    with file_laws(2) [OF dir w1(2) n] Some obtain w2 where
      w2: "os_Remove ?os (Join [fc_path c, ?n]) w1 = (Inr (), w2)"
      "fc_files c w2 = (fc_files c w)(?n := None)" using w1(3) by metis
    have "file_plain c w2" using plain unfolding file_plain_def w2(2) by (auto split: if_splits)
    moreover have "file_Remove (fc_env c) key (k, w) = (Inr (), (k, w2))"
      using w1(1) w2(1) by (simp add: file_Remove_def call_simps on_world_def)
    moreover have "file_texts c w key \<noteq> None" using none Some w1(3) by simp
    moreover have "file_texts c w2 = (file_texts c w)(key := None)"
      using file_texts_upd [OF law key w2(2)] by simp
    ultimately show ?thesis by (intro exI [of _ w2]) simp
  qed
qed

lemma names_loop_map: "names_loop env keys fs = keys @ map (filenameUnescape env) fs"
  by (induction fs arbitrary: keys) simp_all

lemma file_Keys_lawful:
  assumes law: "lawful_file c" and ok: "file_ok c k" and plain: "file_plain c w"
  shows "\<exists>ks w'. file_Keys (fc_env c) (k, w) = (Inr ks, (k, w')) \<and> distinct ks \<and>
    set ks = dom (file_texts c w) \<and> fc_files c w' = fc_files c w"
proof -
  let ?os = "fe_os (fc_env c)" and ?e = "filenameEscape (fc_env c)" and ?u = "filenameUnescape (fc_env c)"
  have dir: "lawful_dir ?os (fc_dir c) (fc_path c) (fc_okname c)"
    using law by (simp add: lawful_file_def)
  have unesc: "?u (?e s) = s" for s using law by (simp add: lawful_file_def lawful_file_libs_def)
  from resolveDir_lawful [OF law ok] obtain w1 where
    w1: "resolveDir (fc_env c) k w = (Inr (fc_path c), w1)" "fd_exists (fc_dir c) w1"
    "fc_files c w1 = fc_files c w" .
  from dir_laws(5) [OF dir w1(2)] obtain ns where
    ns: "os_ReadDir ?os (fc_path c) w1 = (ns, w1)" "distinct ns" "set ns = dom (fc_files c w1)" by blast
  have key: "\<exists>key. n = ?e key \<and> file_okkey c key" if "n \<in> set ns" for n
    using that ns(3) plain w1(3) unfolding file_plain_def file_okkey_def by fastforce
  have "inj_on ?u (set ns)" by (rule inj_onI) (metis key unesc)
  then have "distinct (map ?u ns)" using ns(2) by (simp add: distinct_map)
  moreover have "set (map ?u ns) = dom (file_texts c w)"
  proof (rule set_eqI, rule iffI)
    fix key'
    assume "key' \<in> set (map ?u ns)"
    then obtain n where n: "n \<in> set ns" "key' = ?u n" by auto
    with key [OF n(1)] unesc have "?e key' \<in> set ns" "file_okkey c key'" by auto
    with file_texts_None [OF plain, of key'] ns(3) w1(3) show "key' \<in> dom (file_texts c w)" by auto
  next
    fix key'
    assume d: "key' \<in> dom (file_texts c w)"
    then have okk: "file_okkey c key'" by (auto simp: file_texts_def split: if_splits)
    with d file_texts_None [OF plain okk] ns(3) w1(3) have "?e key' \<in> set ns" by auto
    then show "key' \<in> set (map ?u ns)" by (metis unesc imageI set_map)
  qed
  ultimately show ?thesis
    using w1(1,3) ns(1) by (intro exI [of _ "map ?u ns"] exI [of _ w1]) (simp add: file_Keys_def names_loop_map)
qed

end
