(* ===== verification/File_Store.thy ===== *)
theory File_Store
  imports File_Keyring
begin

text \<open>
  The file backend as a keyring: over a directory and libraries that behave as documented it meets
  the contract of \<open>Keyring_API\<close>. A directory in memory, with a name escape and a token format that
  satisfy the laws, shows that they can hold.
\<close>

section \<open>The keyring contract\<close>

definition file_inv :: "'w file_context \<Rightarrow> 'w file_state \<Rightarrow> bool" where
  "file_inv c s \<longleftrightarrow> lawful_file c \<and> file_ok c (fst s) \<and> file_plain c (snd s) \<and>
     holds_items (file_texts c (snd s))"

definition file_view :: "'w file_context \<Rightarrow> 'w file_state \<Rightarrow> string \<rightharpoonup> Item" where
  "file_view c s = items_view (file_texts c (snd s))"

definition file_okitem :: "'w file_context \<Rightarrow> Item \<Rightarrow> bool" where
  "file_okitem c i \<longleftrightarrow> utf8_Item i \<and> file_okkey c (Key i)"

lemma file_inv_parts:
  assumes "file_inv c (k, w)"
  shows "lawful_file c" "file_ok c k" "file_plain c w" "holds_items (file_texts c w)"
  using assms by (simp_all add: file_inv_def)

text \<open>A call that leaves the files alone.\<close>

lemma file_kept:
  assumes "file_inv c (k, w)" "file_ok c k'" "fc_files c w' = fc_files c w"
  shows "file_inv c (k', w') \<and> file_view c (k', w') = file_view c (k, w)"
  using assms file_texts_files [OF assms(3)] file_plain_files [OF assms(3)]
  by (simp add: file_inv_def file_view_def)

interpretation fstore: keyring_contract "file_inv c" "file_view c" "file_okkey c" "file_okitem c" "\<lambda>i. i"
  "file_Get (fc_env c)" "file_Set (fc_env c)" "file_Remove (fc_env c)" "file_Keys (fc_env c)"
  for c
proof (unfold_locales, goal_cases)
  case (1 i)
  then show ?case by (simp add: file_okitem_def)
next
  case (2 s key i)
  obtain k w where s: "s = (k, w)" by (cases s)
  note parts = file_inv_parts [OF 2(1) [unfolded s]]
  from 2 s obtain b where b: "file_texts c w key = Some b" "json_Unmarshal_Item b = Inr i"
    by (auto simp: file_view_def items_view_Some)
  from file_Get_lawful [OF parts(1,2) 2(2) parts(3)] obtain k' w' where
    "file_Get (fc_env c) key (k, w) = (Inr i, (k', w'))" "file_ok c k'" "fc_files c w' = fc_files c w"
    using b by auto
  with file_kept [OF 2(1) [unfolded s]] show ?case unfolding s by blast
next
  case (3 s key)
  obtain k w where s: "s = (k, w)" by (cases s)
  note parts = file_inv_parts [OF 3(1) [unfolded s]]
  from 3(3) s have "file_texts c w key = None"
    by (simp add: file_view_def items_view_None [OF parts(4)])
  with file_Get_lawful [OF parts(1,2) 3(2) parts(3)] obtain k' w' where
    "file_Get (fc_env c) key (k, w) = (Inl ErrKeyNotFound, (k', w'))" "file_ok c k'"
    "fc_files c w' = fc_files c w" by auto
  with file_kept [OF 3(1) [unfolded s]] show ?case unfolding s by blast
next
  case (4 s i)
  obtain k w where s: "s = (k, w)" by (cases s)
  note parts = file_inv_parts [OF 4(1) [unfolded s]]
  from 4(2) have i: "utf8_Item i" "file_okkey c (Key i)" by (simp_all add: file_okitem_def)
  from file_Set_lawful [OF parts(1,2) i(2) parts(3)] obtain k' w' where
    w': "file_Set (fc_env c) i (k, w) = (Inr (), (k', w'))" "file_ok c k'" "file_plain c w'"
    "file_texts c w' = (file_texts c w)(Key i \<mapsto> item.text_of i)" by blast
  with items_view_upd [OF parts(4) i(1), of "Key i"] parts(1) show ?case
    unfolding s by (intro exI [of _ "(k', w')"]) (simp add: file_inv_def file_view_def)
next
  case (5 s key)
  obtain k w where s: "s = (k, w)" by (cases s)
  note parts = file_inv_parts [OF 5(1) [unfolded s]]
  from file_Remove_lawful [OF parts(1,2) 5(2) parts(3)] obtain w' where
    w': "file_Remove (fc_env c) key (k, w) =
      (if file_texts c w key = None then Inl ENOENT else Inr (), (k, w'))" "file_plain c w'"
    "file_texts c w' = (file_texts c w)(key := None)" by blast
  with items_view_del [OF parts(4), of key] parts(1,2) items_view_None [OF parts(4), of key] show ?case
    unfolding s by (auto simp: file_inv_def file_view_def)
next
  case (6 s)
  obtain k w where s: "s = (k, w)" by (cases s)
  note parts = file_inv_parts [OF 6(1) [unfolded s]]
  from file_Keys_lawful [OF parts(1,2,3)] obtain ks w' where
    "file_Keys (fc_env c) (k, w) = (Inr ks, (k, w'))" "distinct ks" "set ks = dom (file_view c (k, w))"
    "fc_files c w' = fc_files c w" using dom_items_view [OF parts(4)] by (auto simp: file_view_def)
  with file_kept [OF 6(1) [unfolded s] parts(2)] show ?case unfolding s by blast
qed

section \<open>A directory in memory\<close>

text \<open>
  The directory \<open>/d\<close>: whether it exists, and its files. Names are escaped the way \<open>percent\<close> does it
  (the percent sign and the slash); a token is the password and the payload, in clear.
\<close>

type_synonym mem_dir = "bool \<times> (string \<times> bytes) list"

definition md_files :: "mem_dir \<Rightarrow> string \<rightharpoonup> bytes" where
  "md_files w = (if fst w then map_of (snd w) else Map.empty)"

definition md_os :: "mem_dir os_api" where
  "md_os = \<lparr>os_UserHomeDir = go_return ''/home/u'', os_LookupEnv = (\<lambda>_. None),
     os_Stat = (\<lambda>p w.
       (if p = ''/d'' then (if fst w then Inr \<lparr>fi_IsDir = True, fi_ModTime = 1\<rparr> else Inl ENOENT)
        else (case md_files w (drop 3 p) of None \<Rightarrow> Inl ENOENT
              | Some b \<Rightarrow> Inr \<lparr>fi_IsDir = False, fi_ModTime = 1\<rparr>), w)),
     os_MkdirAll = (\<lambda>p m w. (Inr (), (True, []))),
     os_ReadFile = (\<lambda>p w. (case md_files w (drop 3 p) of None \<Rightarrow> Inl ENOENT | Some b \<Rightarrow> Inr b, w)),
     os_WriteFile = (\<lambda>p b m w. (Inr (), (fst w, AList.update (drop 3 p) b (snd w)))),
     os_Remove = (\<lambda>p w. (case md_files w (drop 3 p) of None \<Rightarrow> (Inl ENOENT, w)
       | Some b \<Rightarrow> (Inr (), (fst w, AList.delete (drop 3 p) (snd w))))),
     os_ReadDir = (\<lambda>p w. (remdups (map fst (snd w)), w)),
     os_Now = (\<lambda>w. (''now'', w))\<rparr>"

fun md_Encode :: "string \<Rightarrow> string" where
  "md_Encode [] = []"
| "md_Encode (c # s) =
     (if c = CHR ''/'' then ''%2F'' else if c = CHR ''%'' then ''%25'' else [c]) @ md_Encode s"

fun md_Decode :: "string \<Rightarrow> string" where
  "md_Decode [] = []"
| "md_Decode (c # s) =
     (if c = CHR ''%'' then
        (case s of d # e # r \<Rightarrow> (if e = CHR ''F'' then CHR ''/'' else CHR ''%'') # md_Decode r | _ \<Rightarrow> [c])
      else c # md_Decode s)"

definition md_env :: "mem_dir file_env" where
  "md_env = \<lparr>fe_os = md_os, percent_Encode = (\<lambda>s reserved. md_Encode s), percent_Decode = md_Decode,
     jose_Encrypt = (\<lambda>p pw created. go_return (pw @ '' '' @ p)),
     jose_Decode = (\<lambda>t pw. if HasPrefix t (pw @ '' '') then Inr (TrimPrefix t (pw @ '' '')) else Inl (Foreign ''aes''))\<rparr>"

definition md_dir :: "mem_dir file_dir" where
  "md_dir = \<lparr>fd_exists = fst, fd_files = (\<lambda>w n. map_option (\<lambda>b. (b, 1)) (md_files w n))\<rparr>"

definition md_context :: "mem_dir file_context" where
  "md_context = \<lparr>fc_env = md_env, fc_dir = md_dir, fc_path = ''/d'', fc_okname = plain_part, fc_password = ''pw''\<rparr>"

lemma md_Decode_Encode: "md_Decode (md_Encode s) = s"
  by (induction s) simp_all

lemma md_Encode_no_slash: "CHR ''/'' \<notin> set (md_Encode s)"
  by (induction s) simp_all

lemma md_Join: "plain_part n \<Longrightarrow> Join [''/d'', n] = ''/d/'' @ n"
  by (subst Join_plain) (simp_all add: HasPrefix_def render_path_def clean_parts_def)

lemma md_token:
  "HasPrefix (pw @ CHR '' '' # p) (pw @ '' '')" "TrimPrefix (pw @ CHR '' '' # p) (pw @ '' '') = p"
  using HasPrefix_append [of "pw @ '' ''" p] TrimPrefix_append [of "pw @ '' ''" p] by simp_all

lemma md_lawful: "lawful_file md_context"
proof -
  have "lawful_dir md_os md_dir ''/d'' plain_part"
    unfolding lawful_dir_def
  proof (intro conjI allI impI, goal_cases)
    case (3 w)
    then show ?case
      by (simp add: md_os_def md_dir_def md_files_def fun_eq_iff)
  next
    case (4 w)
    then show ?case by (simp add: md_os_def fd_same_def)
  next
    case (5 w)
    then show ?case
      by (simp add: md_os_def md_dir_def md_files_def dom_map_option dom_map_of_conv_image_fst)
  next
    case (6 w n)
    then have n: "plain_part n" and ex: "fst w" by (simp_all add: md_dir_def)
    from n have "Join [''/d'', n] \<noteq> ''/d''"
      using md_Join [OF n] by (auto simp: plain_part_def simp del: Join.simps)
    with n ex show ?case
      by (cases "map_of (snd w) n")
        (simp_all add: md_os_def md_dir_def md_files_def md_Join [OF n] delete_conv' fun_eq_iff del: Join.simps)
  next
    case (7 w n b)
    then have "plain_part n" "fst w" by (simp_all add: md_dir_def)
    then show ?case
      by (simp add: md_os_def md_dir_def md_files_def md_Join update_conv' fun_eq_iff del: Join.simps)
  qed simp_all
  moreover have "lawful_file_libs md_env md_dir"
    by (simp add: lawful_file_libs_def md_env_def filenameEscape_def filenameUnescape_def md_Decode_Encode
        md_Encode_no_slash go_return_def fd_same_def md_token)
  ultimately show ?thesis by (simp add: lawful_file_def md_context_def md_env_def)
qed

section \<open>Properties\<close>

definition file_step :: "kop \<Rightarrow> 'w file_env \<Rightarrow> 'w file_state \<Rightarrow> 'w file_state" where
  "file_step p env = step_kop (file_Get env) (file_Set env) (file_Remove env) (file_Keys env) p"

text \<open>
  \<^bold>\<open>C28.\<close> Over a directory and libraries that behave as documented, any sequence of calls on a file keyring
  makes it the map from keys to items that the calls describe, whether the directory exists at first
  or has to be made, and whether the password was asked for already or is asked for in the middle:
  \<open>Get\<close> answers with the item last set in full, \<open>ErrKeyNotFound\<close> when there is none, and \<open>Keys\<close> lists
  exactly the keys.
\<close>

theorem file_history:
  assumes "lawful_file c" and "file_ok c k"
    and "file_plain c w" and "holds_items (file_texts c w)"
    and "list_all (ok_kop (file_okkey c) (file_okitem c)) ps" and "file_okkey c key"
  shows "get_answers (\<lambda>i. i) (fold (spec_kop (\<lambda>i. i)) ps (file_view c (k, w)) key)
      (fst (file_Get (fc_env c) key (fold (\<lambda>p. file_step p (fc_env c)) ps (k, w)))) \<and>
    (\<exists>ks. fst (file_Keys (fc_env c) (fold (\<lambda>p. file_step p (fc_env c)) ps (k, w))) = Inr ks \<and>
       distinct ks \<and> set ks = dom (fold (spec_kop (\<lambda>i. i)) ps (file_view c (k, w))))"
  using fstore.history [of c "(k, w)" ps key] assms unfolding file_step_def file_inv_def by simp

definition sample_file :: "mem_dir fileKeyring" where
  "sample_file = \<lparr>fk_dir = ''/d'', fk_passwordFunc = Some (FixedStringPrompt ''pw''), fk_password = []\<rparr>"

theorem file_history_witness:
  "fst (file_Get md_env ''a/b'' (fold (\<lambda>p. file_step p md_env)
      [KSet (zero_Item\<lparr>Key := ''a/b'', Data := Some ''1''\<rparr>), KKeys] (sample_file, (False, [])))) =
    Inr (zero_Item\<lparr>Key := ''a/b'', Data := Some ''1''\<rparr>)"
proof -
  let ?i = "zero_Item\<lparr>Key := ''a/b'', Data := Some ''1''\<rparr>"
  have key: "file_okkey md_context ''a/b''"
    by (simp add: file_okkey_def md_context_def filenameEscape_def md_env_def plain_part_def)
  then have "file_okitem md_context ?i"
    by (simp add: file_okitem_def utf8_Item_def zero_Item_def byte_val_def)
  moreover have "file_ok md_context sample_file"
    by (simp add: file_ok_def sample_file_def md_context_def md_env_def ExpandTilde_exact fd_same_def
        answers_password_def FixedStringPrompt_def go_return_def)
  moreover have "file_plain md_context (False, [])" "holds_items (file_texts md_context (False, []))"
    by (simp_all add: file_plain_def holds_items_def file_texts_def md_context_def md_dir_def md_files_def ran_def)
  moreover have "fc_env md_context = md_env" by (simp add: md_context_def)
  ultimately show ?thesis
    using file_history [OF md_lawful, of sample_file "(False, [])" "[KSet ?i, KKeys]" "''a/b''"] key by simp
qed

text \<open>
  \<^bold>\<open>C34.\<close> \<open>Remove\<close>, \<open>Keys\<close> and \<open>GetMetadata\<close> need no password: whatever password the keyring object
  holds, and whatever function it would be asked with, they answer the same, do the same to the world
  and leave the object as it is.
\<close>

theorem file_calls_without_password:
  "(case file_Remove env key (k, w) of (r, (_, w')) \<Rightarrow>
      file_Remove env key (k\<lparr>fk_passwordFunc := f, fk_password := p\<rparr>, w) =
        (r, (k\<lparr>fk_passwordFunc := f, fk_password := p\<rparr>, w'))) \<and>
   (case file_Keys env (k, w) of (r, (_, w')) \<Rightarrow>
      file_Keys env (k\<lparr>fk_passwordFunc := f, fk_password := p\<rparr>, w) =
        (r, (k\<lparr>fk_passwordFunc := f, fk_password := p\<rparr>, w'))) \<and>
   (case file_GetMetadata env key (k, w) of (r, (_, w')) \<Rightarrow>
      file_GetMetadata env key (k\<lparr>fk_passwordFunc := f, fk_password := p\<rparr>, w) =
        (r, (k\<lparr>fk_passwordFunc := f, fk_password := p\<rparr>, w')))"
proof -
  have dir: "resolveDir env (k\<lparr>fk_passwordFunc := f, fk_password := p\<rparr>) = resolveDir env k"
    by (simp add: resolveDir_def)
  show ?thesis
    by (simp add: file_Remove_def file_Keys_def file_GetMetadata_def with_filename_def file_filename_def
        dir on_world_def call_simps split: prod.split sum.split)
qed

text \<open>
  \<^bold>\<open>C32.\<close> A password that does not open an item is kept: when \<open>Get\<close> asks for the password and the token of
  the item does not decode with the answer, \<open>Get\<close> reports the error but keeps the password, and every
  later \<open>Get\<close> of the item fails with the same error without asking again, whatever function there is
  to ask with.
\<close>

theorem file_keeps_wrong_password:
  assumes "lawful_dir (fe_os env) D dir okname" and "fd_exists D w"
    and "\<forall>w. ExpandTilde (fe_os env) False (fk_dir k) w = (Inr dir, w)" and "fk_dir k \<noteq> []"
    and "okname (filenameEscape env key)" and "fd_files D w (filenameEscape env key) = Some (b, t)"
    and "fk_password k = []" and "fk_passwordFunc k = Some f"
    and "f (''Enter passphrase to unlock '' @ go_quote dir) w = (Inr pw, w)" and "pw \<noteq> []"
    and "jose_Decode env b pw = Inl err"
  shows "file_Get env key (k, w) = (Inl err, (k\<lparr>fk_password := pw\<rparr>, w)) \<and>
    file_Get env key (k\<lparr>fk_password := pw, fk_passwordFunc := f'\<rparr>, w) =
      (Inl err, (k\<lparr>fk_password := pw, fk_passwordFunc := f'\<rparr>, w))"
proof -
  obtain st where "os_Stat (fe_os env) dir w = (Inr st, w)"
    using dir_laws(2) [OF assms(1,2)] by blast
  then have dir: "resolveDir env k' w = (Inr dir, w)" if "fk_dir k' = fk_dir k" for k'
    using assms(3,4) that by (simp add: resolveDir_def call_simps)
  have "os_ReadFile (fe_os env) (Join [dir, filenameEscape env key]) w = (Inr b, w)"
    using file_laws(2) [OF assms(1,2,5,6)] by simp
  moreover have "file_unlock env (k, w) = (Inr (), (k\<lparr>fk_password := pw\<rparr>, w))"
    using dir [of k] assms(7-9) by (simp add: file_unlock_def)
  moreover have "file_unlock env (k\<lparr>fk_password := pw, fk_passwordFunc := f'\<rparr>, w) =
      (Inr (), (k\<lparr>fk_password := pw, fk_passwordFunc := f'\<rparr>, w))"
    using dir [of "k\<lparr>fk_password := pw, fk_passwordFunc := f'\<rparr>"] assms(10) by (simp add: file_unlock_def)
  ultimately show ?thesis
    using dir assms(11)
    by (simp add: file_Get_def with_filename_def file_filename_def on_world_def call_simps del: Join.simps)
qed

theorem file_keeps_wrong_password_witness:
  "file_Get md_env ''k'' (sample_file\<lparr>fk_passwordFunc := Some (FixedStringPrompt ''typo'')\<rparr>,
      (True, [(''k'', ''pw {}'')])) =
    (Inl (Foreign ''aes''), (sample_file\<lparr>fk_passwordFunc := Some (FixedStringPrompt ''typo''),
      fk_password := ''typo''\<rparr>, (True, [(''k'', ''pw {}'')])))"
proof -
  let ?k = "sample_file\<lparr>fk_passwordFunc := Some (FixedStringPrompt ''typo'')\<rparr>"
  have law: "lawful_dir (fe_os md_env) md_dir ''/d'' plain_part"
    using md_lawful by (simp add: lawful_file_def md_context_def)
  show ?thesis
    using conjunct1 [OF file_keeps_wrong_password [where env = md_env and D = md_dir and dir = "''/d''"
        and okname = plain_part and k = ?k and w = "(True, [(''k'', ''pw {}'')])" and key = "''k''"
        and f = "FixedStringPrompt ''typo''" and pw = "''typo''" and b = "''pw {}''" and t = 1
        and err = "Foreign ''aes''", OF law]]
    by (simp add: md_dir_def sample_file_def ExpandTilde_exact md_env_def plain_part_def filenameEscape_def
        md_files_def FixedStringPrompt_def go_return_def HasPrefix_def)
qed

text \<open>
  The two error paths of the directory: a plain file in the place of the directory is taken for it,
  and a missing item is reported by \<open>Remove\<close> with the error of the operating system.
\<close>

lemma resolveDir_takes_plain_file:
  assumes "fk_dir k \<noteq> []" "ExpandTilde (fe_os env) False (fk_dir k) w = (Inr dir, w1)"
    "os_Stat (fe_os env) dir w1 = (Inr st, w2)"
  shows "resolveDir env k w = (Inr dir, w2)"
  using assms by (simp add: resolveDir_def call_simps)

lemma file_Remove_missing:
  assumes "file_inv c (k, w)" "file_okkey c key" "file_view c (k, w) key = None"
  shows "fst (file_Remove (fc_env c) key (k, w)) = Inl ENOENT" and "\<not> errors_Is ENOENT ErrKeyNotFound"
proof -
  note parts = file_inv_parts [OF assms(1)]
  from assms(3) have "file_texts c w key = None" by (simp add: file_view_def items_view_None [OF parts(4)])
  with file_Remove_lawful [OF parts(1,2) assms(2) parts(3)] show
    "fst (file_Remove (fc_env c) key (k, w)) = Inl ENOENT" by auto
qed (simp add: ENOENT_def)

end
