(* ===== verification/Pass.thy ===== *)
theory Pass
  imports Filepath Item_Json
begin

text \<open>
  \<open>pass.go\<close> and \<open>passage.go\<close>: the backends over the command line programs \<open>pass\<close> and \<open>passage\<close>. The two
  files differ in names only (the program, its environment variable, its default directory, the
  extension of its files), so the operations are defined once over a \<open>flavor\<close> that holds these names
  and instantiated for each. The operating system and the programs run are parameters.
\<close>

section \<open>Walking a directory\<close>

text \<open>
  A directory tree as \<open>filepath.Walk\<close> sees it: what \<open>Lstat\<close> says is no directory, entries for which
  \<open>Lstat\<close> fails, directories with their sorted names, and directories that cannot be listed.
\<close>

datatype dirtree =
    Leaf_file
  | No_stat goerr
  | Folder "(string \<times> dirtree) list"
  | No_list goerr

text \<open>The function called for every entry: its path, whether it is a directory (none for a nil
  \<open>FileInfo\<close>), the error of the walk, and the variables it changes.\<close>

type_synonym 's walk_fn = "string \<Rightarrow> bool option \<Rightarrow> goerr option \<Rightarrow> 's \<Rightarrow> goerr option \<times> 's"

fun Walk_at :: "'s walk_fn \<Rightarrow> string \<Rightarrow> dirtree \<Rightarrow> 's \<Rightarrow> goerr option \<times> 's"
  and Walk_names :: "'s walk_fn \<Rightarrow> string \<Rightarrow> (string \<times> dirtree) list \<Rightarrow> 's \<Rightarrow> goerr option \<times> 's" where
  "Walk_at fn path Leaf_file s = fn path (Some False) None s"
| "Walk_at fn path (No_stat e) s = fn path None (Some e) s"
| "Walk_at fn path (No_list e) s = fn path (Some True) (Some e) s"
| "Walk_at fn path (Folder cs) s =
     (case fn path (Some True) None s of
        (Some e, s) \<Rightarrow> (Some e, s)
      | (None, s) \<Rightarrow> Walk_names fn path cs s)"
| "Walk_names fn path [] s = (None, s)"
| "Walk_names fn path ((n, t) # cs) s =
     (case Walk_at fn (Join [path, n]) t s of
        (Some e, s) \<Rightarrow> (Some e, s)
      | (None, s) \<Rightarrow> Walk_names fn path cs s)"

section \<open>Programs and flavors\<close>

record Cmd =
  cmd_Path :: string
  cmd_Args :: "string list"
  cmd_Env :: "string list option"
  cmd_Stdin :: "string option"

record 'w pass_env =
  pe_os :: "'w os_api"
  os_Tree :: "string \<Rightarrow> 'w \<Rightarrow> dirtree"
  os_Environ :: "string list"
  exec_LookPath :: "string \<Rightarrow> ('w, string) call"
  exec_Output :: "Cmd \<Rightarrow> ('w, bytes) call"
  exec_Run :: "Cmd \<Rightarrow> ('w, unit) call"

record flavor =
  fl_cmd :: string
  fl_env :: string
  fl_home :: string
  fl_ext :: string

definition pass_flavor :: flavor where
  "pass_flavor = \<lparr>fl_cmd = ''pass'', fl_env = ''PASSWORD_STORE_DIR'', fl_home = ''.password-store'',
     fl_ext = ''.gpg''\<rparr>"

definition passage_flavor :: flavor where
  "passage_flavor = \<lparr>fl_cmd = ''passage'', fl_env = ''PASSAGE_DIR'', fl_home = ''.passage/store'',
     fl_ext = ''.age''\<rparr>"

record passKeyring =
  pk_dir :: string
  pk_passcmd :: string
  pk_prefix :: string

section \<open>Opening\<close>

definition flavor_dir :: "flavor \<Rightarrow> 'w pass_env \<Rightarrow> string \<Rightarrow> ('w, string) call" where
  "flavor_dir fl env dir =
     (if dir = []
      then (case os_LookupEnv (pe_os env) (fl_env fl) of
              Some passDir \<Rightarrow> go_return passDir
            | None \<Rightarrow> go_try (os_UserHomeDir (pe_os env)) (\<lambda>homeDir. go_return (Join [homeDir, fl_home fl])))
      else go_return dir)"

definition flavor_opener :: "flavor \<Rightarrow> 'w pass_env \<Rightarrow> ('w, passKeyring) opener" where
  "flavor_opener fl env cfg =
     (let passcmd = (if PassCmd cfg = [] then fl_cmd fl else PassCmd cfg) in
      go_try (flavor_dir fl env (PassDir cfg)) (\<lambda>dir.
      go_try (ExpandTilde (pe_os env) False dir) (\<lambda>dir.
      go_tryE (\<lambda>err. case err of GoPanic p \<Rightarrow> GoPanic p
               | _ \<Rightarrow> Textf (''the '' @ fl_cmd fl @ '' program is not available'') [])
        (exec_LookPath env passcmd) (\<lambda>_.
      go_return \<lparr>pk_dir = dir, pk_passcmd = passcmd, pk_prefix = PassPrefix cfg\<rparr>))))"

section \<open>Operations\<close>

definition flavor_cmd :: "flavor \<Rightarrow> 'w pass_env \<Rightarrow> passKeyring \<Rightarrow> string list \<Rightarrow> Cmd" where
  "flavor_cmd fl env k args =
     \<lparr>cmd_Path = pk_passcmd k, cmd_Args = args,
      cmd_Env = (if pk_dir k \<noteq> [] then Some (os_Environ env @ [fl_env fl @ ''='' @ pk_dir k]) else None),
      cmd_Stdin = None\<rparr>"

definition flavor_itemExists :: "flavor \<Rightarrow> 'w pass_env \<Rightarrow> passKeyring \<Rightarrow> string \<Rightarrow> 'w \<Rightarrow> bool \<times> 'w" where
  "flavor_itemExists fl env k key w =
     (case os_Stat (pe_os env) (Join [pk_dir k, pk_prefix k, key @ fl_ext fl]) w of
        (Inl err, w) \<Rightarrow> (False, w)
      | (Inr _, w) \<Rightarrow> (True, w))"

definition flavor_Get :: "flavor \<Rightarrow> 'w pass_env \<Rightarrow> passKeyring \<Rightarrow> string \<Rightarrow> ('w, Item) call" where
  "flavor_Get fl env k key w =
     (case flavor_itemExists fl env k key w of
        (False, w) \<Rightarrow> (Inl ErrKeyNotFound, w)
      | (True, w) \<Rightarrow>
          go_try (exec_Output env (flavor_cmd fl env k [''show'', Join [pk_prefix k, key]]))
            (\<lambda>output. go_lift (json_Unmarshal_Item output)) w)"

definition flavor_GetMetadata :: "string \<Rightarrow> ('w, Metadata) call" where
  "flavor_GetMetadata key = go_return zero_Metadata"

definition flavor_Set :: "flavor \<Rightarrow> 'w pass_env \<Rightarrow> passKeyring \<Rightarrow> Item \<Rightarrow> ('w, unit) call" where
  "flavor_Set fl env k i =
     go_try (go_lift (json_Marshal_Item i)) (\<lambda>bytes.
       exec_Run env ((flavor_cmd fl env k [''insert'', ''-m'', ''-f'', Join [pk_prefix k, Key i]])
         \<lparr>cmd_Stdin := Some bytes\<rparr>))"

definition flavor_Remove :: "flavor \<Rightarrow> 'w pass_env \<Rightarrow> passKeyring \<Rightarrow> string \<Rightarrow> ('w, unit) call" where
  "flavor_Remove fl env k key w =
     (case flavor_itemExists fl env k key w of
        (False, w) \<Rightarrow> (Inl ErrKeyNotFound, w)
      | (True, w) \<Rightarrow> exec_Run env (flavor_cmd fl env k [''rm'', ''-f'', Join [pk_prefix k, key]]) w)"

text \<open>
  The callback of \<open>Keys\<close>: an empty name makes \<open>name[0]\<close> panic, one shorter than the extension the
  slice expression.
\<close>

definition keys_visit :: "string \<Rightarrow> string \<Rightarrow> string list walk_fn" where
  "keys_visit ext path p info err keys =
     (case err of
        Some err \<Rightarrow> (Some err, keys)
      | None \<Rightarrow>
          (case info of
             None \<Rightarrow> (Some (GoPanic ''nil pointer dereference''), keys)
           | Some isDir \<Rightarrow>
               if \<not> isDir \<and> Ext p = ext then
                 (let name = TrimPrefix p path in
                  if name = [] then (Some (GoPanic ''index out of range''), keys)
                  else
                    (let name = (if hd name = CHR ''/'' then tl name else name) in
                     if length name < 4 then (Some (GoPanic ''slice bounds out of range''), keys)
                     else (None, keys @ [take (length name - 4) name])))
               else (None, keys)))"

definition flavor_Keys :: "flavor \<Rightarrow> 'w pass_env \<Rightarrow> passKeyring \<Rightarrow> ('w, string list) call" where
  "flavor_Keys fl env k w =
     (let path = Join [pk_dir k, pk_prefix k] in
      case os_Stat (pe_os env) path w of
        (Inl err, w) \<Rightarrow> (if os_IsNotExist err then Inr [] else Inl err, w)
      | (Inr info, w) \<Rightarrow>
          if \<not> fi_IsDir info then (Inl (Textf ''%s is not a directory'' []), w)
          else
            (case Walk_at (keys_visit (fl_ext fl) path) path (os_Tree env path w) [] of
               (Some err, _) \<Rightarrow> (Inl err, w)
             | (None, keys) \<Rightarrow> (Inr keys, w)))"

section \<open>The two backends\<close>

definition pass_opener :: "'w pass_env \<Rightarrow> ('w, passKeyring) opener" where
  "pass_opener = flavor_opener pass_flavor"
definition pass_cmd :: "'w pass_env \<Rightarrow> passKeyring \<Rightarrow> string list \<Rightarrow> Cmd" where
  "pass_cmd = flavor_cmd pass_flavor"
definition pass_itemExists :: "'w pass_env \<Rightarrow> passKeyring \<Rightarrow> string \<Rightarrow> 'w \<Rightarrow> bool \<times> 'w" where
  "pass_itemExists = flavor_itemExists pass_flavor"
definition pass_Get :: "'w pass_env \<Rightarrow> passKeyring \<Rightarrow> string \<Rightarrow> ('w, Item) call" where
  "pass_Get = flavor_Get pass_flavor"
definition pass_GetMetadata :: "string \<Rightarrow> ('w, Metadata) call" where
  "pass_GetMetadata = flavor_GetMetadata"
definition pass_Set :: "'w pass_env \<Rightarrow> passKeyring \<Rightarrow> Item \<Rightarrow> ('w, unit) call" where
  "pass_Set = flavor_Set pass_flavor"
definition pass_Remove :: "'w pass_env \<Rightarrow> passKeyring \<Rightarrow> string \<Rightarrow> ('w, unit) call" where
  "pass_Remove = flavor_Remove pass_flavor"
definition pass_Keys :: "'w pass_env \<Rightarrow> passKeyring \<Rightarrow> ('w, string list) call" where
  "pass_Keys = flavor_Keys pass_flavor"

definition passage_opener :: "'w pass_env \<Rightarrow> ('w, passKeyring) opener" where
  "passage_opener = flavor_opener passage_flavor"
definition passage_cmd :: "'w pass_env \<Rightarrow> passKeyring \<Rightarrow> string list \<Rightarrow> Cmd" where
  "passage_cmd = flavor_cmd passage_flavor"
definition passage_itemExists :: "'w pass_env \<Rightarrow> passKeyring \<Rightarrow> string \<Rightarrow> 'w \<Rightarrow> bool \<times> 'w" where
  "passage_itemExists = flavor_itemExists passage_flavor"
definition passage_Get :: "'w pass_env \<Rightarrow> passKeyring \<Rightarrow> string \<Rightarrow> ('w, Item) call" where
  "passage_Get = flavor_Get passage_flavor"
definition passage_GetMetadata :: "string \<Rightarrow> ('w, Metadata) call" where
  "passage_GetMetadata = flavor_GetMetadata"
definition passage_Set :: "'w pass_env \<Rightarrow> passKeyring \<Rightarrow> Item \<Rightarrow> ('w, unit) call" where
  "passage_Set = flavor_Set passage_flavor"
definition passage_Remove :: "'w pass_env \<Rightarrow> passKeyring \<Rightarrow> string \<Rightarrow> ('w, unit) call" where
  "passage_Remove = flavor_Remove passage_flavor"
definition passage_Keys :: "'w pass_env \<Rightarrow> passKeyring \<Rightarrow> ('w, string list) call" where
  "passage_Keys = flavor_Keys passage_flavor"

section \<open>Absolute paths\<close>

definition abs_path :: "string list \<Rightarrow> string" where
  "abs_path ps = CHR ''/'' # join_slash ps"

text \<open>The parts of a relative path, and that none of them is empty or a dot or two.\<close>

definition path_parts :: "string \<Rightarrow> string list" where
  "path_parts s = (if s = [] then [] else Split (CHR ''/'') s)"

definition plain_path :: "string \<Rightarrow> bool" where
  "plain_path s \<longleftrightarrow> list_all plain_part (path_parts s)"

lemma Split_join_slash: "es \<noteq> [] \<Longrightarrow> Split (CHR ''/'') (join_slash es) = concat (map (Split (CHR ''/'')) es)"
  by (induction es rule: join_slash.induct) (simp_all add: Split_append)

lemma join_slash_Split: "join_slash (Split (CHR ''/'') s) = s"
proof (induction s)
  case (Cons c s)
  show ?case
  proof (cases "Split (CHR ''/'') s")
    case (Cons f fs)
    with Cons.IH show ?thesis by (cases fs) auto
  qed simp
qed simp

lemma join_slash_parts: "join_slash (path_parts s) = s"
  by (simp add: path_parts_def join_slash_Split)

lemma join_slash_Nil: "list_all plain_part ps \<Longrightarrow> join_slash ps = [] \<longleftrightarrow> ps = []"
  by (induction ps rule: join_slash.induct) (simp_all add: plain_part_def)

lemma path_parts_join: "list_all plain_part ps \<Longrightarrow> path_parts (join_slash ps) = ps"
  by (cases "ps = []") (simp_all add: path_parts_def join_slash_Nil Split_join_plain)

lemma clean_loop_path: "plain_path s \<Longrightarrow> clean_loop r out (Split (CHR ''/'') s) = out @ path_parts s"
  by (cases "s = []") (simp_all add: plain_path_def path_parts_def clean_loop_plain)

lemma Split_no_slash: "p \<in> set (Split c s) \<Longrightarrow> c \<notin> set p"
  by (induction s arbitrary: p) (auto split: list.splits if_splits)

lemma clean_loop_rooted_plain:
  "list_all plain_part out \<Longrightarrow> \<forall>c\<in>set cs. CHR ''/'' \<notin> set c \<Longrightarrow> list_all plain_part (clean_loop True out cs)"
proof (induction cs arbitrary: out)
  case (Cons c cs)
  have "list_all plain_part (butlast out)"
    using Cons.prems(1) by (auto simp: list_all_iff dest: in_set_butlastD)
  moreover have "c \<noteq> [] \<Longrightarrow> c \<noteq> ''.'' \<Longrightarrow> c \<noteq> ''..'' \<Longrightarrow> plain_part c"
    using Cons.prems(2) by (simp add: plain_part_def)
  ultimately show ?case using Cons by simp
qed simp

lemma clean_parts_abs: "HasPrefix d ''/'' \<Longrightarrow> list_all plain_part (clean_parts d)"
  by (simp add: clean_parts_def clean_loop_rooted_plain Split_no_slash)

lemma Join_abs:
  assumes "HasPrefix d ''/''"
  shows "Join (d # es) = abs_path (clean_loop True (clean_parts d) (concat (map (Split (CHR ''/'')) es)))"
proof -
  obtain r where d: "d = CHR ''/'' # r" using assms by (cases d) (auto simp: HasPrefix_def)
  have "HasPrefix (join_slash (d # es)) ''/''"
    unfolding d by (cases es) (simp_all add: HasPrefix_def)
  moreover have "Split (CHR ''/'') (join_slash (d # es)) =
      Split (CHR ''/'') d @ concat (map (Split (CHR ''/'')) es)"
    using Split_join_slash [of "d # es"] by simp
  ultimately show ?thesis
    using assms by (simp add: d Clean_def clean_parts_def clean_loop_append render_path_def abs_path_def del: Split.simps)
qed

lemma Join_abs_plain:
  "HasPrefix d ''/'' \<Longrightarrow> list_all plain_path es \<Longrightarrow>
    Join (d # es) = abs_path (clean_parts d @ concat (map path_parts es))"
proof -
  have "clean_loop True out (concat (map (Split (CHR ''/'')) es)) = out @ concat (map path_parts es)"
    if "list_all plain_path es" for out es
    using that by (induction es arbitrary: out) (simp_all add: clean_loop_append clean_loop_path)
  then show "HasPrefix d ''/'' \<Longrightarrow> list_all plain_path es \<Longrightarrow> ?thesis"
    by (simp add: Join_abs del: Join.simps)
qed

lemma clean_parts_abs_path: "list_all plain_part ps \<Longrightarrow> clean_parts (abs_path ps) = ps"
  by (cases "ps = []") (simp_all add: clean_parts_def abs_path_def HasPrefix_def Split_join_plain clean_loop_plain)

lemma Join_abs_path:
  assumes "list_all plain_part ps" "plain_part n"
  shows "Join [abs_path ps, n] = abs_path (ps @ [n])"
proof -
  have "n \<noteq> []" "path_parts n = [n]" "plain_path n"
    using assms(2) by (simp_all add: path_parts_def plain_path_def plain_part_def Split_no_sep)
  then show ?thesis
    using Join_abs_plain [of "abs_path ps" "[n]"] assms(1)
    by (simp add: clean_parts_abs_path HasPrefix_def) (simp add: abs_path_def)
qed

lemma plain_path_relative: "plain_path s \<Longrightarrow> s \<noteq> [] \<Longrightarrow> \<not> HasPrefix s ''/''"
  by (cases s) (auto simp: HasPrefix_def plain_path_def path_parts_def plain_part_def)

lemma Join_rel:
  assumes "plain_path e" "e \<noteq> []"
  shows "Join (e # es) = render_path False (clean_loop False [] (concat (map (Split (CHR ''/'')) (e # es))))"
proof -
  have "HasPrefix (join_slash (e # es)) ''/'' = HasPrefix e ''/''"
    using assms(2) by (cases e; cases es) (simp_all add: HasPrefix_def)
  then have "\<not> HasPrefix (join_slash (e # es)) ''/''" using plain_path_relative [OF assms] by simp
  then show ?thesis
    using Split_join_slash [of "e # es"] assms(2) by (simp add: Clean_def clean_parts_def del: join_slash.simps)
qed

lemma Join_relative:
  assumes "plain_path pre" "plain_path key" "key \<noteq> []"
  shows "Join [pre, key] = join_slash (path_parts pre @ path_parts key)"
proof -
  have parts: "path_parts key \<noteq> []" using assms(3) by (simp add: path_parts_def)
  show ?thesis
  proof (cases "pre = []")
    case True
    then show ?thesis
      using Join_rel [OF assms(2,3), of "[]"] assms(2,3) parts
      by (simp add: clean_loop_path render_path_def) (simp add: path_parts_def)
  next
    case False
    then show ?thesis
      using Join_rel [OF assms(1) False, of "[key]"] assms(1,2) parts
      by (simp add: clean_loop_append clean_loop_path render_path_def del: Join.simps)
  qed
qed

end
