(* ===== verification/Pass_Store.thy ===== *)
theory Pass_Store
  imports Pass
begin

text \<open>
  The \<open>pass\<close> and \<open>passage\<close> backends as keyrings: over a password store that behaves as documented they
  meet the contract of \<open>Keyring_API\<close>. A store in memory shows that the laws can hold.
\<close>

section \<open>What a walk finds\<close>

text \<open>The files of a tree by their parts below its root, and trees that can be walked in full.\<close>

fun leaves :: "dirtree \<Rightarrow> string list list" and leaves_names :: "(string \<times> dirtree) list \<Rightarrow> string list list" where
  "leaves Leaf_file = [[]]"
| "leaves (Folder cs) = leaves_names cs"
| "leaves (No_stat e) = []"
| "leaves (No_list e) = []"
| "leaves_names [] = []"
| "leaves_names ((n, t) # cs) = map ((#) n) (leaves t) @ leaves_names cs"

fun walkable :: "dirtree \<Rightarrow> bool" and walkable_names :: "(string \<times> dirtree) list \<Rightarrow> bool" where
  "walkable Leaf_file = True"
| "walkable (Folder cs) = (distinct (map fst cs) \<and> walkable_names cs)"
| "walkable (No_stat e) = False"
| "walkable (No_list e) = False"
| "walkable_names [] = True"
| "walkable_names ((n, t) # cs) = (plain_part n \<and> walkable t \<and> walkable_names cs)"

lemma leaves_plain:
  "walkable t \<Longrightarrow> l \<in> set (leaves t) \<Longrightarrow> list_all plain_part l"
  "walkable_names cs \<Longrightarrow> l \<in> set (leaves_names cs) \<Longrightarrow> list_all plain_part l"
  by (induction t and cs arbitrary: l and l rule: leaves_leaves_names.induct) auto

lemma leaves_names_head: "l \<in> set (leaves_names cs) \<Longrightarrow> l \<noteq> [] \<and> hd l \<in> fst ` set cs"
  by (induction cs rule: leaves_leaves_names.induct(2) [where P = "\<lambda>_. True"]) auto

lemma leaves_distinct:
  "walkable t \<Longrightarrow> distinct (leaves t)"
  "walkable_names cs \<Longrightarrow> distinct (map fst cs) \<Longrightarrow> distinct (leaves_names cs)"
proof (induction t and cs rule: leaves_leaves_names.induct)
  case (6 n t cs)
  have "n # x \<notin> set (leaves_names cs)" for x
    using leaves_names_head [of "n # x" cs] 6(4) by auto
  then have "set (map ((#) n) (leaves t)) \<inter> set (leaves_names cs) = {}" by auto
  with 6 show ?case by (simp add: distinct_map)
qed simp_all

text \<open>The extension of a path, and the key a visit of a file adds.\<close>

lemma Ext_below: "Ext (a @ CHR ''/'' # b) = Ext b"
  by (induction a) auto

lemma Ext_append: "CHR ''.'' \<notin> set e \<Longrightarrow> CHR ''/'' \<notin> set e \<Longrightarrow> Ext (a @ CHR ''.'' # e) = CHR ''.'' # e"
  by (induction a) auto

lemma Ext_suffix: "\<exists>a. s = a @ Ext s"
proof (induction s)
  case (Cons c s)
  then obtain a where "s = a @ Ext s" by blast
  then have "c # s = (c # a) @ Ext s" by simp
  then show ?case by (metis Ext.simps(2) append_Nil)
qed simp

lemma Ext_abs_path: "l \<noteq> [] \<Longrightarrow> Ext (abs_path (rs @ l)) = Ext (last l)"
proof (induction l rule: rev_induct)
  case (snoc x xs)
  have "abs_path (rs @ xs @ [x]) = (CHR ''/'' # join_slash (rs @ xs)) @ CHR ''/'' # x \<or>
      abs_path (rs @ xs @ [x]) = [] @ CHR ''/'' # x"
    by (cases "rs @ xs = []") (simp_all add: abs_path_def join_slash_app [of "rs @ xs" "[x]", simplified])
  then show ?case using Ext_below [of "CHR ''/'' # join_slash (rs @ xs)" x] Ext_below [of "[]" x] by auto
qed simp

definition key_below :: "string list \<Rightarrow> string" where
  "key_below l = take (length (join_slash l) - 4) (join_slash l)"

lemma join_slash_head:
  assumes "list_all plain_part l" "l \<noteq> []"
  shows "join_slash l \<noteq> [] \<and> hd (join_slash l) \<noteq> CHR ''/''"
proof -
  from assms obtain x xs where l: "l = x # xs" and x: "plain_part x" by (cases l) simp_all
  obtain r where r: "join_slash l = x @ r" unfolding l by (cases xs) auto
  from x have "x \<noteq> []" "hd x \<noteq> CHR ''/''" by (auto simp: plain_part_def dest: hd_in_set)
  then show ?thesis unfolding r by simp
qed

lemma keys_visit_file:
  assumes "list_all plain_part (rs @ l)" "l \<noteq> []" "length ext = 4"
  shows "keys_visit ext (abs_path rs) (abs_path (rs @ l)) (Some False) None keys =
    (None, keys @ (if Ext (last l) = ext then [key_below l] else []))"
proof (cases "Ext (last l) = ext")
  case False
  with assms(2) show ?thesis by (simp add: keys_visit_def Ext_abs_path)
next
  case True
  have l: "list_all plain_part l" using assms(1) by simp
  have slash: "abs_path (rs @ l) = abs_path rs @ (if rs = [] then [] else ''/'') @ join_slash l"
    using assms(2) by (simp add: abs_path_def join_slash_app)
  define s where "s = (if rs = [] then [] else ''/'')"
  have name: "TrimPrefix (abs_path (rs @ l)) (abs_path rs) = s @ join_slash l"
    unfolding slash s_def by (rule TrimPrefix_append)
  have s: "s = [] \<or> s = ''/''" by (simp add: s_def)
  have hd: "join_slash l \<noteq> []" "hd (join_slash l) \<noteq> CHR ''/''"
    using join_slash_head [OF l assms(2)] by simp_all
  have ext: "Ext (join_slash l) = ext"
    using Ext_abs_path [OF assms(2), of "[]"] True Ext_below [of "[]" "join_slash l"]
    unfolding abs_path_def append_Nil by metis
  obtain a where "join_slash l = a @ ext"
    using Ext_suffix [of "join_slash l"] ext by metis
  then have "length (join_slash l) \<ge> 4" using assms(3) by simp
  with True assms(2) hd s show ?thesis
    by (elim disjE) (simp_all add: keys_visit_def Ext_abs_path name key_below_def Let_def)
qed

lemma Walk_keys:
  "walkable t \<Longrightarrow> list_all plain_part (rs @ rel) \<Longrightarrow> rel \<noteq> [] \<or> (\<exists>cs. t = Folder cs) \<Longrightarrow> length ext = 4 \<Longrightarrow>
    Walk_at (keys_visit ext (abs_path rs)) (abs_path (rs @ rel)) t keys =
      (None, keys @ map key_below (filter (\<lambda>l. Ext (last l) = ext) (map ((@) rel) (leaves t))))"
  "walkable_names cs \<Longrightarrow> list_all plain_part (rs @ rel) \<Longrightarrow> length ext = 4 \<Longrightarrow>
    Walk_names (keys_visit ext (abs_path rs)) (abs_path (rs @ rel)) cs keys =
      (None, keys @ map key_below (filter (\<lambda>l. Ext (last l) = ext) (map ((@) rel) (leaves_names cs))))"
proof (induction t and cs arbitrary: rel keys and rel keys rule: leaves_leaves_names.induct)
  case 1
  then show ?case using keys_visit_file [of rs rel ext] by simp
next
  case (2 cs)
  then show ?case by (simp add: keys_visit_def)
next
  case (6 n t cs)
  have p: "Join [abs_path (rs @ rel), n] = abs_path (rs @ (rel @ [n]))"
    using 6 Join_abs_path [of "rs @ rel" n] by simp
  have "(@) (rel @ [n]) = (\<lambda>x. rel @ n # x)" by (rule ext) simp
  with 6 show ?case by (simp add: p comp_def del: Join.simps append_assoc)
qed simp_all

section \<open>A password store that behaves as documented\<close>

text \<open>
  The entries of the store by their parts, which hold the texts stored. \<open>pc_ok\<close> says which names the
  file system takes; where a directory carries the extension of the files, as in the name \<open>a.gpg/b\<close>, the
  check for an item \<open>a\<close> would take it for the item, so such names are not among them.
\<close>

record 'w pass_context =
  pc_flavor :: flavor
  pc_env :: "'w pass_env"
  pc_ring :: passKeyring
  pc_entries :: "'w \<Rightarrow> string list \<rightharpoonup> bytes"
  pc_ok :: "string list \<Rightarrow> bool"
  pc_fits :: "bytes \<Rightarrow> bool"

abbreviation pc_path :: "'w pass_context \<Rightarrow> string list \<Rightarrow> string" where
  "pc_path c ps \<equiv> abs_path (clean_parts (pk_dir (pc_ring c)) @ ps)"

abbreviation pc_pre :: "'w pass_context \<Rightarrow> string list" where
  "pc_pre c \<equiv> path_parts (pk_prefix (pc_ring c))"

text \<open>The parts of the file of an entry.\<close>

definition file_parts :: "string \<Rightarrow> string list \<Rightarrow> string list" where
  "file_parts ext ps = butlast ps @ [last ps @ ext]"

text \<open>The program run with its arguments on the store directory of the environment.\<close>

definition pass_run :: "'w pass_context \<Rightarrow> string list \<Rightarrow> string option \<Rightarrow> Cmd" where
  "pass_run c args stdin =
     \<lparr>cmd_Path = pk_passcmd (pc_ring c), cmd_Args = args,
      cmd_Env = Some (os_Environ (pc_env c) @ [fl_env (pc_flavor c) @ ''='' @ pk_dir (pc_ring c)]),
      cmd_Stdin = stdin\<rparr>"

definition lawful_tree :: "'w pass_context \<Rightarrow> 'w \<Rightarrow> bool" where
  "lawful_tree c w \<longleftrightarrow>
     (let path = pc_path c (pc_pre c); os = pe_os (pc_env c) in
      os_Stat os path w = (Inl ENOENT, w) \<and> (\<forall>l. l \<noteq> [] \<longrightarrow> pc_entries c w (pc_pre c @ l) = None) \<or>
      (\<exists>mt cs. os_Stat os path w = (Inr \<lparr>fi_IsDir = True, fi_ModTime = mt\<rparr>, w) \<and>
         os_Tree (pc_env c) path w = Folder cs \<and> walkable (Folder cs) \<and>
         {l \<in> set (leaves_names cs). Ext (last l) = fl_ext (pc_flavor c)} =
           file_parts (fl_ext (pc_flavor c)) ` {l. l \<noteq> [] \<and> pc_entries c w (pc_pre c @ l) \<noteq> None}))"

definition lawful_pass :: "'w pass_context \<Rightarrow> bool" where
  "lawful_pass c \<longleftrightarrow> HasPrefix (pk_dir (pc_ring c)) ''/'' \<and> plain_path (pk_prefix (pc_ring c)) \<and>
     (\<forall>ps. pc_ok c ps \<longrightarrow> ps \<noteq> [] \<and> list_all plain_part ps) \<and>
     (\<forall>w ps. pc_entries c w ps \<noteq> None \<longrightarrow> pc_ok c ps) \<and>
     (\<forall>w. lawful_tree c w) \<and>
     (\<forall>w ps. pc_ok c ps \<longrightarrow>
        (case pc_entries c w ps of
           None \<Rightarrow> os_Stat (pe_os (pc_env c)) (pc_path c (file_parts (fl_ext (pc_flavor c)) ps)) w = (Inl ENOENT, w)
         | Some b \<Rightarrow>
             (\<exists>st. os_Stat (pe_os (pc_env c)) (pc_path c (file_parts (fl_ext (pc_flavor c)) ps)) w = (Inr st, w)) \<and>
             (\<exists>w'. exec_Output (pc_env c) (pass_run c [''show'', join_slash ps] None) w = (Inr b, w') \<and>
                pc_entries c w' = pc_entries c w) \<and>
             (\<exists>w'. exec_Run (pc_env c) (pass_run c [''rm'', ''-f'', join_slash ps] None) w = (Inr (), w') \<and>
                pc_entries c w' = (pc_entries c w)(ps := None))) \<and>
        (\<forall>b. pc_fits c b \<longrightarrow>
           (\<exists>w'. exec_Run (pc_env c) (pass_run c [''insert'', ''-m'', ''-f'', join_slash ps] (Some b)) w = (Inr (), w') \<and>
              pc_entries c w' = (pc_entries c w)(ps \<mapsto> b))))"

lemma pass_laws:
  assumes "lawful_pass c"
  shows "HasPrefix (pk_dir (pc_ring c)) ''/''" and "plain_path (pk_prefix (pc_ring c))"
    and "pc_ok c ps \<Longrightarrow> ps \<noteq> [] \<and> list_all plain_part ps"
    and "pc_entries c w ps \<noteq> None \<Longrightarrow> pc_ok c ps" and "lawful_tree c w"
  using assms unfolding lawful_pass_def by blast+

lemma entry_laws:
  assumes "lawful_pass c" "pc_ok c ps"
  shows "pc_entries c w ps = None \<Longrightarrow>
      os_Stat (pe_os (pc_env c)) (pc_path c (file_parts (fl_ext (pc_flavor c)) ps)) w = (Inl ENOENT, w)"
    and "pc_entries c w ps = Some b \<Longrightarrow>
      \<exists>st. os_Stat (pe_os (pc_env c)) (pc_path c (file_parts (fl_ext (pc_flavor c)) ps)) w = (Inr st, w)"
    and "pc_entries c w ps = Some b \<Longrightarrow>
      \<exists>w'. exec_Output (pc_env c) (pass_run c [''show'', join_slash ps] None) w = (Inr b, w') \<and>
        pc_entries c w' = pc_entries c w"
    and "pc_entries c w ps = Some b \<Longrightarrow>
      \<exists>w'. exec_Run (pc_env c) (pass_run c [''rm'', ''-f'', join_slash ps] None) w = (Inr (), w') \<and>
        pc_entries c w' = (pc_entries c w)(ps := None)"
    and "pc_fits c b' \<Longrightarrow>
      \<exists>w'. exec_Run (pc_env c) (pass_run c [''insert'', ''-m'', ''-f'', join_slash ps] (Some b')) w = (Inr (), w') \<and>
        pc_entries c w' = (pc_entries c w)(ps \<mapsto> b')"
proof -
  note laws = conjunct2 [OF conjunct2 [OF conjunct2 [OF conjunct2 [OF conjunct2
      [OF assms(1) [unfolded lawful_pass_def]]]]], THEN spec, THEN spec, THEN mp, OF assms(2), of w]
  show "pc_entries c w ps = None \<Longrightarrow>
      os_Stat (pe_os (pc_env c)) (pc_path c (file_parts (fl_ext (pc_flavor c)) ps)) w = (Inl ENOENT, w)"
    using conjunct1 [OF laws] by simp
  show "pc_entries c w ps = Some b \<Longrightarrow>
      \<exists>st. os_Stat (pe_os (pc_env c)) (pc_path c (file_parts (fl_ext (pc_flavor c)) ps)) w = (Inr st, w)"
    using conjunct1 [OF laws] by simp
  show "pc_entries c w ps = Some b \<Longrightarrow>
      \<exists>w'. exec_Output (pc_env c) (pass_run c [''show'', join_slash ps] None) w = (Inr b, w') \<and>
        pc_entries c w' = pc_entries c w"
    using conjunct1 [OF laws] by simp
  show "pc_entries c w ps = Some b \<Longrightarrow>
      \<exists>w'. exec_Run (pc_env c) (pass_run c [''rm'', ''-f'', join_slash ps] None) w = (Inr (), w') \<and>
        pc_entries c w' = (pc_entries c w)(ps := None)"
    using conjunct1 [OF laws] by simp
  show "pc_fits c b' \<Longrightarrow>
      \<exists>w'. exec_Run (pc_env c) (pass_run c [''insert'', ''-m'', ''-f'', join_slash ps] (Some b')) w = (Inr (), w') \<and>
        pc_entries c w' = (pc_entries c w)(ps \<mapsto> b')"
    using conjunct2 [OF laws] by blast
qed

section \<open>The operations over such a store\<close>

definition pass_okkey :: "'w pass_context \<Rightarrow> string \<Rightarrow> bool" where
  "pass_okkey c key \<longleftrightarrow> key \<noteq> [] \<and> plain_path key \<and> pc_ok c (pc_pre c @ path_parts key)"

definition two_flavors :: "flavor \<Rightarrow> bool" where
  "two_flavors fl \<longleftrightarrow> fl = pass_flavor \<or> fl = passage_flavor"

text \<open>The texts of the items below the prefix, by key.\<close>

definition pass_texts :: "'w pass_context \<Rightarrow> 'w \<Rightarrow> string \<rightharpoonup> bytes" where
  "pass_texts c w key = (if pass_okkey c key then pc_entries c w (pc_pre c @ path_parts key) else None)"

lemma ext_shape:
  assumes "two_flavors fl"
  shows "length (fl_ext fl) = 4" "CHR ''/'' \<notin> set (fl_ext fl)" "Ext (n @ fl_ext fl) = fl_ext fl"
  using assms Ext_append [of "''gpg''" n] Ext_append [of "''age''" n]
  by (auto simp: two_flavors_def pass_flavor_def passage_flavor_def)

lemma Split_snoc: "CHR ''/'' \<notin> set e \<Longrightarrow>
  Split (CHR ''/'') (s @ e) = butlast (Split (CHR ''/'') s) @ [last (Split (CHR ''/'') s) @ e]"
  by (induction s) (auto simp: Split_no_sep split: list.splits)

lemma file_key:
  assumes "two_flavors fl" "key \<noteq> []" "plain_path key"
  shows "path_parts (key @ fl_ext fl) = file_parts (fl_ext fl) (path_parts key)"
    and "plain_path (key @ fl_ext fl)"
proof -
  note e = ext_shape [OF assms(1)]
  show parts: "path_parts (key @ fl_ext fl) = file_parts (fl_ext fl) (path_parts key)"
    using assms(2) e(2) by (simp add: path_parts_def file_parts_def Split_snoc)
  have "list_all plain_part (path_parts key)" "path_parts key \<noteq> []"
    using assms(2,3) by (simp_all add: plain_path_def path_parts_def)
  then have "list_all plain_part (butlast (path_parts key))" "plain_part (last (path_parts key))"
    by (auto simp: list_all_iff dest: in_set_butlastD)
  moreover have "plain_part (p @ fl_ext fl)" if "plain_part p" for p
    using that e(1,2) by (cases p; cases "tl p") (auto simp: plain_part_def)
  ultimately show "plain_path (key @ fl_ext fl)"
    unfolding plain_path_def parts by (simp add: file_parts_def)
qed

lemma file_parts_append: "ps \<noteq> [] \<Longrightarrow> file_parts e (qs @ ps) = qs @ file_parts e ps"
  by (simp add: file_parts_def butlast_append)

lemma item_path:
  assumes "lawful_pass c" "two_flavors (pc_flavor c)" "key \<noteq> []" "plain_path key"
  shows "Join [pk_dir (pc_ring c), pk_prefix (pc_ring c), key @ fl_ext (pc_flavor c)] =
    pc_path c (file_parts (fl_ext (pc_flavor c)) (pc_pre c @ path_parts key))"
proof -
  have "path_parts key \<noteq> []" using assms(3) by (simp add: path_parts_def)
  then show ?thesis
    using Join_abs_plain [OF pass_laws(1) [OF assms(1)], of "[pk_prefix (pc_ring c), key @ fl_ext (pc_flavor c)]"]
      pass_laws(2) [OF assms(1)] file_key [OF assms(2-4)]
    by (simp add: file_parts_append del: Join.simps)
qed

lemma item_name:
  assumes "lawful_pass c" "key \<noteq> []" "plain_path key"
  shows "Join [pk_prefix (pc_ring c), key] = join_slash (pc_pre c @ path_parts key)"
  using Join_relative [OF pass_laws(2) [OF assms(1)] assms(3,2)] .

lemma flavor_cmd_run:
  "lawful_pass c \<Longrightarrow> (flavor_cmd (pc_flavor c) (pc_env c) (pc_ring c) args)\<lparr>cmd_Stdin := s\<rparr> = pass_run c args s"
  using pass_laws(1) [of c] by (cases "pk_dir (pc_ring c)") (auto simp: flavor_cmd_def pass_run_def HasPrefix_def)

lemma flavor_cmd_run_None:
  "lawful_pass c \<Longrightarrow> flavor_cmd (pc_flavor c) (pc_env c) (pc_ring c) args = pass_run c args None"
  using flavor_cmd_run [where c = c and args = args and s = None] by (simp add: flavor_cmd_def)

lemma itemExists_lawful:
  assumes "lawful_pass c" "two_flavors (pc_flavor c)" "pass_okkey c key"
  shows "flavor_itemExists (pc_flavor c) (pc_env c) (pc_ring c) key w = (pass_texts c w key \<noteq> None, w)"
proof -
  from assms(3) have key: "key \<noteq> []" "plain_path key" "pc_ok c (pc_pre c @ path_parts key)"
    by (simp_all add: pass_okkey_def)
  have path: "flavor_itemExists (pc_flavor c) (pc_env c) (pc_ring c) key w =
      (case os_Stat (pe_os (pc_env c)) (pc_path c (file_parts (fl_ext (pc_flavor c)) (pc_pre c @ path_parts key))) w of
        (Inl err, w) \<Rightarrow> (False, w) | (Inr _, w) \<Rightarrow> (True, w))"
    unfolding flavor_itemExists_def item_path [OF assms(1,2) key(1,2)] ..
  show ?thesis
  proof (cases "pc_entries c w (pc_pre c @ path_parts key)")
    case None
    then show ?thesis using entry_laws(1) [OF assms(1) key(3) None] assms(3) by (simp add: path pass_texts_def)
  next
    case (Some b)
    from entry_laws(2) [OF assms(1) key(3) Some] Some assms(3) show ?thesis by (auto simp: path pass_texts_def)
  qed
qed

lemma pass_texts_upd:
  assumes "pass_okkey c key" "pc_entries c w' = (pc_entries c w)(pc_pre c @ path_parts key := v)"
  shows "pass_texts c w' = (pass_texts c w)(key := v)"
proof (rule ext)
  fix k
  have "path_parts k = path_parts key \<longleftrightarrow> k = key" by (metis join_slash_parts)
  then show "pass_texts c w' k = ((pass_texts c w)(key := v)) k"
    using assms by (simp add: pass_texts_def)
qed

lemma flavor_Get_lawful:
  assumes "lawful_pass c" "two_flavors (pc_flavor c)" "pass_okkey c key"
  shows "\<exists>w'. flavor_Get (pc_flavor c) (pc_env c) (pc_ring c) key w =
      (case pass_texts c w key of None \<Rightarrow> Inl ErrKeyNotFound | Some b \<Rightarrow> json_Unmarshal_Item b, w') \<and>
    pass_texts c w' = pass_texts c w"
proof (cases "pass_texts c w key")
  case None
  then show ?thesis by (simp add: flavor_Get_def itemExists_lawful [OF assms])
next
  case (Some b)
  from assms(3) have key: "key \<noteq> []" "plain_path key" "pc_ok c (pc_pre c @ path_parts key)"
    by (simp_all add: pass_okkey_def)
  from Some have b: "pc_entries c w (pc_pre c @ path_parts key) = Some b"
    by (simp add: pass_texts_def split: if_splits)
  from entry_laws(3) [OF assms(1) key(3) b] obtain w' where
    w': "exec_Output (pc_env c) (pass_run c [''show'', join_slash (pc_pre c @ path_parts key)] None) w = (Inr b, w')"
    "pc_entries c w' = pc_entries c w" by blast
  have "pass_texts c w' = pass_texts c w" by (rule ext) (simp add: pass_texts_def w'(2))
  with w'(1) Some show ?thesis
    by (simp add: flavor_Get_def itemExists_lawful [OF assms] flavor_cmd_run_None [OF assms(1)]
        item_name [OF assms(1) key(1,2)] call_simps del: Join.simps)
qed

lemma flavor_Set_lawful:
  assumes "lawful_pass c" "pass_okkey c (Key i)" "pc_fits c (item.text_of i)"
  shows "\<exists>w'. flavor_Set (pc_flavor c) (pc_env c) (pc_ring c) i w = (Inr (), w') \<and>
    pass_texts c w' = (pass_texts c w)(Key i \<mapsto> item.text_of i)"
proof -
  from assms(2) have key: "Key i \<noteq> []" "plain_path (Key i)" "pc_ok c (pc_pre c @ path_parts (Key i))"
    by (simp_all add: pass_okkey_def)
  from entry_laws(5) [OF assms(1) key(3) assms(3)] obtain w' where
    w': "exec_Run (pc_env c) (pass_run c [''insert'', ''-m'', ''-f'', join_slash (pc_pre c @ path_parts (Key i))]
      (Some (item.text_of i))) w = (Inr (), w')"
    "pc_entries c w' = (pc_entries c w)(pc_pre c @ path_parts (Key i) \<mapsto> item.text_of i)" by blast
  from w'(1) pass_texts_upd [OF assms(2) w'(2)] item.enc_text [of i] show ?thesis
    by (simp add: flavor_Set_def flavor_cmd_run [OF assms(1)] item_name [OF assms(1) key(1,2)] call_simps del: Join.simps)
qed

lemma flavor_Remove_lawful:
  assumes "lawful_pass c" "two_flavors (pc_flavor c)" "pass_okkey c key"
  shows "\<exists>w'. flavor_Remove (pc_flavor c) (pc_env c) (pc_ring c) key w =
      (if pass_texts c w key = None then Inl ErrKeyNotFound else Inr (), w') \<and>
    pass_texts c w' = (pass_texts c w)(key := None)"
proof (cases "pass_texts c w key")
  case None
  then show ?thesis by (simp add: flavor_Remove_def itemExists_lawful [OF assms] fun_upd_idem)
next
  case (Some b)
  from assms(3) have key: "key \<noteq> []" "plain_path key" "pc_ok c (pc_pre c @ path_parts key)"
    by (simp_all add: pass_okkey_def)
  from Some have b: "pc_entries c w (pc_pre c @ path_parts key) = Some b"
    by (simp add: pass_texts_def split: if_splits)
  from entry_laws(4) [OF assms(1) key(3) b] obtain w' where
    w': "exec_Run (pc_env c) (pass_run c [''rm'', ''-f'', join_slash (pc_pre c @ path_parts key)] None) w = (Inr (), w')"
    "pc_entries c w' = (pc_entries c w)(pc_pre c @ path_parts key := None)" by blast
  from w'(1) Some pass_texts_upd [OF assms(3) w'(2)] show ?thesis
    by (simp add: flavor_Remove_def itemExists_lawful [OF assms] flavor_cmd_run_None [OF assms(1)]
        item_name [OF assms(1) key(1,2)] del: Join.simps)
qed

lemma key_below_file:
  assumes "l \<noteq> []" "length e = 4"
  shows "key_below (file_parts e l) = join_slash l"
proof -
  have "join_slash (file_parts e l) = join_slash l @ e"
  proof (cases "butlast l = []")
    case True
    with assms(1) obtain x where "l = [x]" by (cases l) (auto split: if_splits)
    then show ?thesis by (simp add: file_parts_def)
  next
    case False
    have "join_slash l = join_slash (butlast l) @ ''/'' @ last l"
      using join_slash_app [OF False, of "[last l]"] append_butlast_last_id [OF assms(1)] by simp
    with False show ?thesis by (simp add: file_parts_def join_slash_app)
  qed
  with assms(2) show ?thesis by (simp add: key_below_def)
qed

lemma entry_below:
  assumes "lawful_pass c" "pc_entries c w (pc_pre c @ l) \<noteq> None" "l \<noteq> []"
  shows "list_all plain_part l" and "pass_texts c w (join_slash l) \<noteq> None"
proof -
  have ok: "pc_ok c (pc_pre c @ l)" using pass_laws(4) [OF assms(1,2)] .
  from pass_laws(3) [OF assms(1) ok] show l: "list_all plain_part l" by simp
  then have "plain_path (join_slash l)" "join_slash l \<noteq> []"
    using assms(3) by (simp_all add: plain_path_def path_parts_join join_slash_Nil)
  with ok assms(2) l show "pass_texts c w (join_slash l) \<noteq> None"
    by (simp add: pass_texts_def pass_okkey_def path_parts_join)
qed

lemma dom_pass_texts:
  assumes "lawful_pass c"
  shows "dom (pass_texts c w) = join_slash ` {l. l \<noteq> [] \<and> pc_entries c w (pc_pre c @ l) \<noteq> None}"
proof (rule set_eqI, rule iffI)
  fix key
  assume "key \<in> dom (pass_texts c w)"
  then have "path_parts key \<noteq> []" "pc_entries c w (pc_pre c @ path_parts key) \<noteq> None"
    by (auto simp: pass_texts_def pass_okkey_def path_parts_def split: if_splits)
  then show "key \<in> join_slash ` {l. l \<noteq> [] \<and> pc_entries c w (pc_pre c @ l) \<noteq> None}"
    using join_slash_parts [of key] by (intro image_eqI [of _ _ "path_parts key"]) simp_all
next
  fix key
  assume "key \<in> join_slash ` {l. l \<noteq> [] \<and> pc_entries c w (pc_pre c @ l) \<noteq> None}"
  then show "key \<in> dom (pass_texts c w)" using entry_below(2) [OF assms] by auto
qed

lemma flavor_Keys_lawful:
  assumes "lawful_pass c" "two_flavors (pc_flavor c)"
  shows "\<exists>ks. flavor_Keys (pc_flavor c) (pc_env c) (pc_ring c) w = (Inr ks, w) \<and> distinct ks \<and>
    set ks = dom (pass_texts c w)"
proof -
  let ?e = "fl_ext (pc_flavor c)" and ?rs = "clean_parts (pk_dir (pc_ring c)) @ pc_pre c"
  let ?L = "{l. l \<noteq> [] \<and> pc_entries c w (pc_pre c @ l) \<noteq> None}"
  have path: "Join [pk_dir (pc_ring c), pk_prefix (pc_ring c)] = abs_path ?rs"
    using Join_abs_plain [OF pass_laws(1) [OF assms(1)], of "[pk_prefix (pc_ring c)]"]
      pass_laws(2) [OF assms(1)] by simp
  have rs: "list_all plain_part ?rs"
    using clean_parts_abs [OF pass_laws(1) [OF assms(1)]] pass_laws(2) [OF assms(1)]
    by (simp add: plain_path_def)
  note e = ext_shape(1) [OF assms(2)]
  note dom = dom_pass_texts [OF assms(1), of w]
  from pass_laws(5) [OF assms(1), of w, unfolded lawful_tree_def Let_def] show ?thesis
  proof (elim disjE conjE exE)
    assume stat: "os_Stat (pe_os (pc_env c)) (abs_path ?rs) w = (Inl ENOENT, w)"
      and none: "\<forall>l. l \<noteq> [] \<longrightarrow> pc_entries c w (pc_pre c @ l) = None"
    from none have "?L = {}" unfolding Collect_empty_eq by metis
    with stat show ?thesis
      unfolding dom by (simp add: flavor_Keys_def path os_IsNotExist_def del: Join.simps)
  next
    fix mt cs
    assume stat: "os_Stat (pe_os (pc_env c)) (abs_path ?rs) w = (Inr \<lparr>fi_IsDir = True, fi_ModTime = mt\<rparr>, w)"
      and tree: "os_Tree (pc_env c) (abs_path ?rs) w = Folder cs" and ok: "walkable (Folder cs)"
      and files: "{l \<in> set (leaves_names cs). Ext (last l) = ?e} = file_parts ?e ` ?L"
    let ?ls = "filter (\<lambda>l. Ext (last l) = ?e) (leaves_names cs)"
    have "Walk_at (keys_visit ?e (abs_path ?rs)) (abs_path ?rs) (Folder cs) [] = (None, map key_below ?ls)"
      using Walk_keys(1) [OF ok, of ?rs "[]" ?e "[]"] rs e
      by (simp add: append_Nil [abs_def] del: Walk_at.simps)
    then have run: "flavor_Keys (pc_flavor c) (pc_env c) (pc_ring c) w = (Inr (map key_below ?ls), w)"
      using stat tree by (simp add: flavor_Keys_def path Let_def del: Join.simps)
    have set: "set ?ls = file_parts ?e ` ?L" using files by auto
    have parts: "path_parts (join_slash l) = l" if "l \<in> ?L" for l
      using path_parts_join [OF entry_below(1) [OF assms(1)], of w l] that by blast
    have "inj_on key_below (set ?ls)"
    proof (rule inj_onI)
      fix x y
      assume "x \<in> set ?ls" "y \<in> set ?ls" "key_below x = key_below y"
      then obtain l l' where l: "l \<in> ?L" "x = file_parts ?e l" and l': "l' \<in> ?L" "y = file_parts ?e l'"
        and "key_below x = key_below y" unfolding set by blast
      then have "join_slash l = join_slash l'" by (simp add: key_below_file e)
      then have "path_parts (join_slash l) = path_parts (join_slash l')" by (rule arg_cong)
      then have "l = l'" unfolding parts [OF l(1)] parts [OF l'(1)] .
      with l l' show "x = y" by simp
    qed
    moreover have "distinct ?ls" using leaves_distinct(2) ok by simp
    ultimately have "distinct (map key_below ?ls)" unfolding distinct_map by blast
    moreover have "set (map key_below ?ls) = dom (pass_texts c w)"
      unfolding set_map set dom image_image by (rule image_cong) (simp_all add: key_below_file e)
    ultimately show ?thesis using run by blast
  qed
qed

section \<open>The keyring contract\<close>

definition pass_inv :: "'w pass_context \<Rightarrow> 'w \<Rightarrow> bool" where
  "pass_inv c w \<longleftrightarrow> lawful_pass c \<and> two_flavors (pc_flavor c) \<and> holds_items (pass_texts c w)"

definition pass_view :: "'w pass_context \<Rightarrow> 'w \<Rightarrow> string \<rightharpoonup> Item" where
  "pass_view c w = items_view (pass_texts c w)"

definition pass_okitem :: "'w pass_context \<Rightarrow> Item \<Rightarrow> bool" where
  "pass_okitem c i \<longleftrightarrow> storable (pc_fits c) i \<and> pass_okkey c (Key i)"

interpretation pstore: keyring_reports_missing "pass_inv c" "pass_view c" "pass_okkey c" "pass_okitem c" "\<lambda>i. i"
  "flavor_Get (pc_flavor c) (pc_env c) (pc_ring c)" "flavor_Set (pc_flavor c) (pc_env c) (pc_ring c)"
  "flavor_Remove (pc_flavor c) (pc_env c) (pc_ring c)" "flavor_Keys (pc_flavor c) (pc_env c) (pc_ring c)"
  for c
proof (unfold_locales, goal_cases)
  case (1 i)
  then show ?case by (simp add: pass_okitem_def)
next
  case (2 w key i)
  then have law: "lawful_pass c" "two_flavors (pc_flavor c)" by (simp_all add: pass_inv_def)
  from 2(3) obtain b where "pass_texts c w key = Some b" "json_Unmarshal_Item b = Inr i"
    by (auto simp: pass_view_def items_view_Some)
  with flavor_Get_lawful [OF law 2(2), of w] 2(1) show ?case by (auto simp: pass_inv_def pass_view_def)
next
  case (3 w key)
  then have law: "lawful_pass c" "two_flavors (pc_flavor c)" "holds_items (pass_texts c w)"
    by (simp_all add: pass_inv_def)
  from 3(3) have "pass_texts c w key = None" by (simp add: pass_view_def items_view_None [OF law(3)])
  with flavor_Get_lawful [OF law(1,2) 3(2), of w] 3(1) show ?case by (auto simp: pass_inv_def pass_view_def)
next
  case (4 w i)
  then have law: "lawful_pass c" "two_flavors (pc_flavor c)" "holds_items (pass_texts c w)"
    and i: "utf8_Item i" "pc_fits c (item.text_of i)" "pass_okkey c (Key i)"
    by (simp_all add: pass_inv_def pass_okitem_def storable_def)
  from flavor_Set_lawful [OF law(1) i(3,2), of w] items_view_upd [OF law(3) i(1), of "Key i"] law(1,2)
  show ?case by (auto simp: pass_inv_def pass_view_def)
next
  case (5 w key)
  then have law: "lawful_pass c" "two_flavors (pc_flavor c)" "holds_items (pass_texts c w)"
    by (simp_all add: pass_inv_def)
  from flavor_Remove_lawful [OF law(1,2) 5(2), of w] items_view_del [OF law(3), of key]
    items_view_None [OF law(3), of key] law(1,2)
  show ?case by (auto simp: pass_inv_def pass_view_def)
next
  case (6 w)
  then have law: "lawful_pass c" "two_flavors (pc_flavor c)" "holds_items (pass_texts c w)"
    by (simp_all add: pass_inv_def)
  from flavor_Keys_lawful [OF law(1,2), of w] dom_items_view [OF law(3)] 6 show ?case
    by (auto simp: pass_view_def)
next
  case (7 w key)
  then have law: "lawful_pass c" "two_flavors (pc_flavor c)" "holds_items (pass_texts c w)"
    by (simp_all add: pass_inv_def)
  from 7(3) have "pass_texts c w key = None" by (simp add: pass_view_def items_view_None [OF law(3)])
  with flavor_Remove_lawful [OF law(1,2) 7(2), of w] show ?case by auto
qed

section \<open>A password store in memory\<close>

text \<open>The store \<open>/s\<close> holds entries by name, all directly in it.\<close>

type_synonym mem_pass = "(string \<times> bytes) list"

definition mp_entry :: "mem_pass \<Rightarrow> string \<Rightarrow> bytes option" where
  "mp_entry w n = (if plain_part n then map_of w n else None)"

definition mp_entries :: "mem_pass \<Rightarrow> string list \<rightharpoonup> bytes" where
  "mp_entries w ps = (case ps of [n] \<Rightarrow> mp_entry w n | _ \<Rightarrow> None)"

definition mp_stat :: "string \<Rightarrow> (mem_pass, FileInfo) call" where
  "mp_stat p w =
     (if p = ''/s'' then Inr \<lparr>fi_IsDir = True, fi_ModTime = 1\<rparr>
      else (case mp_entry w (take (length p - 7) (drop 3 p)) of None \<Rightarrow> Inl ENOENT
            | Some b \<Rightarrow> Inr \<lparr>fi_IsDir = False, fi_ModTime = 1\<rparr>), w)"

definition mp_os :: "mem_pass os_api" where
  "mp_os = \<lparr>os_UserHomeDir = go_return ''/home/u'', os_LookupEnv = (\<lambda>_. None), os_Stat = mp_stat,
     os_MkdirAll = (\<lambda>p m. go_return ()), os_ReadFile = (\<lambda>p. go_fail ENOENT),
     os_WriteFile = (\<lambda>p b m. go_return ()), os_Remove = (\<lambda>p. go_fail ENOENT), os_ReadDir = (\<lambda>p w. ([], w)),
     os_Now = (\<lambda>w. (''now'', w))\<rparr>"

definition mp_names :: "mem_pass \<Rightarrow> string list" where
  "mp_names w = remdups (filter plain_part (map fst w))"

definition mp_env :: "flavor \<Rightarrow> mem_pass pass_env" where
  "mp_env fl =
     \<lparr>pe_os = mp_os, os_Tree = (\<lambda>p w. Folder (map (\<lambda>n. (n @ fl_ext fl, Leaf_file)) (mp_names w))),
      os_Environ = [''HOME=/home/u''], exec_LookPath = go_return,
      exec_Output = (\<lambda>cmd w. (case mp_entry w (last (cmd_Args cmd)) of
         None \<Rightarrow> Inl (Foreign ''exit status 1'') | Some b \<Rightarrow> Inr b, w)),
      exec_Run = (\<lambda>cmd w. (Inr (),
         if hd (cmd_Args cmd) = ''rm'' then AList.delete (last (cmd_Args cmd)) w
         else AList.update (last (cmd_Args cmd)) (the (cmd_Stdin cmd)) w))\<rparr>"

definition mp_context :: "flavor \<Rightarrow> mem_pass pass_context" where
  "mp_context fl =
     \<lparr>pc_flavor = fl, pc_env = mp_env fl,
      pc_ring = \<lparr>pk_dir = ''/s'', pk_passcmd = fl_cmd fl, pk_prefix = []\<rparr>, pc_entries = mp_entries,
      pc_ok = (\<lambda>ps. \<exists>n. ps = [n] \<and> plain_part n), pc_fits = (\<lambda>_. True)\<rparr>"

lemma mp_entries_upd:
  "plain_part n \<Longrightarrow> mp_entries (AList.update n b w) = (mp_entries w)([n] \<mapsto> b)"
  "plain_part n \<Longrightarrow> mp_entries (AList.delete n w) = (mp_entries w)([n] := None)"
  by (auto simp: mp_entries_def mp_entry_def update_conv' delete_conv' fun_eq_iff split: list.split)

lemma mp_dir: "clean_parts ''/s'' = [''s'']"
  by (simp add: clean_parts_def)

lemma mp_tree:
  assumes "two_flavors fl"
  shows "lawful_tree (mp_context fl) w"
proof -
  let ?cs = "map (\<lambda>n. (n @ fl_ext fl, Leaf_file)) (mp_names w)"
  note e = ext_shape [OF assms]
  have leaves: "leaves_names (map (\<lambda>n. (n @ fl_ext fl, Leaf_file)) ns) = map (\<lambda>n. [n @ fl_ext fl]) ns" for ns
    by (induction ns) simp_all
  have plain: "plain_part (p @ fl_ext fl)" if "plain_part p" for p
    using that e(1,2) by (cases p; cases "tl p") (auto simp: plain_part_def)
  have names: "walkable_names (map (\<lambda>n. (n @ fl_ext fl, Leaf_file)) ns)" if "list_all plain_part ns" for ns
    using that by (induction ns) (simp_all add: plain)
  have "list_all plain_part (mp_names w)" by (auto simp: mp_names_def list_all_iff)
  moreover have "distinct (map fst ?cs)"
    by (auto simp: comp_def distinct_map mp_names_def inj_on_def)
  ultimately have ok: "walkable (Folder ?cs)" using names by simp
  have mem: "mp_entry w n \<noteq> None \<longleftrightarrow> n \<in> set (mp_names w)" for n
    using map_of_eq_None_iff [of w n] by (auto simp: mp_entry_def mp_names_def)
  have "{l \<in> set (leaves_names ?cs). Ext (last l) = fl_ext fl} = (\<lambda>n. [n @ fl_ext fl]) ` set (mp_names w)"
    using e(3) by (auto simp: leaves)
  also have "\<dots> = file_parts (fl_ext fl) ` (\<lambda>n. [n]) ` set (mp_names w)"
    by (simp add: image_image file_parts_def)
  also have "(\<lambda>n. [n]) ` set (mp_names w) = {l. l \<noteq> [] \<and> mp_entries w l \<noteq> None}"
  proof (rule set_eqI)
    fix l
    show "l \<in> (\<lambda>n. [n]) ` set (mp_names w) \<longleftrightarrow> l \<in> {l. l \<noteq> [] \<and> mp_entries w l \<noteq> None}"
      using mem [of "hd l"] by (cases l; cases "tl l") (auto simp: mp_entries_def)
  qed
  finally have files: "{l \<in> set (leaves_names ?cs). Ext (last l) = fl_ext fl} =
      file_parts (fl_ext fl) ` {l. l \<noteq> [] \<and> mp_entries w l \<noteq> None}" .
  have stat: "mp_stat ''/s'' w = (Inr \<lparr>fi_IsDir = True, fi_ModTime = 1\<rparr>, w)" by (simp add: mp_stat_def)
  show ?thesis
    unfolding lawful_tree_def Let_def
    by (intro disjI2 exI [of _ 1] exI [of _ ?cs] conjI)
      (use ok files stat in \<open>simp_all add: mp_context_def mp_env_def mp_os_def path_parts_def mp_dir abs_path_def
         del: walkable.simps\<close>)
qed

lemma mp_lawful:
  assumes "two_flavors fl"
  shows "lawful_pass (mp_context fl)"
  unfolding lawful_pass_def
proof (intro conjI allI impI, goal_cases)
  case 1
  show ?case by (simp add: mp_context_def HasPrefix_def)
next
  case 2
  show ?case by (simp add: mp_context_def plain_path_def path_parts_def)
next
  case (5 w ps)
  then show ?case by (auto simp: mp_context_def mp_entries_def mp_entry_def split: list.splits if_splits)
next
  case (6 w)
  show ?case by (rule mp_tree [OF assms])
next
  case (7 w ps)
  then obtain n where n: "ps = [n]" "plain_part n" by (auto simp: mp_context_def)
  have "mp_stat (''/s/'' @ n @ fl_ext fl) w =
      (case mp_entry w n of None \<Rightarrow> Inl ENOENT | Some b \<Rightarrow> Inr \<lparr>fi_IsDir = False, fi_ModTime = 1\<rparr>, w)"
    using ext_shape(1) [OF assms] by (simp add: mp_stat_def)
  then show ?case
    using n mp_entries_upd [OF n(2)]
    by (simp add: mp_context_def mp_env_def mp_os_def mp_dir abs_path_def file_parts_def pass_run_def
        mp_entries_def [of w "[n]"] split: option.split)
next
  case (8 w ps b)
  then obtain n where n: "ps = [n]" "plain_part n" by (auto simp: mp_context_def)
  then show ?case
    using mp_entries_upd [OF n(2)] by (simp add: mp_context_def mp_env_def pass_run_def)
qed (auto simp: mp_context_def)

section \<open>Properties\<close>

definition pass_step :: "'w pass_env \<Rightarrow> passKeyring \<Rightarrow> kop \<Rightarrow> 'w \<Rightarrow> 'w" where
  "pass_step env k = step_kop (pass_Get env k) (pass_Set env k) (pass_Remove env k) (pass_Keys env k)"

definition passage_step :: "'w pass_env \<Rightarrow> passKeyring \<Rightarrow> kop \<Rightarrow> 'w \<Rightarrow> 'w" where
  "passage_step env k = step_kop (passage_Get env k) (passage_Set env k) (passage_Remove env k) (passage_Keys env k)"

lemmas pass_ops = pass_Get_def pass_Set_def pass_Remove_def pass_Keys_def pass_step_def
lemmas passage_ops = passage_Get_def passage_Set_def passage_Remove_def passage_Keys_def passage_step_def

text \<open>
  \<^bold>\<open>C29.\<close> Over a password store that behaves as documented, any sequence of calls on a \<open>pass\<close> keyring makes
  the part of the store below its prefix the map from keys to items that the calls describe, keys
  with slashes included: \<open>Get\<close> answers with the item last set in full, \<open>ErrKeyNotFound\<close> when there is
  none, and \<open>Keys\<close>, which walks the directory of the prefix, lists exactly the keys.
\<close>

theorem pass_history:
  assumes "lawful_pass c" and "pc_flavor c = pass_flavor" and "holds_items (pass_texts c w)"
    and "list_all (ok_kop (pass_okkey c) (pass_okitem c)) ps" and "pass_okkey c key"
  shows "get_answers (\<lambda>i. i) (fold (spec_kop (\<lambda>i. i)) ps (pass_view c w) key)
      (fst (pass_Get (pc_env c) (pc_ring c) key (fold (pass_step (pc_env c) (pc_ring c)) ps w))) \<and>
    (\<exists>ks. fst (pass_Keys (pc_env c) (pc_ring c) (fold (pass_step (pc_env c) (pc_ring c)) ps w)) = Inr ks \<and>
       distinct ks \<and> set ks = dom (fold (spec_kop (\<lambda>i. i)) ps (pass_view c w)))"
  using pstore.history [of c w ps key] assms unfolding pass_ops pass_inv_def two_flavors_def by simp

theorem pass_history_witness:
  "fst (pass_Get (mp_env pass_flavor) \<lparr>pk_dir = ''/s'', pk_passcmd = ''pass'', pk_prefix = []\<rparr> ''k''
     (fold (pass_step (mp_env pass_flavor) \<lparr>pk_dir = ''/s'', pk_passcmd = ''pass'', pk_prefix = []\<rparr>)
        [KSet (zero_Item\<lparr>Key := ''k'', Data := Some ''1''\<rparr>), KKeys] [])) =
    Inr (zero_Item\<lparr>Key := ''k'', Data := Some ''1''\<rparr>)"
proof -
  let ?i = "zero_Item\<lparr>Key := ''k'', Data := Some ''1''\<rparr>" and ?c = "mp_context pass_flavor"
  have key: "pass_okkey ?c ''k''"
    by (simp add: pass_okkey_def mp_context_def path_parts_def plain_path_def plain_part_def)
  then have "pass_okitem ?c ?i"
    by (simp add: pass_okitem_def storable_def utf8_Item_def zero_Item_def byte_val_def mp_context_def)
  moreover have "pass_texts ?c [] = Map.empty"
    by (rule ext) (simp add: pass_texts_def mp_context_def mp_entries_def mp_entry_def split: list.split)
  then have "holds_items (pass_texts ?c [])" by (simp add: holds_items_def)
  moreover have "pc_flavor ?c = pass_flavor" "pc_env ?c = mp_env pass_flavor"
    "pc_ring ?c = \<lparr>pk_dir = ''/s'', pk_passcmd = ''pass'', pk_prefix = []\<rparr>"
    by (simp_all add: mp_context_def) (simp add: pass_flavor_def)
  ultimately show ?thesis
    using pass_history [of ?c "[]" "[KSet ?i, KKeys]" "''k''"] mp_lawful [of pass_flavor] key
    by (simp add: two_flavors_def)
qed

text \<open>
  The same for a \<open>passage\<close> keyring over its own store.
\<close>

theorem passage_history:
  assumes "lawful_pass c" and "pc_flavor c = passage_flavor" and "holds_items (pass_texts c w)"
    and "list_all (ok_kop (pass_okkey c) (pass_okitem c)) ps" and "pass_okkey c key"
  shows "get_answers (\<lambda>i. i) (fold (spec_kop (\<lambda>i. i)) ps (pass_view c w) key)
      (fst (passage_Get (pc_env c) (pc_ring c) key (fold (passage_step (pc_env c) (pc_ring c)) ps w))) \<and>
    (\<exists>ks. fst (passage_Keys (pc_env c) (pc_ring c) (fold (passage_step (pc_env c) (pc_ring c)) ps w)) = Inr ks \<and>
       distinct ks \<and> set ks = dom (fold (spec_kop (\<lambda>i. i)) ps (pass_view c w)))"
  using pstore.history [of c w ps key] assms unfolding passage_ops pass_inv_def two_flavors_def by simp

theorem passage_history_witness:
  "fst (passage_Get (mp_env passage_flavor) \<lparr>pk_dir = ''/s'', pk_passcmd = ''passage'', pk_prefix = []\<rparr> ''k''
     (fold (passage_step (mp_env passage_flavor) \<lparr>pk_dir = ''/s'', pk_passcmd = ''passage'', pk_prefix = []\<rparr>)
        [KRemove ''k'', KKeys] [])) = Inl ErrKeyNotFound"
proof -
  let ?c = "mp_context passage_flavor"
  have key: "pass_okkey ?c ''k''"
    by (simp add: pass_okkey_def mp_context_def path_parts_def plain_path_def plain_part_def)
  moreover have "pass_texts ?c [] = Map.empty"
    by (rule ext) (simp add: pass_texts_def mp_context_def mp_entries_def mp_entry_def split: list.split)
  moreover have "pc_flavor ?c = passage_flavor" "pc_env ?c = mp_env passage_flavor"
    "pc_ring ?c = \<lparr>pk_dir = ''/s'', pk_passcmd = ''passage'', pk_prefix = []\<rparr>"
    by (simp_all add: mp_context_def) (simp add: passage_flavor_def)
  ultimately show ?thesis
    using passage_history [of ?c "[]" "[KRemove ''k'', KKeys]" "''k''"] mp_lawful [of passage_flavor]
    by (simp add: two_flavors_def holds_items_def pass_view_def items_view_def)
qed

text \<open>
  \<^bold>\<open>C31.\<close> The prefix does not keep the items of a \<open>pass\<close> or \<open>passage\<close> keyring apart from the rest of the
  store: on a keyring whose prefix is one directory, the key made of two dots, a slash, a path \<open>q\<close>, a
  slash and \<open>key\<close> reads and removes exactly what \<open>key\<close> does on the keyring with prefix \<open>q\<close>.
\<close>

theorem pass_keys_escape_prefix:
  assumes "HasPrefix dir ''/''" and "plain_part p"
    and "plain_path q" and "q \<noteq> []" and "plain_path key" and "key \<noteq> []"
  shows "pass_Get env \<lparr>pk_dir = dir, pk_passcmd = cmd, pk_prefix = p\<rparr> (''../'' @ q @ ''/'' @ key) w =
      pass_Get env \<lparr>pk_dir = dir, pk_passcmd = cmd, pk_prefix = q\<rparr> key w \<and>
    pass_Remove env \<lparr>pk_dir = dir, pk_passcmd = cmd, pk_prefix = p\<rparr> (''../'' @ q @ ''/'' @ key) w =
      pass_Remove env \<lparr>pk_dir = dir, pk_passcmd = cmd, pk_prefix = q\<rparr> key w \<and>
    passage_Get env \<lparr>pk_dir = dir, pk_passcmd = cmd, pk_prefix = p\<rparr> (''../'' @ q @ ''/'' @ key) w =
      passage_Get env \<lparr>pk_dir = dir, pk_passcmd = cmd, pk_prefix = q\<rparr> key w \<and>
    passage_Remove env \<lparr>pk_dir = dir, pk_passcmd = cmd, pk_prefix = p\<rparr> (''../'' @ q @ ''/'' @ key) w =
      passage_Remove env \<lparr>pk_dir = dir, pk_passcmd = cmd, pk_prefix = q\<rparr> key w"
proof -
  let ?k = "''../'' @ q @ ''/'' @ key"
  have p: "p \<noteq> []" "Split (CHR ''/'') p = [p]" "plain_path p" "path_parts p = [p]"
    using assms(2) by (simp_all add: plain_part_def plain_path_def path_parts_def Split_no_sep)
  have up: "Split (CHR ''/'') (''../'' @ q @ ''/'' @ k) = ''..'' # Split (CHR ''/'') q @ Split (CHR ''/'') k" for k
    using Split_append [of "CHR ''/''" "q" k] by simp
  have name: "Join [p, ?k] = Join [q, key]"
    using Join_rel [OF p(3,1), of "[?k]"] Join_rel [OF assms(3,4), of "[key]"] assms(2) p(2) up [of key] by (simp add: plain_part_def del: Join.simps append_Cons Split.simps) simp
  have path: "Join [dir, p, ?k @ e] = Join [dir, q, key @ e]" for e
    unfolding Join_abs [OF assms(1)] using assms(2) p(2) up [of "key @ e"]
    by (simp add: clean_loop_append plain_part_def del: Split.simps append_Cons)
  show ?thesis
    unfolding pass_Get_def pass_Remove_def passage_Get_def passage_Remove_def flavor_Get_def flavor_Remove_def
      flavor_itemExists_def flavor_cmd_def passKeyring.simps name path
    by (intro conjI refl)
qed

theorem pass_keys_escape_prefix_witness:
  "pass_Get (mp_env pass_flavor) \<lparr>pk_dir = ''/s'', pk_passcmd = ''pass'', pk_prefix = ''team''\<rparr> ''../x/k'' [] =
    pass_Get (mp_env pass_flavor) \<lparr>pk_dir = ''/s'', pk_passcmd = ''pass'', pk_prefix = ''x''\<rparr> ''k'' []"
  using conjunct1 [OF pass_keys_escape_prefix [of "''/s''" "''team''" "''x''" "''k''" "mp_env pass_flavor" "''pass''" "[]"]]
  by (simp add: HasPrefix_def plain_part_def plain_path_def path_parts_def del: Join.simps)

end
