(* ===== verification/Keychain.thy ===== *)
theory Keychain
  imports Keyring_API "HOL-Library.AList"
begin

text \<open>
  \<open>keychain_macos.go\<close> and \<open>keychain_ios.go\<close>: the backends over Apple's keychain. The library
  \<open>go-keychain\<close>, the Touch ID library and the terminal are parameters.
\<close>

section \<open>The library\<close>

text \<open>
  A \<open>gokeychain.Item\<close> is the set of attributes its setters were called with. A \<open>gokeychain.Keychain\<close>
  is the path it was made with; the zero value has none.
\<close>

datatype match_limit = MatchLimitOne | MatchLimitAll
datatype synchronizable = SynchronizableYes | SynchronizableNo
datatype accessible = AccessibleWhenUnlocked
datatype sec_class = SecClassGenericPassword

record Access =
  acc_Label :: string
  acc_TrustedApplications :: "string list option"

record kitem =
  ki_SecClass :: "sec_class option"
  ki_Service :: "string option"
  ki_Account :: "string option"
  ki_Label :: "string option"
  ki_Description :: "string option"
  ki_Data :: slice
  ki_MatchLimit :: "match_limit option"
  ki_ReturnAttributes :: "bool option"
  ki_ReturnData :: "bool option"
  ki_ReturnRef :: "bool option"
  ki_MatchSearchList :: "string list"
  ki_UseKeychain :: "string option"
  ki_Synchronizable :: "synchronizable option"
  ki_Accessible :: "accessible option"
  ki_Access :: "Access option"

definition NewItem :: kitem where
  "NewItem = \<lparr>ki_SecClass = None, ki_Service = None, ki_Account = None, ki_Label = None,
     ki_Description = None, ki_Data = None, ki_MatchLimit = None, ki_ReturnAttributes = None,
     ki_ReturnData = None, ki_ReturnRef = None, ki_MatchSearchList = [], ki_UseKeychain = None,
     ki_Synchronizable = None, ki_Accessible = None, ki_Access = None\<rparr>"

record QueryResult =
  qr_Account :: string
  qr_Label :: string
  qr_Description :: string
  qr_Data :: slice
  qr_ModificationDate :: time

text \<open>\<open>QueryItem\<close> returns results and an error; the backends look at both.\<close>

record 'w keychain_api =
  kc_QueryItem :: "kitem \<Rightarrow> 'w \<Rightarrow> (QueryResult list \<times> goerr option) \<times> 'w"
  kc_AddItem :: "kitem \<Rightarrow> ('w, unit) call"
  kc_UpdateItem :: "kitem \<Rightarrow> kitem \<Rightarrow> ('w, unit) call"
  kc_DeleteItem :: "kitem \<Rightarrow> ('w, unit) call"
  kc_Status :: "string \<Rightarrow> ('w, unit) call"
  kc_NewKeychain :: "string \<Rightarrow> string \<Rightarrow> ('w, string) call"
  kc_NewKeychainWithPrompt :: "string \<Rightarrow> ('w, string) call"
  kc_LockAtPath :: "string \<Rightarrow> ('w, unit) call"
  kc_UnlockAtPath :: "string \<Rightarrow> string \<Rightarrow> ('w, unit) call"
  touchid_Authenticate :: "string \<Rightarrow> ('w, unit) call"
  term_ReadPassword :: "('w, string) call"

abbreviation ErrorItemNotFound :: goerr where "ErrorItemNotFound \<equiv> Foreign ''errSecItemNotFound''"
abbreviation ErrorDuplicateItem :: goerr where "ErrorDuplicateItem \<equiv> Foreign ''errSecDuplicateItem''"
abbreviation ErrorNoSuchKeychain :: goerr where "ErrorNoSuchKeychain \<equiv> Foreign ''errSecNoSuchKeychain''"

text \<open>A query whose error is returned under a text.\<close>

definition query_or ::
  "(goerr \<Rightarrow> goerr) \<Rightarrow> 'w keychain_api \<Rightarrow> kitem \<Rightarrow> ('w, QueryResult list) call" where
  "query_or h api q w =
     (case kc_QueryItem api q w of
        ((results, Some err), w) \<Rightarrow> (Inl (h err), w)
      | ((results, None), w) \<Rightarrow> (Inr results, w))"

section \<open>The macOS keychain\<close>

record 'w keychain =
  k_path :: string
  k_service :: string
  k_passwordFunc :: "'w PromptFunc option"
  isSynchronizable :: bool
  isAccessibleWhenUnlocked :: bool
  isTrusted :: bool
  isTouchIDAuthenticated :: bool
  useTouchID :: bool
  touchIDAccount :: string
  touchIDService :: string

type_synonym 'w keychain_state = "'w keychain \<times> 'w"

definition keychain_opener :: "('w, 'w keychain) opener" where
  "keychain_opener cfg =
     (let kc = \<lparr>k_path = [], k_service = ServiceName cfg, k_passwordFunc = KeychainPasswordFunc cfg,
        isSynchronizable = KeychainSynchronizable cfg,
        isAccessibleWhenUnlocked = KeychainAccessibleWhenUnlocked cfg,
        isTrusted = False, isTouchIDAuthenticated = False, useTouchID = False,
        touchIDAccount = [], touchIDService = []\<rparr> in
      if UseBiometrics cfg \<and> TouchIDAccount cfg = [] then
        go_fail (Textf ''TouchIDAccount must be non-empty if UseBiometrics is true'' [])
      else if UseBiometrics cfg \<and> TouchIDService cfg = [] then
        go_fail (Textf ''TouchIDService must be non-empty if UseBiometrics is true'' [])
      else
        (let kc = (if UseBiometrics cfg
                   then kc\<lparr>useTouchID := True, touchIDAccount := TouchIDAccount cfg,
                           touchIDService := TouchIDService cfg\<rparr> else kc);
             kc = (if KeychainName cfg \<noteq> [] then kc\<lparr>k_path := KeychainName cfg @ ''.keychain''\<rparr> else kc);
             kc = (if KeychainTrustApplication cfg then kc\<lparr>isTrusted := True\<rparr> else kc)
         in go_return kc))"

text \<open>The attributes every query of the keyring starts with.\<close>

definition account_query :: "string \<Rightarrow> string \<Rightarrow> kitem" where
  "account_query service key =
     NewItem\<lparr>ki_SecClass := Some SecClassGenericPassword, ki_Service := Some service,
       ki_Account := Some key\<rparr>"

text \<open>
  What \<open>Get\<close> makes of the answer: an answer without results counts as a missing item, whatever the
  error.
\<close>

definition found_item :: "string \<Rightarrow> QueryResult list \<times> goerr option \<Rightarrow> Item res" where
  "found_item key = (\<lambda>(results, err).
     (if err = Some ErrorItemNotFound \<or> length results = 0 then Inl ErrKeyNotFound
      else case err of
        Some err \<Rightarrow> Inl err
      | None \<Rightarrow> Inr (zero_Item\<lparr>Key := key, Data := qr_Data (results ! 0), Label := qr_Label (results ! 0),
          Description := qr_Description (results ! 0)\<rparr>)))"

definition found_metadata :: "string \<Rightarrow> QueryResult list \<times> goerr option \<Rightarrow> Metadata res" where
  "found_metadata key = (\<lambda>(results, err).
     (if err = Some ErrorItemNotFound \<or> length results = 0 then Inl ErrKeyNotFound
      else case err of
        Some err \<Rightarrow> Inl err
      | None \<Rightarrow> Inr \<lparr>MetaItem = Some (zero_Item\<lparr>Key := key, Label := qr_Label (results ! 0),
            Description := qr_Description (results ! 0)\<rparr>),
          ModificationTime = qr_ModificationDate (results ! 0)\<rparr>))"

definition keychain_Get :: "'w keychain_api \<Rightarrow> string \<Rightarrow> ('w keychain_state, Item) call" where
  "keychain_Get api key = (\<lambda>(k, w).
     (let query = (account_query (k_service k) key)
            \<lparr>ki_MatchLimit := Some MatchLimitOne, ki_ReturnAttributes := Some True, ki_ReturnData := Some True\<rparr>;
          query = (if k_path k \<noteq> [] then query\<lparr>ki_MatchSearchList := [k_path k]\<rparr> else query)
      in case kc_QueryItem api query w of (answer, w) \<Rightarrow> (found_item key answer, (k, w))))"

definition keychain_GetMetadata :: "'w keychain_api \<Rightarrow> string \<Rightarrow> ('w keychain_state, Metadata) call" where
  "keychain_GetMetadata api key = (\<lambda>(k, w).
     (let query = (account_query (k_service k) key)
            \<lparr>ki_MatchLimit := Some MatchLimitOne, ki_ReturnAttributes := Some True,
             ki_ReturnData := Some False, ki_ReturnRef := Some True\<rparr>
      in case kc_QueryItem api query w of (answer, w) \<Rightarrow> (found_metadata key answer, (k, w))))"

definition updateItem ::
  "'w keychain_api \<Rightarrow> 'w keychain \<Rightarrow> string \<Rightarrow> kitem \<Rightarrow> string \<Rightarrow> ('w, unit) call" where
  "updateItem api k kc kcItem account =
     (let queryItem = (account_query (k_service k) account)
            \<lparr>ki_MatchLimit := Some MatchLimitOne, ki_ReturnAttributes := Some True\<rparr>;
          queryItem = (if k_path k \<noteq> [] then queryItem\<lparr>ki_MatchSearchList := [kc]\<rparr> else queryItem)
      in go_try (query_or (textf_err ''failed to query keychain: %v'') api queryItem) (\<lambda>results.
           if length results = 0 then go_fail (Textf ''no results'' [])
           else
             (let kcItem = kcItem\<lparr>ki_Access := None\<rparr> in
              go_tryE (textf_err ''failed to update item in keychain: %v'')
                (kc_UpdateItem api queryItem kcItem) go_return)))"

definition setupTouchID :: "'w keychain_api \<Rightarrow> 'w keychain \<Rightarrow> ('w, string) call" where
  "setupTouchID api k =
     go_try
       (case k_passwordFunc k of
          None \<Rightarrow> go_tryE (textf_err ''failed to read password: %v'') (term_ReadPassword api) go_return
        | Some f \<Rightarrow> go_tryE (textf_err ''failed to get password: %v'')
            (f (''Enter passphrase for '' @ go_quote (k_path k))) go_return) (\<lambda>passphrase.
     go_tryE (textf_err ''failed to lock keychain: %v'') (kc_LockAtPath api (k_path k)) (\<lambda>_.
     go_tryE (textf_err ''failed to unlock keychain: %v'') (kc_UnlockAtPath api (k_path k) passphrase) (\<lambda>_.
       (let item = (account_query (touchIDService k) (touchIDAccount k))
              \<lparr>ki_Label := Some (''Passphrase for '' @ k_path k), ki_Data := Some passphrase,
               ki_Synchronizable := Some SynchronizableNo, ki_Accessible := Some AccessibleWhenUnlocked\<rparr> in
        go_tryE (textf_err ''failed to add item to keychain: %v'') (kc_AddItem api item)
          (\<lambda>_. go_return passphrase)))))"

text \<open>
  The flag that the user has authenticated is set before the keychain is unlocked, and stays set when
  unlocking fails.
\<close>

definition openWithTouchID :: "'w keychain_api \<Rightarrow> ('w keychain_state, string) call" where
  "openWithTouchID api = (\<lambda>(k, w).
     (if isTouchIDAuthenticated k then (Inr (k_path k), (k, w))
      else
        (case touchid_Authenticate api (''unlock '' @ k_path k) w of
           (Inl err, w) \<Rightarrow> (Inl (wrap_err ''failed to authenticate with biometrics'' err), (k, w))
         | (Inr _, w) \<Rightarrow>
             (let k = k\<lparr>isTouchIDAuthenticated := True\<rparr>;
                  query = (account_query (touchIDService k) (touchIDAccount k))
                    \<lparr>ki_Label := Some (''Passphrase for '' @ k_path k),
                     ki_MatchLimit := Some MatchLimitOne, ki_ReturnData := Some True\<rparr> in
              on_world
                (go_try (query_or (textf_err ''failed to query keychain: %v'') api query) (\<lambda>results.
                 go_try
                   (if length results \<noteq> 1 then
                      go_tryE (textf_err ''failed to setup touchid: %v'') (setupTouchID api k) (\<lambda>_. go_return ())
                    else
                      go_tryE (textf_err ''failed to unlock keychain: %v'')
                        (kc_UnlockAtPath api (k_path k) (bytes_of (qr_Data (results ! 0)))) go_return)
                   (\<lambda>_. go_return (k_path k)))) (k, w)))))"

definition createOrOpen :: "'w keychain_api \<Rightarrow> ('w keychain_state, string) call" where
  "createOrOpen api = (\<lambda>(k, w).
     (case kc_Status api (k_path k) w of
        (Inr _, w) \<Rightarrow> if useTouchID k then openWithTouchID api (k, w) else (Inr (k_path k), (k, w))
      | (Inl err, w) \<Rightarrow>
          if err \<noteq> ErrorNoSuchKeychain then (Inl err, (k, w))
          else
            (case k_passwordFunc k of
               None \<Rightarrow> on_world (kc_NewKeychainWithPrompt api (k_path k)) (k, w)
             | Some f \<Rightarrow>
                 on_world (go_try (f ''Enter passphrase for keychain'')
                   (\<lambda>passphrase. kc_NewKeychain api (k_path k) passphrase)) (k, w))))"

text \<open>The item \<open>Set\<close> adds, in the keychain it opened.\<close>

definition set_item :: "'w keychain \<Rightarrow> string \<Rightarrow> Item \<Rightarrow> kitem" where
  "set_item k kc item =
     (let kcItem = (account_query (k_service k) (Key item))
            \<lparr>ki_Label := Some (Label item), ki_Description := Some (Description item), ki_Data := Data item\<rparr>;
          kcItem = (if k_path k \<noteq> [] then kcItem\<lparr>ki_UseKeychain := Some kc\<rparr> else kcItem);
          kcItem = (if isSynchronizable k \<and> \<not> KeychainNotSynchronizable item
                    then kcItem\<lparr>ki_Synchronizable := Some SynchronizableYes\<rparr> else kcItem);
          kcItem = (if isAccessibleWhenUnlocked k
                    then kcItem\<lparr>ki_Accessible := Some AccessibleWhenUnlocked\<rparr> else kcItem);
          isTrusted = (isTrusted k \<and> \<not> KeychainNotTrustApplication item)
      in kcItem\<lparr>ki_Access := Some \<lparr>acc_Label = Label item,
           acc_TrustedApplications = (if isTrusted then None else Some [])\<rparr>\<rparr>)"

definition keychain_Set :: "'w keychain_api \<Rightarrow> Item \<Rightarrow> ('w keychain_state, unit) call" where
  "keychain_Set api item =
     go_try (\<lambda>(k, w). if k_path k \<noteq> [] then createOrOpen api (k, w) else (Inr [], (k, w))) (\<lambda>kc (k, w).
       (case kc_AddItem api (set_item k kc item) w of
          (Inl err, w) \<Rightarrow>
            if err = ErrorDuplicateItem
            then on_world (updateItem api k kc (set_item k kc item) (Key item)) (k, w)
            else (Inl err, (k, w))
        | (Inr _, w) \<Rightarrow> (Inr (), (k, w))))"

definition keychain_Remove :: "'w keychain_api \<Rightarrow> string \<Rightarrow> ('w keychain_state, unit) call" where
  "keychain_Remove api key = (\<lambda>(k, w).
     (let item = account_query (k_service k) key;
          missing = (\<lambda>e err. if err = e then ErrKeyNotFound else err) in
      on_world
        (go_tryE (missing ErrorNoSuchKeychain)
          (if k_path k \<noteq> []
           then go_try (kc_Status api (k_path k)) (\<lambda>_. go_return (item\<lparr>ki_MatchSearchList := [k_path k]\<rparr>))
           else go_return item) (\<lambda>item.
         go_tryE (missing ErrorItemNotFound) (kc_DeleteItem api item) go_return)) (k, w)))"

definition keychain_Keys :: "'w keychain_api \<Rightarrow> ('w keychain_state, string list) call" where
  "keychain_Keys api = (\<lambda>(k, w).
     (let query = NewItem\<lparr>ki_SecClass := Some SecClassGenericPassword, ki_Service := Some (k_service k),
            ki_MatchLimit := Some MatchLimitAll, ki_ReturnAttributes := Some True\<rparr>;
          list = (\<lambda>query. go_try (query_or (\<lambda>err. err) api query) (\<lambda>results. go_return (map qr_Account results)))
      in if k_path k \<noteq> [] then
           (case kc_Status api (k_path k) w of
              (Inl err, w) \<Rightarrow> (if err = ErrorNoSuchKeychain then Inr [] else Inl err, (k, w))
            | (Inr _, w) \<Rightarrow> on_world (list (query\<lparr>ki_MatchSearchList := [k_path k]\<rparr>)) (k, w))
         else on_world (list query) (k, w)))"

section \<open>The iOS keychain\<close>

record 'w ios_keychain =
  ik_service :: string
  ik_passwordFunc :: "'w PromptFunc option"
  ik_isSynchronizable :: bool
  ik_isAccessibleWhenUnlocked :: bool

definition ios_opener :: "('w, 'w ios_keychain) opener" where
  "ios_opener cfg =
     go_return \<lparr>ik_service = ServiceName cfg, ik_passwordFunc = KeychainPasswordFunc cfg,
       ik_isSynchronizable = KeychainSynchronizable cfg,
       ik_isAccessibleWhenUnlocked = KeychainAccessibleWhenUnlocked cfg\<rparr>"

definition ios_Get :: "'w keychain_api \<Rightarrow> 'w ios_keychain \<Rightarrow> string \<Rightarrow> ('w, Item) call" where
  "ios_Get api k key w =
     (let query = (account_query (ik_service k) key)
            \<lparr>ki_MatchLimit := Some MatchLimitOne, ki_ReturnAttributes := Some True, ki_ReturnData := Some True\<rparr>
      in case kc_QueryItem api query w of (answer, w) \<Rightarrow> (found_item key answer, w))"

definition ios_GetMetadata :: "'w keychain_api \<Rightarrow> 'w ios_keychain \<Rightarrow> string \<Rightarrow> ('w, Metadata) call" where
  "ios_GetMetadata api k key w =
     (let query = (account_query (ik_service k) key)
            \<lparr>ki_MatchLimit := Some MatchLimitOne, ki_ReturnAttributes := Some True,
             ki_ReturnData := Some False, ki_ReturnRef := Some True\<rparr>
      in case kc_QueryItem api query w of (answer, w) \<Rightarrow> (found_metadata key answer, w))"

definition ios_updateItem ::
  "'w keychain_api \<Rightarrow> 'w ios_keychain \<Rightarrow> kitem \<Rightarrow> string \<Rightarrow> ('w, unit) call" where
  "ios_updateItem api k kcItem account =
     (let queryItem = (account_query (ik_service k) account)
            \<lparr>ki_MatchLimit := Some MatchLimitOne, ki_ReturnAttributes := Some True\<rparr>
      in go_try (query_or (textf_err ''failed to query keychain: %v'') api queryItem) (\<lambda>results.
           if length results = 0 then go_fail (Textf ''no results'' [])
           else go_tryE (textf_err ''failed to update item in keychain: %v'')
             (kc_UpdateItem api queryItem kcItem) go_return))"

definition ios_set_item :: "'w ios_keychain \<Rightarrow> Item \<Rightarrow> kitem" where
  "ios_set_item k item =
     (let kcItem = (account_query (ik_service k) (Key item))
            \<lparr>ki_Label := Some (Label item), ki_Description := Some (Description item), ki_Data := Data item\<rparr>;
          kcItem = (if ik_isSynchronizable k \<and> \<not> KeychainNotSynchronizable item
                    then kcItem\<lparr>ki_Synchronizable := Some SynchronizableYes\<rparr> else kcItem)
      in if ik_isAccessibleWhenUnlocked k
         then kcItem\<lparr>ki_Accessible := Some AccessibleWhenUnlocked\<rparr> else kcItem)"

definition ios_Set :: "'w keychain_api \<Rightarrow> 'w ios_keychain \<Rightarrow> Item \<Rightarrow> ('w, unit) call" where
  "ios_Set api k item w =
     (case kc_AddItem api (ios_set_item k item) w of
        (Inl err, w) \<Rightarrow>
          if err = ErrorDuplicateItem then ios_updateItem api k (ios_set_item k item) (Key item) w
          else (Inl err, w)
      | (Inr _, w) \<Rightarrow> (Inr (), w))"

definition ios_Remove :: "'w keychain_api \<Rightarrow> 'w ios_keychain \<Rightarrow> string \<Rightarrow> ('w, unit) call" where
  "ios_Remove api k key =
     go_tryE (\<lambda>err. if err = ErrorItemNotFound then ErrKeyNotFound else err)
       (kc_DeleteItem api (account_query (ik_service k) key)) go_return"

definition ios_Keys :: "'w keychain_api \<Rightarrow> 'w ios_keychain \<Rightarrow> ('w, string list) call" where
  "ios_Keys api k =
     (let query = NewItem\<lparr>ki_SecClass := Some SecClassGenericPassword, ki_Service := Some (ik_service k),
            ki_MatchLimit := Some MatchLimitAll, ki_ReturnAttributes := Some True\<rparr>
      in go_try (query_or (\<lambda>err. err) api query) (\<lambda>results. go_return (map qr_Account results)))"

end
