(* ===== verification/Keychain_Store.thy ===== *)
theory Keychain_Store
  imports Keychain
begin

text \<open>
  The macOS and iOS keychain backends as keyrings: over a keychain that behaves as documented they
  meet the contract of \<open>Keyring_API\<close>. A keychain in memory shows that the laws can hold.
\<close>

section \<open>A keychain that behaves as documented\<close>

text \<open>
  The keychain file the keyring works on, or the default keychains when it has no path; whether it
  exists, and the data of the items of the service, by account. The user allows every access.
\<close>

record 'w keychain_context =
  kx_api :: "'w keychain_api"
  kx_path :: string
  kx_service :: string
  kx_exists :: "'w \<Rightarrow> bool"
  kx_items :: "'w \<Rightarrow> string \<rightharpoonup> bytes"

definition search_list :: "'w keychain_context \<Rightarrow> string list" where
  "search_list c = (if kx_path c = [] then [] else [kx_path c])"

text \<open>
  A query for one account of the service in the keychain; an item with data for the account that is
  not synchronized (a query that does not ask for synchronized items finds none); the item that names
  what to delete; the query for all items of the service.
\<close>

definition finds_account :: "'w keychain_context \<Rightarrow> string \<Rightarrow> kitem \<Rightarrow> bool" where
  "finds_account c a q \<longleftrightarrow> ki_SecClass q = Some SecClassGenericPassword \<and> ki_Service q = Some (kx_service c) \<and>
     ki_Account q = Some a \<and> ki_MatchLimit q = Some MatchLimitOne \<and> ki_ReturnAttributes q = Some True \<and>
     ki_MatchSearchList q = search_list c \<and> ki_Label q = None \<and> ki_Description q = None \<and> ki_Data q = None \<and>
     ki_Synchronizable q = None"

definition stores_account :: "'w keychain_context \<Rightarrow> string \<Rightarrow> bytes \<Rightarrow> kitem \<Rightarrow> bool" where
  "stores_account c a d i \<longleftrightarrow> ki_SecClass i = Some SecClassGenericPassword \<and> ki_Service i = Some (kx_service c) \<and>
     ki_Account i = Some a \<and> ki_Data i = Some d \<and> ki_Synchronizable i = None \<and>
     ki_UseKeychain i = (if kx_path c = [] then None else Some (kx_path c))"

definition deletes_account :: "'w keychain_context \<Rightarrow> string \<Rightarrow> kitem \<Rightarrow> bool" where
  "deletes_account c a i \<longleftrightarrow> ki_SecClass i = Some SecClassGenericPassword \<and> ki_Service i = Some (kx_service c) \<and>
     ki_Account i = Some a \<and> ki_MatchSearchList i = search_list c \<and> ki_Label i = None \<and>
     ki_Description i = None \<and> ki_Data i = None"

definition finds_all :: "'w keychain_context \<Rightarrow> kitem \<Rightarrow> bool" where
  "finds_all c q \<longleftrightarrow> ki_SecClass q = Some SecClassGenericPassword \<and> ki_Service q = Some (kx_service c) \<and>
     ki_Account q = None \<and> ki_MatchLimit q = Some MatchLimitAll \<and> ki_ReturnAttributes q = Some True \<and>
     ki_MatchSearchList q = search_list c \<and> ki_Label q = None \<and> ki_Description q = None"

definition lawful_keychain :: "'w keychain_context \<Rightarrow> bool" where
  "lawful_keychain c \<longleftrightarrow> kx_service c \<noteq> [] \<and>
     (\<forall>w. (\<not> kx_exists c w \<longrightarrow> kx_items c w = Map.empty) \<and> (kx_path c = [] \<longrightarrow> kx_exists c w)) \<and>
     (\<forall>w. kx_path c \<noteq> [] \<longrightarrow>
        kc_Status (kx_api c) (kx_path c) w = (if kx_exists c w then Inr () else Inl ErrorNoSuchKeychain, w)) \<and>
     (\<forall>w pw. kx_path c \<noteq> [] \<and> \<not> kx_exists c w \<longrightarrow>
        (\<exists>w'. kc_NewKeychain (kx_api c) (kx_path c) pw w = (Inr (kx_path c), w') \<and> kx_exists c w' \<and>
           kx_items c w' = Map.empty) \<and>
        (\<exists>w'. kc_NewKeychainWithPrompt (kx_api c) (kx_path c) w = (Inr (kx_path c), w') \<and> kx_exists c w' \<and>
           kx_items c w' = Map.empty)) \<and>
     (\<forall>w a q. a \<noteq> [] \<and> finds_account c a q \<longrightarrow>
        (case kx_items c w a of
           None \<Rightarrow> \<exists>e. kc_QueryItem (kx_api c) q w = (([], e), w)
         | Some d \<Rightarrow> \<exists>r. kc_QueryItem (kx_api c) q w = (([r], None), w) \<and> qr_Account r = a \<and>
             (ki_ReturnData q = Some True \<longrightarrow> bytes_of (qr_Data r) = d))) \<and>
     (\<forall>w a d i. a \<noteq> [] \<and> kx_exists c w \<and> stores_account c a d i \<longrightarrow>
        (if kx_items c w a = None
         then \<exists>w'. kc_AddItem (kx_api c) i w = (Inr (), w') \<and> kx_exists c w' \<and>
           kx_items c w' = (kx_items c w)(a \<mapsto> d)
         else kc_AddItem (kx_api c) i w = (Inl ErrorDuplicateItem, w))) \<and>
     (\<forall>w a d q i. a \<noteq> [] \<and> kx_items c w a \<noteq> None \<and> finds_account c a q \<and> stores_account c a d i \<and>
          ki_Access i = None \<longrightarrow>
        (\<exists>w'. kc_UpdateItem (kx_api c) q i w = (Inr (), w') \<and> kx_exists c w' \<and>
           kx_items c w' = (kx_items c w)(a \<mapsto> d))) \<and>
     (\<forall>w a i. a \<noteq> [] \<and> kx_exists c w \<and> deletes_account c a i \<longrightarrow>
        (if kx_items c w a = None then kc_DeleteItem (kx_api c) i w = (Inl ErrorItemNotFound, w)
         else \<exists>w'. kc_DeleteItem (kx_api c) i w = (Inr (), w') \<and> kx_exists c w' \<and>
           kx_items c w' = (kx_items c w)(a := None))) \<and>
     (\<forall>w q. kx_exists c w \<and> finds_all c q \<longrightarrow>
        (\<exists>rs. kc_QueryItem (kx_api c) q w = ((rs, None), w) \<and> distinct (map qr_Account rs) \<and>
           set (map qr_Account rs) = dom (kx_items c w)))"

lemma keychain_laws:
  assumes "lawful_keychain c"
  shows "\<not> kx_exists c w \<Longrightarrow> kx_items c w = Map.empty"
    and "kx_path c = [] \<Longrightarrow> kx_exists c w"
    and "kx_path c \<noteq> [] \<Longrightarrow>
      kc_Status (kx_api c) (kx_path c) w = (if kx_exists c w then Inr () else Inl ErrorNoSuchKeychain, w)"
proof -
  from assms have "\<forall>w. (\<not> kx_exists c w \<longrightarrow> kx_items c w = Map.empty) \<and> (kx_path c = [] \<longrightarrow> kx_exists c w)"
    unfolding lawful_keychain_def by (elim conjE)
  note law = spec [OF this, of w]
  show "\<not> kx_exists c w \<Longrightarrow> kx_items c w = Map.empty" using law by simp
  show "kx_path c = [] \<Longrightarrow> kx_exists c w" using law by simp
  from assms have "\<forall>w. kx_path c \<noteq> [] \<longrightarrow>
      kc_Status (kx_api c) (kx_path c) w = (if kx_exists c w then Inr () else Inl ErrorNoSuchKeychain, w)"
    unfolding lawful_keychain_def by (elim conjE)
  then show "kx_path c \<noteq> [] \<Longrightarrow>
      kc_Status (kx_api c) (kx_path c) w = (if kx_exists c w then Inr () else Inl ErrorNoSuchKeychain, w)"
    by simp
qed

lemma create_laws:
  assumes "lawful_keychain c" "kx_path c \<noteq> []" "\<not> kx_exists c w"
  shows "\<exists>w'. kc_NewKeychain (kx_api c) (kx_path c) pw w = (Inr (kx_path c), w') \<and> kx_exists c w' \<and>
      kx_items c w' = Map.empty"
    and "\<exists>w'. kc_NewKeychainWithPrompt (kx_api c) (kx_path c) w = (Inr (kx_path c), w') \<and> kx_exists c w' \<and>
      kx_items c w' = Map.empty"
proof -
  from assms(1) have "\<forall>w pw. kx_path c \<noteq> [] \<and> \<not> kx_exists c w \<longrightarrow>
        (\<exists>w'. kc_NewKeychain (kx_api c) (kx_path c) pw w = (Inr (kx_path c), w') \<and> kx_exists c w' \<and>
           kx_items c w' = Map.empty) \<and>
        (\<exists>w'. kc_NewKeychainWithPrompt (kx_api c) (kx_path c) w = (Inr (kx_path c), w') \<and> kx_exists c w' \<and>
           kx_items c w' = Map.empty)"
    unfolding lawful_keychain_def by (elim conjE)
  note law = this [rule_format, OF conjI, OF assms(2,3), of pw]
  show "\<exists>w'. kc_NewKeychain (kx_api c) (kx_path c) pw w = (Inr (kx_path c), w') \<and> kx_exists c w' \<and>
      kx_items c w' = Map.empty" using conjunct1 [OF law] .
  show "\<exists>w'. kc_NewKeychainWithPrompt (kx_api c) (kx_path c) w = (Inr (kx_path c), w') \<and> kx_exists c w' \<and>
      kx_items c w' = Map.empty" using conjunct2 [OF law] .
qed

lemma query_laws:
  assumes "lawful_keychain c" "a \<noteq> []" "finds_account c a q"
  shows "kx_items c w a = None \<Longrightarrow> \<exists>e. kc_QueryItem (kx_api c) q w = (([], e), w)"
    and "kx_items c w a = Some d \<Longrightarrow> \<exists>r. kc_QueryItem (kx_api c) q w = (([r], None), w) \<and> qr_Account r = a \<and>
      (ki_ReturnData q = Some True \<longrightarrow> bytes_of (qr_Data r) = d)"
proof -
  from assms(1) have "\<forall>w a q. a \<noteq> [] \<and> finds_account c a q \<longrightarrow>
        (case kx_items c w a of
           None \<Rightarrow> \<exists>e. kc_QueryItem (kx_api c) q w = (([], e), w)
         | Some d \<Rightarrow> \<exists>r. kc_QueryItem (kx_api c) q w = (([r], None), w) \<and> qr_Account r = a \<and>
             (ki_ReturnData q = Some True \<longrightarrow> bytes_of (qr_Data r) = d))"
    unfolding lawful_keychain_def by (elim conjE)
  note law = this [rule_format, OF conjI, OF assms(2,3), of w]
  show "kx_items c w a = None \<Longrightarrow> \<exists>e. kc_QueryItem (kx_api c) q w = (([], e), w)" using law by simp
  show "kx_items c w a = Some d \<Longrightarrow> \<exists>r. kc_QueryItem (kx_api c) q w = (([r], None), w) \<and> qr_Account r = a \<and>
      (ki_ReturnData q = Some True \<longrightarrow> bytes_of (qr_Data r) = d)" using law by simp
qed

lemma add_laws:
  assumes "lawful_keychain c" "a \<noteq> []" "kx_exists c w" "stores_account c a d i"
  shows "kx_items c w a = None \<Longrightarrow> \<exists>w'. kc_AddItem (kx_api c) i w = (Inr (), w') \<and> kx_exists c w' \<and>
      kx_items c w' = (kx_items c w)(a \<mapsto> d)"
    and "kx_items c w a \<noteq> None \<Longrightarrow> kc_AddItem (kx_api c) i w = (Inl ErrorDuplicateItem, w)"
proof -
  from assms(1) have "\<forall>w a d i. a \<noteq> [] \<and> kx_exists c w \<and> stores_account c a d i \<longrightarrow>
        (if kx_items c w a = None
         then \<exists>w'. kc_AddItem (kx_api c) i w = (Inr (), w') \<and> kx_exists c w' \<and>
           kx_items c w' = (kx_items c w)(a \<mapsto> d)
         else kc_AddItem (kx_api c) i w = (Inl ErrorDuplicateItem, w))"
    unfolding lawful_keychain_def by (elim conjE)
  note law = this [rule_format, OF conjI, OF assms(2) conjI, OF assms(3,4)]
  show "kx_items c w a = None \<Longrightarrow> \<exists>w'. kc_AddItem (kx_api c) i w = (Inr (), w') \<and> kx_exists c w' \<and>
      kx_items c w' = (kx_items c w)(a \<mapsto> d)" using law by simp
  show "kx_items c w a \<noteq> None \<Longrightarrow> kc_AddItem (kx_api c) i w = (Inl ErrorDuplicateItem, w)" using law by simp
qed

lemma update_law:
  assumes "lawful_keychain c" "a \<noteq> []" "kx_items c w a \<noteq> None" "finds_account c a q" "stores_account c a d i"
    "ki_Access i = None"
  shows "\<exists>w'. kc_UpdateItem (kx_api c) q i w = (Inr (), w') \<and> kx_exists c w' \<and>
    kx_items c w' = (kx_items c w)(a \<mapsto> d)"
proof -
  from assms(1) have "\<forall>w a d q i. a \<noteq> [] \<and> kx_items c w a \<noteq> None \<and> finds_account c a q \<and>
        stores_account c a d i \<and> ki_Access i = None \<longrightarrow>
        (\<exists>w'. kc_UpdateItem (kx_api c) q i w = (Inr (), w') \<and> kx_exists c w' \<and>
           kx_items c w' = (kx_items c w)(a \<mapsto> d))"
    unfolding lawful_keychain_def by (elim conjE)
  from this [rule_format, of a w q d i] assms(2-) show ?thesis by blast
qed

lemma delete_laws:
  assumes "lawful_keychain c" "a \<noteq> []" "kx_exists c w" "deletes_account c a i"
  shows "kx_items c w a = None \<Longrightarrow> kc_DeleteItem (kx_api c) i w = (Inl ErrorItemNotFound, w)"
    and "kx_items c w a \<noteq> None \<Longrightarrow> \<exists>w'. kc_DeleteItem (kx_api c) i w = (Inr (), w') \<and> kx_exists c w' \<and>
      kx_items c w' = (kx_items c w)(a := None)"
proof -
  from assms(1) have "\<forall>w a i. a \<noteq> [] \<and> kx_exists c w \<and> deletes_account c a i \<longrightarrow>
        (if kx_items c w a = None then kc_DeleteItem (kx_api c) i w = (Inl ErrorItemNotFound, w)
         else \<exists>w'. kc_DeleteItem (kx_api c) i w = (Inr (), w') \<and> kx_exists c w' \<and>
           kx_items c w' = (kx_items c w)(a := None))"
    unfolding lawful_keychain_def by (elim conjE)
  note law = this [rule_format, OF conjI, OF assms(2) conjI, OF assms(3,4)]
  show "kx_items c w a = None \<Longrightarrow> kc_DeleteItem (kx_api c) i w = (Inl ErrorItemNotFound, w)" using law by simp
  show "kx_items c w a \<noteq> None \<Longrightarrow> \<exists>w'. kc_DeleteItem (kx_api c) i w = (Inr (), w') \<and> kx_exists c w' \<and>
      kx_items c w' = (kx_items c w)(a := None)" using law by simp
qed

lemma list_law:
  assumes "lawful_keychain c" "kx_exists c w" "finds_all c q"
  shows "\<exists>rs. kc_QueryItem (kx_api c) q w = ((rs, None), w) \<and> distinct (map qr_Account rs) \<and>
    set (map qr_Account rs) = dom (kx_items c w)"
proof -
  from assms(1) have "\<forall>w q. kx_exists c w \<and> finds_all c q \<longrightarrow>
        (\<exists>rs. kc_QueryItem (kx_api c) q w = ((rs, None), w) \<and> distinct (map qr_Account rs) \<and>
           set (map qr_Account rs) = dom (kx_items c w))"
    unfolding lawful_keychain_def by (elim conjE)
  from this [rule_format, of w q] assms(2,3) show ?thesis by blast
qed

section \<open>The operations over it\<close>

text \<open>
  A keychain file to be opened with Touch ID: the user authenticates; the login keychain holds the
  file's password, or it holds none and the user, asked by a function or at the terminal, enters it; the
  password unlocks the file. None of this changes the items of the service in the file.
\<close>

definition undisturbed :: "'w keychain_context \<Rightarrow> 'w \<Rightarrow> 'w \<Rightarrow> bool" where
  "undisturbed c w w' \<longleftrightarrow> kx_exists c w' = kx_exists c w \<and> kx_items c w' = kx_items c w"

definition passphrase_query :: "'w keychain \<Rightarrow> kitem" where
  "passphrase_query k = (account_query (touchIDService k) (touchIDAccount k))
     \<lparr>ki_Label := Some (''Passphrase for '' @ k_path k), ki_MatchLimit := Some MatchLimitOne,
      ki_ReturnData := Some True\<rparr>"

definition passphrase_item :: "'w keychain \<Rightarrow> string \<Rightarrow> kitem" where
  "passphrase_item k pw = (account_query (touchIDService k) (touchIDAccount k))
     \<lparr>ki_Label := Some (''Passphrase for '' @ k_path k), ki_Data := Some pw,
      ki_Synchronizable := Some SynchronizableNo, ki_Accessible := Some AccessibleWhenUnlocked\<rparr>"

definition asked_passphrase :: "'w keychain_api \<Rightarrow> 'w keychain \<Rightarrow> ('w, string) call" where
  "asked_passphrase api k =
     (case k_passwordFunc k of
        None \<Rightarrow> term_ReadPassword api
      | Some f \<Rightarrow> f (''Enter passphrase for '' @ go_quote (k_path k)))"

definition passphrase_stored :: "'w keychain_context \<Rightarrow> 'w keychain \<Rightarrow> 'w \<Rightarrow> bool" where
  "passphrase_stored c k w \<longleftrightarrow>
     (\<exists>r w1 w2. kc_QueryItem (kx_api c) (passphrase_query k) w = (([r], None), w1) \<and>
        kc_UnlockAtPath (kx_api c) (kx_path c) (bytes_of (qr_Data r)) w1 = (Inr (), w2) \<and> undisturbed c w w2)"

definition passphrase_entered :: "'w keychain_context \<Rightarrow> 'w keychain \<Rightarrow> 'w \<Rightarrow> bool" where
  "passphrase_entered c k w \<longleftrightarrow>
     (\<exists>pw w1 w2 w3 w4 w5. kc_QueryItem (kx_api c) (passphrase_query k) w = (([], None), w1) \<and>
        asked_passphrase (kx_api c) k w1 = (Inr pw, w2) \<and>
        kc_LockAtPath (kx_api c) (kx_path c) w2 = (Inr (), w3) \<and>
        kc_UnlockAtPath (kx_api c) (kx_path c) pw w3 = (Inr (), w4) \<and>
        kc_AddItem (kx_api c) (passphrase_item k pw) w4 = (Inr (), w5) \<and> undisturbed c w w5)"

definition touch_id_opens :: "'w keychain_context \<Rightarrow> 'w keychain \<Rightarrow> bool" where
  "touch_id_opens c k \<longleftrightarrow>
     (\<forall>w. \<exists>w1. touchid_Authenticate (kx_api c) (''unlock '' @ kx_path c) w = (Inr (), w1) \<and>
        undisturbed c w w1 \<and> (passphrase_stored c k w1 \<or> passphrase_entered c k w1))"

text \<open>
  Keyring objects for the keychain: the password of a new keychain is asked from the user by the system
  or by a function that answers, and a keychain that is to be opened with Touch ID, and has not been,
  can be.
\<close>

definition keychain_ok :: "'w keychain_context \<Rightarrow> 'w keychain \<Rightarrow> bool" where
  "keychain_ok c k \<longleftrightarrow> k_path k = kx_path c \<and> k_service k = kx_service c \<and>
     (useTouchID k \<and> \<not> isTouchIDAuthenticated k \<and> k_path k \<noteq> [] \<longrightarrow> touch_id_opens c k) \<and>
     (\<forall>f. k_passwordFunc k = Some f \<longrightarrow> (\<forall>m w. \<exists>pw w'. f m w = (Inr pw, w') \<and> undisturbed c w w'))"

text \<open>
  The items the keyring answers for: they have a key and data, and are not synchronized, because the
  keyring does not synchronize or because the item says so. An item that \<open>Set\<close> stores as one to be
  synchronized is not found by the queries of the keyring, which do not ask for such items.
\<close>

definition keychain_okitem :: "bool \<Rightarrow> Item \<Rightarrow> bool" where
  "keychain_okitem synchronizing i \<longleftrightarrow> Key i \<noteq> [] \<and> Data i \<noteq> None \<and>
     (synchronizing \<longrightarrow> KeychainNotSynchronizable i)"

lemma keychain_Get_lawful:
  assumes "lawful_keychain c" "keychain_ok c k" "key \<noteq> []"
  shows "\<exists>r. keychain_Get (kx_api c) key (k, w) = (r, (k, w)) \<and>
    (case kx_items c w key of None \<Rightarrow> r = Inl ErrKeyNotFound
     | Some d \<Rightarrow> \<exists>i. r = Inr i \<and> key_data i = (key, d))"
proof -
  let ?q = "(account_query (k_service k) key)
    \<lparr>ki_MatchLimit := Some MatchLimitOne, ki_ReturnAttributes := Some True, ki_ReturnData := Some True,
     ki_MatchSearchList := search_list c\<rparr>"
  have q: "finds_account c key ?q" "ki_ReturnData ?q = Some True"
    using assms(2) by (simp_all add: finds_account_def account_query_def NewItem_def keychain_ok_def)
  have run: "keychain_Get (kx_api c) key (k, w) =
      (case kc_QueryItem (kx_api c) ?q w of (answer, w) \<Rightarrow> (found_item key answer, (k, w)))"
    using assms(2) by (simp add: keychain_Get_def keychain_ok_def search_list_def account_query_def NewItem_def)
  show ?thesis
  proof (cases "kx_items c w key")
    case None
    from query_laws(1) [OF assms(1,3) q(1) None] run None show ?thesis by (auto simp: found_item_def)
  next
    case (Some d)
    from query_laws(2) [OF assms(1,3) q(1) Some] q(2) run Some show ?thesis
      by (auto simp: found_item_def key_data_def)
  qed
qed

lemma setupTouchID_eq:
  "setupTouchID api k =
     go_try (go_tryE (textf_err (if k_passwordFunc k = None then ''failed to read password: %v''
         else ''failed to get password: %v'')) (asked_passphrase api k) go_return) (\<lambda>passphrase.
     go_tryE (textf_err ''failed to lock keychain: %v'') (kc_LockAtPath api (k_path k)) (\<lambda>_.
     go_tryE (textf_err ''failed to unlock keychain: %v'') (kc_UnlockAtPath api (k_path k) passphrase) (\<lambda>_.
     go_tryE (textf_err ''failed to add item to keychain: %v'') (kc_AddItem api (passphrase_item k passphrase))
       (\<lambda>_. go_return passphrase))))"
  by (simp add: setupTouchID_def asked_passphrase_def passphrase_item_def Let_def split: option.split)

lemma openWithTouchID_lawful:
  assumes "touch_id_opens c k" "k_path k = kx_path c" "\<not> isTouchIDAuthenticated k"
  shows "\<exists>w'. openWithTouchID (kx_api c) (k, w) =
      (Inr (kx_path c), (k\<lparr>isTouchIDAuthenticated := True\<rparr>, w')) \<and> undisturbed c w w'"
proof -
  let ?k = "k\<lparr>isTouchIDAuthenticated := True\<rparr>"
  from assms(1) obtain w1 where
    1: "touchid_Authenticate (kx_api c) (''unlock '' @ kx_path c) w = (Inr (), w1)" "undisturbed c w w1"
      "passphrase_stored c k w1 \<or> passphrase_entered c k w1" by (auto simp: touch_id_opens_def)
  have names: "passphrase_item ?k = passphrase_item k"
    "asked_passphrase (kx_api c) ?k = asked_passphrase (kx_api c) k"
    by (simp add: passphrase_item_def fun_eq_iff)
      (cases "k_passwordFunc k"; simp add: asked_passphrase_def)
  from 1(3) show ?thesis
  proof
    assume "passphrase_stored c k w1"
    then show ?thesis
      using assms(2,3) 1(1,2) unfolding passphrase_stored_def passphrase_query_def
      by (auto simp: openWithTouchID_def on_world_def call_simps query_or_def undisturbed_def Let_def)
  next
    assume "passphrase_entered c k w1"
    then obtain pw w2 w3 w4 w5 w6 where
      query: "kc_QueryItem (kx_api c) (passphrase_query k) w1 = (([], None), w2)" and
      steps: "asked_passphrase (kx_api c) k w2 = (Inr pw, w3)"
        "kc_LockAtPath (kx_api c) (kx_path c) w3 = (Inr (), w4)"
        "kc_UnlockAtPath (kx_api c) (kx_path c) pw w4 = (Inr (), w5)"
        "kc_AddItem (kx_api c) (passphrase_item k pw) w5 = (Inr (), w6)" and
      same: "undisturbed c w1 w6" unfolding passphrase_entered_def by blast
    have "setupTouchID (kx_api c) ?k w2 = (Inr pw, w6)"
      using steps assms(2) names by (simp add: setupTouchID_eq call_simps)
    then show ?thesis
      using assms(2,3) 1(1,2) query same unfolding passphrase_query_def
      by (auto simp: openWithTouchID_def on_world_def call_simps query_or_def undisturbed_def Let_def)
  qed
qed

text \<open>
  \<open>createOrOpen\<close> succeeds, and leaves the keyring as it is, but for the note that the user has
  authenticated.
\<close>

lemma keychain_ok_authenticated:
  "keychain_ok c k \<Longrightarrow> keychain_ok c (k\<lparr>isTouchIDAuthenticated := True\<rparr>)"
  by (simp add: keychain_ok_def)

lemma createOrOpen_lawful:
  assumes "lawful_keychain c" "keychain_ok c k" "kx_path c \<noteq> []"
  shows "\<exists>k' w'. createOrOpen (kx_api c) (k, w) = (Inr (kx_path c), (k', w')) \<and> kx_exists c w' \<and>
    kx_items c w' = kx_items c w \<and> keychain_ok c k' \<and> isSynchronizable k' = isSynchronizable k"
proof (cases "kx_exists c w")
  case True
  note stat = keychain_laws(3) [OF assms(1,3), of w]
  have path: "k_path k = kx_path c" using assms(2) by (simp add: keychain_ok_def)
  show ?thesis
  proof (cases "useTouchID k \<and> \<not> isTouchIDAuthenticated k")
    case touch: True
    with assms(2,3) have "touch_id_opens c k" by (simp add: keychain_ok_def)
    from openWithTouchID_lawful [OF this path, of w] touch stat True path keychain_ok_authenticated [OF assms(2)]
    show ?thesis by (auto simp: createOrOpen_def undisturbed_def)
  next
    case False
    with stat True path assms(2) show ?thesis by (auto simp: createOrOpen_def openWithTouchID_def)
  qed
next
  case False
  have none: "kx_items c w = Map.empty" using keychain_laws(1) [OF assms(1) False] .
  have stat: "kc_Status (kx_api c) (k_path k) w = (Inl ErrorNoSuchKeychain, w)" "k_path k = kx_path c"
    using assms(2) keychain_laws(3) [OF assms(1,3), of w] False by (simp_all add: keychain_ok_def)
  show ?thesis
  proof (cases "k_passwordFunc k")
    case None
    from create_laws(2) [OF assms(1,3) False] stat none None assms(2) show ?thesis
      by (auto simp: createOrOpen_def on_world_def)
  next
    case (Some f)
    with assms(2) obtain pw w1 where
      w1: "f ''Enter passphrase for keychain'' w = (Inr pw, w1)" "kx_exists c w1 = kx_exists c w"
      unfolding keychain_ok_def undisturbed_def by blast
    then have "\<not> kx_exists c w1" using False by simp
    from create_laws(1) [OF assms(1,3) this, of pw] stat none Some w1(1) assms(2) show ?thesis
      by (auto simp: createOrOpen_def on_world_def call_simps)
  qed
qed

lemma updateItem_lawful:
  assumes "lawful_keychain c" "keychain_ok c k" "a \<noteq> []" "kx_items c w a \<noteq> None"
    and "stores_account c a d i"
  shows "\<exists>w'. updateItem (kx_api c) k (kx_path c) i a w = (Inr (), w') \<and> kx_exists c w' \<and>
    kx_items c w' = (kx_items c w)(a \<mapsto> d)"
proof -
  let ?q = "(account_query (k_service k) a)
    \<lparr>ki_MatchLimit := Some MatchLimitOne, ki_ReturnAttributes := Some True, ki_MatchSearchList := search_list c\<rparr>"
  have q: "finds_account c a ?q"
    using assms(2) by (simp add: finds_account_def account_query_def NewItem_def keychain_ok_def)
  obtain d' where "kx_items c w a = Some d'" using assms(4) by blast
  from query_laws(2) [OF assms(1,3) q this] obtain r where
    "query_or h (kx_api c) ?q w = (Inr [r], w)" for h by (auto simp: query_or_def)
  moreover have "stores_account c a d (i\<lparr>ki_Access := None\<rparr>)" "ki_Access (i\<lparr>ki_Access := None\<rparr>) = None"
    using assms(5) by (simp_all add: stores_account_def)
  from update_law [OF assms(1,3,4) q this] obtain w' where
    "kc_UpdateItem (kx_api c) ?q (i\<lparr>ki_Access := None\<rparr>) w = (Inr (), w')" "kx_exists c w'"
    "kx_items c w' = (kx_items c w)(a \<mapsto> d)" by blast
  moreover have "(if k_path k \<noteq> [] then (account_query (k_service k) a)
      \<lparr>ki_MatchLimit := Some MatchLimitOne, ki_ReturnAttributes := Some True, ki_MatchSearchList := [kx_path c]\<rparr>
    else (account_query (k_service k) a)
      \<lparr>ki_MatchLimit := Some MatchLimitOne, ki_ReturnAttributes := Some True\<rparr>) = ?q"
    using assms(2) by (simp add: search_list_def keychain_ok_def account_query_def NewItem_def)
  ultimately show ?thesis
    by (intro exI [of _ w']) (simp add: updateItem_def call_simps Let_def)
qed

lemma keychain_Set_lawful:
  assumes "lawful_keychain c" "keychain_ok c k" "keychain_okitem (isSynchronizable k) i" "Data i = Some d"
  shows "\<exists>k' w'. keychain_Set (kx_api c) i (k, w) = (Inr (), (k', w')) \<and> keychain_ok c k' \<and>
    isSynchronizable k' = isSynchronizable k \<and> kx_items c w' = (kx_items c w)(Key i \<mapsto> d)"
proof -
  have path: "k_path k = kx_path c" using assms(2) by (simp add: keychain_ok_def)
  have key: "Key i \<noteq> []" using assms(3) by (simp add: keychain_okitem_def)
  obtain k1 w1 where w1: "(if k_path k \<noteq> [] then createOrOpen (kx_api c) (k, w) else (Inr [], (k, w))) =
      (Inr (kx_path c), (k1, w1))" "kx_exists c w1" "kx_items c w1 = kx_items c w"
    and k1: "keychain_ok c k1" "isSynchronizable k1 = isSynchronizable k"
  proof (cases "kx_path c = []")
    case True
    then show thesis using that [of k w] keychain_laws(2) [OF assms(1) True, of w] path assms(2) by simp
  next
    case False
    from createOrOpen_lawful [OF assms(1,2) False, of w] False path show thesis using that by metis
  qed
  have i: "stores_account c (Key i) d (set_item k1 (kx_path c) i)"
    using assms(3,4) k1 by (simp add: stores_account_def set_item_def account_query_def NewItem_def
        keychain_ok_def keychain_okitem_def Let_def)
  show ?thesis
  proof (cases "kx_items c w1 (Key i) = None")
    case True
    from add_laws(1) [OF assms(1) key w1(2) i True] w1 k1 show ?thesis
      by (auto simp: keychain_Set_def call_simps)
  next
    case False
    from updateItem_lawful [OF assms(1) k1(1) key False i] add_laws(2) [OF assms(1) key w1(2) i False] w1 k1
    show ?thesis by (auto simp: keychain_Set_def call_simps on_world_def)
  qed
qed

lemma keychain_Remove_lawful:
  assumes "lawful_keychain c" "keychain_ok c k" "key \<noteq> []"
  shows "\<exists>w'. keychain_Remove (kx_api c) key (k, w) =
      (if kx_items c w key = None then Inl ErrKeyNotFound else Inr (), (k, w')) \<and>
    kx_items c w' = (kx_items c w)(key := None)"
proof (cases "kx_exists c w")
  case False
  then have "kx_path c \<noteq> []" "kx_items c w = Map.empty"
    using keychain_laws(1,2) [OF assms(1), of w] by auto
  with False keychain_laws(3) [OF assms(1), of w] assms(2) show ?thesis
    by (intro exI [of _ w]) (simp add: keychain_Remove_def keychain_ok_def on_world_def call_simps Let_def)
next
  case True
  let ?i = "(account_query (k_service k) key)\<lparr>ki_MatchSearchList := search_list c\<rparr>"
  have i: "deletes_account c key ?i"
    using assms(2) by (simp add: deletes_account_def account_query_def NewItem_def keychain_ok_def)
  have run: "keychain_Remove (kx_api c) key (k, w) = on_world
      (go_tryE (\<lambda>err. if err = ErrorItemNotFound then ErrKeyNotFound else err) (kc_DeleteItem (kx_api c) ?i)
        go_return) (k, w)"
    using assms(2) True keychain_laws(3) [OF assms(1), of w]
    by (cases "kx_path c = []")
      (simp_all add: keychain_Remove_def keychain_ok_def on_world_def call_simps Let_def search_list_def
        account_query_def NewItem_def)
  show ?thesis
  proof (cases "kx_items c w key = None")
    case none: True
    with delete_laws(1) [OF assms(1,3) True i] show ?thesis
      by (intro exI [of _ w]) (simp add: run on_world_def call_simps fun_upd_idem)
  next
    case False
    with delete_laws(2) [OF assms(1,3) True i] show ?thesis
      by (auto simp: run on_world_def call_simps)
  qed
qed

lemma keychain_Keys_lawful:
  assumes "lawful_keychain c" "keychain_ok c k"
  shows "\<exists>ks. keychain_Keys (kx_api c) (k, w) = (Inr ks, (k, w)) \<and> distinct ks \<and> set ks = dom (kx_items c w)"
proof (cases "kx_exists c w")
  case False
  then have "kx_path c \<noteq> []" "kx_items c w = Map.empty"
    using keychain_laws(1,2) [OF assms(1), of w] by auto
  with False keychain_laws(3) [OF assms(1), of w] assms(2) show ?thesis
    by (simp add: keychain_Keys_def keychain_ok_def Let_def)
next
  case True
  let ?q = "NewItem\<lparr>ki_SecClass := Some SecClassGenericPassword, ki_Service := Some (k_service k),
    ki_MatchLimit := Some MatchLimitAll, ki_ReturnAttributes := Some True, ki_MatchSearchList := search_list c\<rparr>"
  have q: "finds_all c ?q" using assms(2) by (simp add: finds_all_def NewItem_def keychain_ok_def)
  have "keychain_Keys (kx_api c) (k, w) = on_world
      (go_try (query_or (\<lambda>err. err) (kx_api c) ?q) (\<lambda>results. go_return (map qr_Account results))) (k, w)"
    using assms(2) True keychain_laws(3) [OF assms(1), of w]
    by (cases "kx_path c = []") (simp_all add: keychain_Keys_def keychain_ok_def Let_def search_list_def NewItem_def)
  with list_law [OF assms(1) True q] show ?thesis by (auto simp: on_world_def call_simps query_or_def)
qed

section \<open>The iOS operations over it\<close>

definition ios_ok :: "'w keychain_context \<Rightarrow> 'w ios_keychain \<Rightarrow> bool" where
  "ios_ok c k \<longleftrightarrow> kx_path c = [] \<and> ik_service k = kx_service c"

lemma ios_Get_lawful:
  assumes "lawful_keychain c" "ios_ok c k" "key \<noteq> []"
  shows "\<exists>r. ios_Get (kx_api c) k key w = (r, w) \<and>
    (case kx_items c w key of None \<Rightarrow> r = Inl ErrKeyNotFound
     | Some d \<Rightarrow> \<exists>i. r = Inr i \<and> key_data i = (key, d))"
proof -
  let ?q = "(account_query (ik_service k) key)
    \<lparr>ki_MatchLimit := Some MatchLimitOne, ki_ReturnAttributes := Some True, ki_ReturnData := Some True\<rparr>"
  have q: "finds_account c key ?q" "ki_ReturnData ?q = Some True"
    using assms(2) by (simp_all add: finds_account_def account_query_def NewItem_def ios_ok_def search_list_def)
  show ?thesis
  proof (cases "kx_items c w key")
    case None
    from query_laws(1) [OF assms(1,3) q(1) None] None show ?thesis by (auto simp: found_item_def ios_Get_def)
  next
    case (Some d)
    from query_laws(2) [OF assms(1,3) q(1) Some] q(2) Some show ?thesis
      by (auto simp: found_item_def key_data_def ios_Get_def)
  qed
qed

lemma ios_Set_lawful:
  assumes "lawful_keychain c" "ios_ok c k" "keychain_okitem (ik_isSynchronizable k) i" "Data i = Some d"
  shows "\<exists>w'. ios_Set (kx_api c) k i w = (Inr (), w') \<and> kx_items c w' = (kx_items c w)(Key i \<mapsto> d)"
proof -
  have key: "Key i \<noteq> []" using assms(3) by (simp add: keychain_okitem_def)
  have ex: "kx_exists c w" using keychain_laws(2) [OF assms(1)] assms(2) by (simp add: ios_ok_def)
  have i: "stores_account c (Key i) d (ios_set_item k i)" "ki_Access (ios_set_item k i) = None"
    using assms(2-4) by (simp_all add: stores_account_def ios_set_item_def account_query_def NewItem_def ios_ok_def
        keychain_okitem_def Let_def)
  show ?thesis
  proof (cases "kx_items c w (Key i)")
    case None
    from add_laws(1) [OF assms(1) key ex i(1) None] show ?thesis by (auto simp: ios_Set_def)
  next
    case (Some d')
    then have some: "kx_items c w (Key i) \<noteq> None" by simp
    let ?q = "(account_query (ik_service k) (Key i))
      \<lparr>ki_MatchLimit := Some MatchLimitOne, ki_ReturnAttributes := Some True\<rparr>"
    have q: "finds_account c (Key i) ?q"
      using assms(2) by (simp add: finds_account_def account_query_def NewItem_def ios_ok_def search_list_def)
    from query_laws(2) [OF assms(1) key q Some] obtain r where
      "kc_QueryItem (kx_api c) ?q w = (([r], None), w)" by blast
    moreover from update_law [OF assms(1) key some q i] obtain w' where
      "kc_UpdateItem (kx_api c) ?q (ios_set_item k i) w = (Inr (), w')"
      "kx_items c w' = (kx_items c w)(Key i \<mapsto> d)" by blast
    ultimately show ?thesis using add_laws(2) [OF assms(1) key ex i(1) some]
      by (intro exI [of _ w']) (simp add: ios_Set_def ios_updateItem_def call_simps query_or_def Let_def)
  qed
qed

lemma ios_Remove_lawful:
  assumes "lawful_keychain c" "ios_ok c k" "key \<noteq> []"
  shows "\<exists>w'. ios_Remove (kx_api c) k key w =
      (if kx_items c w key = None then Inl ErrKeyNotFound else Inr (), w') \<and>
    kx_items c w' = (kx_items c w)(key := None)"
proof -
  have ex: "kx_exists c w" using keychain_laws(2) [OF assms(1)] assms(2) by (simp add: ios_ok_def)
  have i: "deletes_account c key (account_query (ik_service k) key)"
    using assms(2) by (simp add: deletes_account_def account_query_def NewItem_def ios_ok_def search_list_def)
  show ?thesis
  proof (cases "kx_items c w key = None")
    case True
    with delete_laws(1) [OF assms(1,3) ex i] show ?thesis
      by (intro exI [of _ w]) (simp add: ios_Remove_def call_simps fun_upd_idem)
  next
    case False
    with delete_laws(2) [OF assms(1,3) ex i] show ?thesis by (auto simp: ios_Remove_def call_simps)
  qed
qed

lemma ios_Keys_lawful:
  assumes "lawful_keychain c" "ios_ok c k"
  shows "\<exists>ks. ios_Keys (kx_api c) k w = (Inr ks, w) \<and> distinct ks \<and> set ks = dom (kx_items c w)"
proof -
  have ex: "kx_exists c w" using keychain_laws(2) [OF assms(1)] assms(2) by (simp add: ios_ok_def)
  have q: "finds_all c (NewItem\<lparr>ki_SecClass := Some SecClassGenericPassword, ki_Service := Some (ik_service k),
      ki_MatchLimit := Some MatchLimitAll, ki_ReturnAttributes := Some True\<rparr>)"
    using assms(2) by (simp add: finds_all_def NewItem_def ios_ok_def search_list_def)
  from list_law [OF assms(1) ex q] show ?thesis by (auto simp: ios_Keys_def call_simps query_or_def)
qed

section \<open>The keyring contract\<close>

definition keychain_inv :: "'w keychain_context \<Rightarrow> bool \<Rightarrow> 'w keychain_state \<Rightarrow> bool" where
  "keychain_inv c synchronizing s \<longleftrightarrow> lawful_keychain c \<and> keychain_ok c (fst s) \<and>
     isSynchronizable (fst s) = synchronizing"

text \<open>The items as the keychain holds them: their key and their bytes.\<close>

definition account_items :: "'w keychain_context \<Rightarrow> 'w \<Rightarrow> string \<Rightarrow> (string \<times> bytes) option" where
  "account_items c w key = map_option (\<lambda>d. (key, d)) (kx_items c w key)"

lemma account_items_upd:
  "kx_items c w' = (kx_items c w)(key \<mapsto> d) \<Longrightarrow> account_items c w' = (account_items c w)(key \<mapsto> (key, d))"
  "kx_items c w' = (kx_items c w)(key := None) \<Longrightarrow> account_items c w' = (account_items c w)(key := None)"
  by (auto simp: account_items_def fun_eq_iff)

lemma dom_account_items: "dom (account_items c w) = dom (kx_items c w)"
  by (auto simp: account_items_def dom_def)

interpretation macos: keyring_reports_missing "keychain_inv c b" "\<lambda>s. account_items c (snd s)"
  "\<lambda>key. key \<noteq> []" "keychain_okitem b" key_data
  "keychain_Get (kx_api c)" "keychain_Set (kx_api c)" "keychain_Remove (kx_api c)" "keychain_Keys (kx_api c)"
  for c b
proof (unfold_locales, goal_cases)
  case (1 i)
  then show ?case by (simp add: keychain_okitem_def)
next
  case (2 s key v)
  then obtain d where d: "kx_items c (snd s) key = Some d" "v = (key, d)" by (auto simp: account_items_def)
  from 2(1) have law: "lawful_keychain c" "keychain_ok c (fst s)" by (simp_all add: keychain_inv_def)
  from keychain_Get_lawful [OF law 2(2), of "snd s"] d 2(1) show ?case by (cases s) auto
next
  case (3 s key)
  then have none: "kx_items c (snd s) key = None" by (simp add: account_items_def)
  from 3(1) have law: "lawful_keychain c" "keychain_ok c (fst s)" by (simp_all add: keychain_inv_def)
  from keychain_Get_lawful [OF law 3(2), of "snd s"] none 3(1) show ?case by (cases s) auto
next
  case (4 s i)
  then obtain d where d: "Data i = Some d" by (auto simp: keychain_okitem_def)
  obtain k w where s: "s = (k, w)" by (cases s)
  from 4 have law: "lawful_keychain c" "keychain_ok c k" "keychain_okitem (isSynchronizable k) i"
    "isSynchronizable k = b" by (simp_all add: keychain_inv_def s)
  from keychain_Set_lawful [OF law(1-3) d, of w] obtain k' w' where
    "keychain_Set (kx_api c) i (k, w) = (Inr (), (k', w'))" "kx_items c w' = (kx_items c w)(Key i \<mapsto> d)"
    "keychain_ok c k'" "isSynchronizable k' = b" using law(4) by blast
  with account_items_upd(1) [OF this(2)] d law(1) show ?case
    by (intro exI [of _ "(k', w')"]) (simp add: s keychain_inv_def key_data_def)
next
  case (5 s key)
  obtain k w where s: "s = (k, w)" by (cases s)
  from 5(1) have law: "lawful_keychain c" "keychain_ok c k" "isSynchronizable k = b"
    by (simp_all add: keychain_inv_def s)
  from keychain_Remove_lawful [OF law(1,2) 5(2), of w] obtain w' where
    "keychain_Remove (kx_api c) key (k, w) =
      (if kx_items c w key = None then Inl ErrKeyNotFound else Inr (), (k, w'))"
    "kx_items c w' = (kx_items c w)(key := None)" by blast
  with account_items_upd(2) [OF this(2)] law show ?case
    by (auto simp: s keychain_inv_def account_items_def)
next
  case (6 s)
  obtain k w where s: "s = (k, w)" by (cases s)
  from 6 have law: "lawful_keychain c" "keychain_ok c k" by (simp_all add: keychain_inv_def s)
  from keychain_Keys_lawful [OF law, of w] 6 show ?case by (auto simp: s dom_account_items)
next
  case (7 s key)
  obtain k w where s: "s = (k, w)" by (cases s)
  from 7(1) have law: "lawful_keychain c" "keychain_ok c k" by (simp_all add: keychain_inv_def s)
  from 7(3) have "kx_items c w key = None" by (simp add: account_items_def s)
  with keychain_Remove_lawful [OF law 7(2), of w] show ?case by (auto simp: s)
qed

definition ios_inv :: "'w keychain_context \<Rightarrow> 'w ios_keychain \<Rightarrow> 'w \<Rightarrow> bool" where
  "ios_inv c k w \<longleftrightarrow> lawful_keychain c \<and> ios_ok c k"

interpretation ios: keyring_reports_missing "ios_inv c k" "account_items c"
  "\<lambda>key. key \<noteq> []" "keychain_okitem (ik_isSynchronizable k)" key_data
  "ios_Get (kx_api c) k" "ios_Set (kx_api c) k" "ios_Remove (kx_api c) k" "ios_Keys (kx_api c) k"
  for c k
proof (unfold_locales, goal_cases)
  case (1 i)
  then show ?case by (simp add: keychain_okitem_def)
next
  case (2 w key v)
  then obtain d where d: "kx_items c w key = Some d" "v = (key, d)" by (auto simp: account_items_def)
  from 2(1) have law: "lawful_keychain c" "ios_ok c k" by (simp_all add: ios_inv_def)
  from ios_Get_lawful [OF law 2(2), of w] d 2(1) show ?case by auto
next
  case (3 w key)
  then have none: "kx_items c w key = None" by (simp add: account_items_def)
  from 3(1) have law: "lawful_keychain c" "ios_ok c k" by (simp_all add: ios_inv_def)
  from ios_Get_lawful [OF law 3(2), of w] none 3(1) show ?case by auto
next
  case (4 w i)
  then obtain d where d: "Data i = Some d" by (auto simp: keychain_okitem_def)
  from 4(1) have law: "lawful_keychain c" "ios_ok c k" by (simp_all add: ios_inv_def)
  from ios_Set_lawful [OF law 4(2) d, of w] obtain w' where
    "ios_Set (kx_api c) k i w = (Inr (), w')" "kx_items c w' = (kx_items c w)(Key i \<mapsto> d)" by blast
  with account_items_upd(1) [OF this(2)] d law show ?case
    by (intro exI [of _ w']) (simp add: ios_inv_def key_data_def)
next
  case (5 w key)
  from 5(1) have law: "lawful_keychain c" "ios_ok c k" by (simp_all add: ios_inv_def)
  from ios_Remove_lawful [OF law 5(2), of w] obtain w' where
    "ios_Remove (kx_api c) k key w = (if kx_items c w key = None then Inl ErrKeyNotFound else Inr (), w')"
    "kx_items c w' = (kx_items c w)(key := None)" by blast
  with account_items_upd(2) [OF this(2)] law show ?case
    by (auto simp: ios_inv_def account_items_def)
next
  case (6 w)
  then have law: "lawful_keychain c" "ios_ok c k" by (simp_all add: ios_inv_def)
  from ios_Keys_lawful [OF law, of w] 6 show ?case by (auto simp: dom_account_items)
next
  case (7 w key)
  from 7(1) have law: "lawful_keychain c" "ios_ok c k" by (simp_all add: ios_inv_def)
  from 7(3) have "kx_items c w key = None" by (simp add: account_items_def)
  with ios_Remove_lawful [OF law 7(2), of w] show ?case by auto
qed

section \<open>A keychain in memory\<close>

text \<open>Whether the keychain file exists, and its items by account; without a path it always does.\<close>

type_synonym mem_keychain = "bool \<times> (string \<times> bytes) list"

definition mk_result :: "string \<times> bytes \<Rightarrow> QueryResult" where
  "mk_result = (\<lambda>(a, d). \<lparr>qr_Account = a, qr_Label = [], qr_Description = [], qr_Data = Some d,
     qr_ModificationDate = 1\<rparr>)"

definition mem_keychain_items :: "string \<Rightarrow> mem_keychain \<Rightarrow> string \<rightharpoonup> bytes" where
  "mem_keychain_items p w = (if p = [] \<or> fst w then map_of (snd w) else Map.empty)"

text \<open>
  A query with a label asks the login keychain, which holds the password of the file, under any account.
\<close>

definition mem_keychain_api :: "string \<Rightarrow> mem_keychain keychain_api" where
  "mem_keychain_api p =
     \<lparr>kc_QueryItem = (\<lambda>q w.
        (if ki_Label q \<noteq> None then ([mk_result (the (ki_Account q), ''pw'')], None) else case ki_Account q of
           None \<Rightarrow> (map (\<lambda>a. mk_result (a, the (map_of (snd w) a))) (remdups (map fst (snd w))), None)
         | Some a \<Rightarrow> (case mem_keychain_items p w a of None \<Rightarrow> ([], None) | Some d \<Rightarrow> ([mk_result (a, d)], None)), w)),
      kc_AddItem = (\<lambda>i w. (let a = the (ki_Account i) in
        if map_of (snd w) a = None then (Inr (), (fst w, AList.update a (the (ki_Data i)) (snd w)))
        else (Inl ErrorDuplicateItem, w))),
      kc_UpdateItem = (\<lambda>q i w. (Inr (), (fst w, AList.update (the (ki_Account i)) (the (ki_Data i)) (snd w)))),
      kc_DeleteItem = (\<lambda>i w. (let a = the (ki_Account i) in
        if map_of (snd w) a = None then (Inl ErrorItemNotFound, w) else (Inr (), (fst w, AList.delete a (snd w))))),
      kc_Status = (\<lambda>p w. (if fst w then Inr () else Inl ErrorNoSuchKeychain, w)),
      kc_NewKeychain = (\<lambda>p pw w. (Inr p, (True, []))),
      kc_NewKeychainWithPrompt = (\<lambda>p w. (Inr p, (True, []))),
      kc_LockAtPath = (\<lambda>p. go_return ()),
      kc_UnlockAtPath = (\<lambda>p pw. if pw = ''pw'' then go_return () else go_fail (Foreign ''errSecAuthFailed'')),
      touchid_Authenticate = (\<lambda>r. go_return ()), term_ReadPassword = go_return ''pw''\<rparr>"

definition mem_keychain_context :: "string \<Rightarrow> mem_keychain keychain_context" where
  "mem_keychain_context p =
     \<lparr>kx_api = mem_keychain_api p, kx_path = p, kx_service = ''svc'',
      kx_exists = (\<lambda>w. p = [] \<or> fst w), kx_items = mem_keychain_items p\<rparr>"

lemma mem_keychain_lawful: "lawful_keychain (mem_keychain_context p)"
  unfolding lawful_keychain_def
proof (intro conjI allI impI, goal_cases)
  case (7 w a q)
  then show ?case
    by (auto simp: mem_keychain_context_def mem_keychain_api_def finds_account_def mk_result_def split: option.split)
next
  case (8 w a d i)
  then show ?case
    by (auto simp: mem_keychain_context_def mem_keychain_api_def stores_account_def mem_keychain_items_def
        update_conv' Let_def)
next
  case (9 w a d q i)
  then show ?case
    by (auto simp: mem_keychain_context_def mem_keychain_api_def stores_account_def mem_keychain_items_def
        update_conv' split: if_splits)
next
  case (10 w a i)
  then show ?case
    by (auto simp: mem_keychain_context_def mem_keychain_api_def deletes_account_def mem_keychain_items_def
        delete_conv' Let_def)
next
  case (11 w q)
  have "map qr_Account (map (\<lambda>a. mk_result (a, the (map_of (snd w) a))) (remdups (map fst (snd w)))) =
      remdups (map fst (snd w))"
    by (simp add: mk_result_def comp_def)
  moreover have "qr_Account ` (\<lambda>a. mk_result (a, the (map_of (snd w) a))) ` dom (map_of (snd w)) = dom (map_of (snd w))"
    by (simp add: mk_result_def image_image)
  moreover have "fst ` set (snd w) = dom (map_of (snd w))" by (simp add: dom_map_of_conv_image_fst)
  moreover have "ki_Account q = None" "ki_Label q = None" "p = [] \<or> fst w"
    using 11 by (simp_all add: finds_all_def mem_keychain_context_def)
  ultimately show ?case
    by (simp add: mem_keychain_context_def mem_keychain_api_def mem_keychain_items_def)
qed (auto simp: mem_keychain_context_def mem_keychain_api_def mem_keychain_items_def)

section \<open>Properties\<close>

definition keychain_step :: "'w keychain_api \<Rightarrow> kop \<Rightarrow> 'w keychain_state \<Rightarrow> 'w keychain_state" where
  "keychain_step api = step_kop (keychain_Get api) (keychain_Set api) (keychain_Remove api) (keychain_Keys api)"

definition ios_step :: "'w keychain_api \<Rightarrow> 'w ios_keychain \<Rightarrow> kop \<Rightarrow> 'w \<Rightarrow> 'w" where
  "ios_step api k = step_kop (ios_Get api k) (ios_Set api k) (ios_Remove api k) (ios_Keys api k)"

text \<open>
  \<^bold>\<open>C36.\<close> Over a keychain that behaves as documented, any sequence of calls on a macOS keychain keyring that
  stores items not to be synchronized (because the keyring does not synchronize, or because the item
  opts out) makes the items of its service the map from keys to bytes that the calls describe, whether
  the keychain file exists at first or \<open>Set\<close> has to make it: \<open>Get\<close> answers with the key and the bytes last
  set, \<open>ErrKeyNotFound\<close> when there are none, and \<open>Keys\<close> lists exactly the keys. A keyring that opens its
  file with Touch ID is covered as the opener makes it, when the user authenticates and the file's
  password is in the login keychain or is entered. Items that the keyring does synchronize are not
  covered: \<open>synchronized_item_lost\<close> shows that \<open>Get\<close> does not find them.
\<close>

theorem keychain_history:
  assumes "lawful_keychain c" and "keychain_ok c k"
    and "list_all (ok_kop (\<lambda>key. key \<noteq> []) (keychain_okitem (isSynchronizable k))) ps" and "key \<noteq> []"
  shows "get_answers key_data (fold (spec_kop key_data) ps (account_items c w) key)
      (fst (keychain_Get (kx_api c) key (fold (keychain_step (kx_api c)) ps (k, w)))) \<and>
    (\<exists>ks. fst (keychain_Keys (kx_api c) (fold (keychain_step (kx_api c)) ps (k, w))) = Inr ks \<and>
       distinct ks \<and> set ks = dom (fold (spec_kop key_data) ps (account_items c w)))"
  using macos.history [of c "isSynchronizable k" "(k, w)" ps key] assms
  unfolding keychain_step_def keychain_inv_def by simp

definition sample_keychain :: "mem_keychain keychain" where
  "sample_keychain = \<lparr>k_path = ''x.keychain'', k_service = ''svc'', k_passwordFunc = Some (FixedStringPrompt ''pw''),
     isSynchronizable = False, isAccessibleWhenUnlocked = True, isTrusted = True,
     isTouchIDAuthenticated = False, useTouchID = False, touchIDAccount = [], touchIDService = []\<rparr>"

text \<open>A keyring as the opener makes it from a configuration that asks for Touch ID and synchronization.\<close>

definition touch_Config :: "mem_keychain Config" where
  "touch_Config = zero_Config\<lparr>ServiceName := ''svc'', KeychainName := ''x'', UseBiometrics := True,
     TouchIDAccount := ''me'', TouchIDService := ''touch'', KeychainSynchronizable := True,
     KeychainPasswordFunc := Some (FixedStringPrompt ''pw'')\<rparr>"

definition touch_keychain :: "mem_keychain keychain" where
  "touch_keychain = \<lparr>k_path = ''x.keychain'', k_service = ''svc'',
     k_passwordFunc = Some (FixedStringPrompt ''pw''), isSynchronizable = True,
     isAccessibleWhenUnlocked = False, isTrusted = False, isTouchIDAuthenticated = False,
     useTouchID = True, touchIDAccount = ''me'', touchIDService = ''touch''\<rparr>"

lemma touch_keychain_opened: "keychain_opener touch_Config w = (Inr touch_keychain, w)"
  by (simp add: keychain_opener_def touch_Config_def touch_keychain_def zero_Config_def go_return_def)

lemma touch_keychain_ok: "keychain_ok (mem_keychain_context ''x.keychain'') touch_keychain"
proof -
  have "passphrase_stored (mem_keychain_context ''x.keychain'') touch_keychain w" for w
    by (cases w) (simp add: passphrase_stored_def mem_keychain_context_def mem_keychain_api_def
        passphrase_query_def account_query_def NewItem_def mk_result_def undisturbed_def go_return_def)
  then show ?thesis
    by (simp add: keychain_ok_def touch_id_opens_def touch_keychain_def mem_keychain_context_def
        mem_keychain_api_def FixedStringPrompt_def undisturbed_def go_return_def)
qed

theorem keychain_history_witness:
  "\<exists>i. fst (keychain_Get (mem_keychain_api ''x.keychain'') ''k''
      (fold (keychain_step (mem_keychain_api ''x.keychain''))
        [KSet (zero_Item\<lparr>Key := ''k'', Data := Some ''1'', KeychainNotSynchronizable := True\<rparr>),
         KSet (zero_Item\<lparr>Key := ''k'', Data := Some ''2'', KeychainNotSynchronizable := True\<rparr>)]
        (projr (fst (keychain_opener touch_Config (False, []))), (False, [])))) = Inr i \<and>
    key_data i = (''k'', ''2'')"
  using keychain_history [OF mem_keychain_lawful touch_keychain_ok, of
      "[KSet (zero_Item\<lparr>Key := ''k'', Data := Some ''1'', KeychainNotSynchronizable := True\<rparr>),
        KSet (zero_Item\<lparr>Key := ''k'', Data := Some ''2'', KeychainNotSynchronizable := True\<rparr>)]"
      "''k''" "(False, [])"]
  by (simp add: keychain_okitem_def key_data_def mem_keychain_context_def touch_keychain_opened)

text \<open>
  An item that the keyring synchronizes: a keychain that adds it leaves the items that are not
  synchronized as they are, and these are all that the query of \<open>Get\<close> looks at. So \<open>Set\<close> reports success
  and \<open>Get\<close> answers that the key is not found.
\<close>

lemma synchronized_item_lost:
  assumes "lawful_keychain c" "keychain_ok c k" "k_path k = []" "Key i \<noteq> []" "kx_items c w (Key i) = None"
    and "isSynchronizable k" "\<not> KeychainNotSynchronizable i"
    and "\<And>item. ki_Synchronizable item = Some SynchronizableYes \<Longrightarrow>
      \<exists>w'. kc_AddItem (kx_api c) item w = (Inr (), w') \<and> undisturbed c w w'"
  shows "\<exists>w'. keychain_Set (kx_api c) i (k, w) = (Inr (), (k, w')) \<and>
    keychain_Get (kx_api c) (Key i) (k, w') = (Inl ErrKeyNotFound, (k, w'))"
proof -
  have "ki_Synchronizable (set_item k [] i) = Some SynchronizableYes"
    using assms(6,7) by (simp add: set_item_def Let_def)
  from assms(8) [OF this] obtain w' where
    "kc_AddItem (kx_api c) (set_item k [] i) w = (Inr (), w')" "undisturbed c w w'" by blast
  with assms(3,5) keychain_Get_lawful [OF assms(1,2,4), of w'] show ?thesis
    by (auto simp: keychain_Set_def call_simps undisturbed_def)
qed

text \<open>
  The same for an iOS keychain keyring, over the device's keychain.
\<close>

theorem ios_history:
  assumes "lawful_keychain c" and "ios_ok c k"
    and "list_all (ok_kop (\<lambda>key. key \<noteq> []) (keychain_okitem (ik_isSynchronizable k))) ps" and "key \<noteq> []"
  shows "get_answers key_data (fold (spec_kop key_data) ps (account_items c w) key)
      (fst (ios_Get (kx_api c) k key (fold (ios_step (kx_api c) k) ps w))) \<and>
    (\<exists>ks. fst (ios_Keys (kx_api c) k (fold (ios_step (kx_api c) k) ps w)) = Inr ks \<and>
       distinct ks \<and> set ks = dom (fold (spec_kop key_data) ps (account_items c w)))"
  using ios.history [of c k w ps key] assms unfolding ios_step_def ios_inv_def by simp

definition sample_ios :: "mem_keychain ios_keychain" where
  "sample_ios = \<lparr>ik_service = ''svc'', ik_passwordFunc = None, ik_isSynchronizable = False,
     ik_isAccessibleWhenUnlocked = True\<rparr>"

theorem ios_history_witness:
  "fst (ios_Get (mem_keychain_api []) sample_ios ''k''
      (fold (ios_step (mem_keychain_api []) sample_ios)
        [KSet (zero_Item\<lparr>Key := ''k'', Data := Some ''1''\<rparr>), KRemove ''k''] (True, []))) = Inl ErrKeyNotFound"
proof -
  let ?c = "mem_keychain_context []"
  have "ios_ok ?c sample_ios" by (simp add: ios_ok_def sample_ios_def mem_keychain_context_def)
  then show ?thesis
    using ios_history [OF mem_keychain_lawful [of "[]"], of sample_ios
        "[KSet (zero_Item\<lparr>Key := ''k'', Data := Some ''1''\<rparr>), KRemove ''k'']" "''k''" "(True, [])"]
    by (simp add: keychain_okitem_def mem_keychain_context_def sample_ios_def)
qed

text \<open>
  \<^bold>\<open>C38.\<close> On both systems, \<open>Get\<close> and \<open>GetMetadata\<close> hide every failure of the keychain: when the query
  fails with any error (the keychain is locked, the user denies access), which leaves it without
  results, they answer that the key is not found, as if there were no item; the branch that returns the
  error is never taken.
\<close>

theorem keychain_hides_errors:
  assumes "\<forall>q. kc_QueryItem api q w = (([], Some err), w)"
  shows "keychain_Get api key (k, w) = (Inl ErrKeyNotFound, (k, w)) \<and>
    keychain_GetMetadata api key (k, w) = (Inl ErrKeyNotFound, (k, w)) \<and>
    ios_Get api k' key w = (Inl ErrKeyNotFound, w) \<and> ios_GetMetadata api k' key w = (Inl ErrKeyNotFound, w)"
  using assms by (simp add: keychain_Get_def keychain_GetMetadata_def ios_Get_def ios_GetMetadata_def
      found_item_def found_metadata_def Let_def)

theorem keychain_hides_errors_witness:
  "keychain_Get ((mem_keychain_api ''x.keychain'')\<lparr>kc_QueryItem := \<lambda>q w. (([], Some (Foreign ''errSecAuthFailed'')), w)\<rparr>)
     ''k'' (sample_keychain, (True, [(''k'', ''1'')])) =
    (Inl ErrKeyNotFound, (sample_keychain, (True, [(''k'', ''1'')])))"
  using keychain_hides_errors [of
      "(mem_keychain_api ''x.keychain'')\<lparr>kc_QueryItem := \<lambda>q w. (([], Some (Foreign ''errSecAuthFailed'')), w)\<rparr>"
      "(True, [(''k'', ''1'')])" "Foreign ''errSecAuthFailed''" "''k''" sample_keychain sample_ios]
  by simp

text \<open>
  \<^bold>\<open>C39.\<close> A keychain that Touch ID failed to open counts as opened: when the user authenticates and the
  keychain does not unlock with the stored password, opening it fails the first time, but the second
  time it succeeds without asking the user and without unlocking anything.
\<close>

theorem touchid_failure_counts_as_open:
  assumes "kc_Status api (k_path k) w = (Inr (), w)" and "useTouchID k" and "\<not> isTouchIDAuthenticated k"
    and "touchid_Authenticate api (''unlock '' @ k_path k) w = (Inr (), w)"
    and "\<forall>q. kc_QueryItem api q w = (([r], None), w)"
    and "kc_UnlockAtPath api (k_path k) (bytes_of (qr_Data r)) w = (Inl (Foreign e), w)"
  shows "createOrOpen api (k, w) =
      (Inl (Textf ''failed to unlock keychain: %v'' [Foreign e]), (k\<lparr>isTouchIDAuthenticated := True\<rparr>, w)) \<and>
    createOrOpen api (k\<lparr>isTouchIDAuthenticated := True\<rparr>, w) =
      (Inr (k_path k), (k\<lparr>isTouchIDAuthenticated := True\<rparr>, w))"
  using assms
  by (simp add: createOrOpen_def openWithTouchID_def on_world_def call_simps query_or_def textf_err_def Let_def)

theorem touchid_failure_counts_as_open_witness:
  "createOrOpen ((mem_keychain_api ''x.keychain'')
      \<lparr>kc_QueryItem := \<lambda>q w. (([mk_result (''a'', ''stale'')], None), w),
       kc_UnlockAtPath := \<lambda>p pw w. (if pw = ''pw'' then Inr () else Inl (Foreign ''errSecAuthFailed''), w)\<rparr>)
     (sample_keychain\<lparr>useTouchID := True, isTouchIDAuthenticated := True\<rparr>, (True, [])) =
    (Inr ''x.keychain'', (sample_keychain\<lparr>useTouchID := True, isTouchIDAuthenticated := True\<rparr>, (True, [])))"
  using touchid_failure_counts_as_open [of "(mem_keychain_api ''x.keychain'')
      \<lparr>kc_QueryItem := \<lambda>q w. (([mk_result (''a'', ''stale'')], None), w),
       kc_UnlockAtPath := \<lambda>p pw w. (if pw = ''pw'' then Inr () else Inl (Foreign ''errSecAuthFailed''), w)\<rparr>"
      "sample_keychain\<lparr>useTouchID := True\<rparr>" "(True, [])" "mk_result (''a'', ''stale'')" "''errSecAuthFailed''"]
  by (simp add: mem_keychain_api_def sample_keychain_def mk_result_def go_return_def)

text \<open>
  \<open>GetMetadata\<close> on macOS does not look at the path of the keyring: it answers for the default
  keychains.
\<close>

lemma keychain_GetMetadata_path:
  "keychain_GetMetadata api key (k\<lparr>k_path := p\<rparr>, w) =
    (case keychain_GetMetadata api key (k, w) of (r, (k, w)) \<Rightarrow> (r, (k\<lparr>k_path := p\<rparr>, w)))"
  by (simp add: keychain_GetMetadata_def Let_def split: prod.split)

end
