(* ===== verification/Keyring_CLI.thy ===== *)
theory Keyring_CLI
  imports Keyring_API
begin

text \<open>
  \<open>cmd/keyring/main.go\<close>: the command line program, from its parsed flags to what it prints and how it
  ends. Parsing the flags and the debug messages on the error stream are left out.
\<close>

record cli_flags =
  cf_serviceName :: string
  cf_keyName :: string
  cf_backend :: string
  cf_debug :: bool
  cf_listBackends :: bool
  cf_listKeys :: bool
  cf_setValue :: string
  cf_keychainName :: string

text \<open>The interface \<open>Keyring\<close> as the program calls it, on the keyring object and the world.\<close>

record ('k, 'w) keyring_methods =
  km_Get :: "string \<Rightarrow> ('k \<times> 'w, Item) call"
  km_Set :: "Item \<Rightarrow> ('k \<times> 'w, unit) call"
  km_Keys :: "('k \<times> 'w, string list) call"

text \<open>
  How the program ends: it returns or exits with status 0, or \<open>log.Fatal\<close> ends it with status 1 and
  reports an error; with what it printed before.
\<close>

datatype outcome = Done string | Fatal string goerr

fun has_loop :: "string \<Rightarrow> BackendType list \<Rightarrow> bool" where
  "has_loop key [] = False"
| "has_loop key (b # bs) = (if key = b then True else has_loop key bs)"

definition hasBackend :: "('w, 'k) registry \<Rightarrow> string \<Rightarrow> bool" where
  "hasBackend reg key = has_loop key (AvailableBackends reg)"

definition lines_of :: "string list \<Rightarrow> string" where
  "lines_of xs = concat (map (\<lambda>x. x @ [CHR 0x0A]) xs)"

text \<open>The debug message of an action names \<open>allowedBackends[0]\<close>.\<close>

definition debug_first :: "cli_flags \<Rightarrow> BackendType list \<Rightarrow> ('s, unit) call" where
  "debug_first flags allowed =
     (if cf_debug flags \<and> allowed = [] then go_fail (GoPanic ''index out of range'') else go_return ())"

definition finish :: "('s, string) call \<Rightarrow> 's \<Rightarrow> outcome \<times> 's" where
  "finish m s = (case m s of (Inl err, s) \<Rightarrow> (Fatal [] err, s) | (Inr out, s) \<Rightarrow> (Done out, s))"

definition run_action ::
  "('k, 'w) keyring_methods \<Rightarrow> cli_flags \<Rightarrow> BackendType list \<Rightarrow> ('k \<times> 'w, string) call" where
  "run_action ring flags allowed =
     go_try (debug_first flags allowed) (\<lambda>_.
       if cf_listKeys flags then
         go_tryE (\<lambda>err. case err of GoPanic p \<Rightarrow> GoPanic p | _ \<Rightarrow> Textf ''Failed to list keys: %#v'' [err])
           (km_Keys ring) (\<lambda>keys. go_return (lines_of keys))
       else if cf_setValue flags \<noteq> [] then
         go_try (km_Set ring (zero_Item\<lparr>Key := cf_keyName flags, Data := Some (cf_setValue flags)\<rparr>))
           (\<lambda>_. go_return [])
       else
         go_try (km_Get ring (cf_keyName flags)) (\<lambda>i. go_return (bytes_of (Data i))))"

definition cli_main ::
  "('w, 'k) registry \<Rightarrow> ('k, 'w) keyring_methods \<Rightarrow> cli_flags \<Rightarrow> 'w \<Rightarrow> outcome \<times> 'w" where
  "cli_main reg ring flags w =
     (if cf_listBackends flags then (Done (lines_of (AvailableBackends reg)), w)
      else if cf_backend flags \<noteq> [] \<and> \<not> hasBackend reg (cf_backend flags)
      then (Fatal [] (Textf ''Backend %q isn't available. Use -list-backends to see what is.'' []), w)
      else
        (let allowedBackends =
               (if cf_backend flags \<noteq> [] then [cf_backend flags] else AvailableBackends reg);
             cfg = zero_Config\<lparr>ServiceName := cf_serviceName flags,
               AllowedBackends := Some allowedBackends, KeychainName := cf_keychainName flags\<rparr>
         in case Open reg cfg w of
              (Inl err, w) \<Rightarrow> (Fatal [] err, w)
            | (Inr k, w) \<Rightarrow>
                (case finish (run_action ring flags allowedBackends) (k, w) of (out, (k, w)) \<Rightarrow> (out, w))))"

section \<open>What the program does\<close>

lemma hasBackend_iff: "hasBackend reg b \<longleftrightarrow> b \<in> set backendOrder \<and> b \<in> dom reg"
proof -
  have "has_loop b bs \<longleftrightarrow> b \<in> set bs" for bs by (induction bs) auto
  then show ?thesis by (simp add: hasBackend_def AvailableBackends_filter conj_commute)
qed

text \<open>The program with a backend named on the command line.\<close>

lemma cli_named_backend:
  assumes "\<not> cf_listBackends flags" "cf_backend flags = b" "b \<in> set backendOrder" "b \<noteq> []"
    and "reg b = Some opener"
    and "opener (zero_Config\<lparr>ServiceName := cf_serviceName flags, AllowedBackends := Some [b],
      KeychainName := cf_keychainName flags\<rparr>) w = (Inr k, w1)"
  shows "cli_main reg ring flags w =
    (case finish (run_action ring flags [b]) (k, w1) of (out, (k, w)) \<Rightarrow> (out, w))"
proof -
  have "hasBackend reg b" using assms(3,5) by (auto simp: hasBackend_iff)
  with assms show ?thesis by (simp add: cli_main_def Open_def Let_def)
qed

lemma debug_named [simp]: "debug_first flags [b] s = (Inr (), s)"
  by (simp add: debug_first_def call_simps)

end
