(* ===== verification/Backends.thy ===== *)
theory Backends
  imports Wincred WH_Backend Secret_Service_Store KWallet Keyctl_Kernel Pass_Store File_Store OP_Connect OP_Accounts
    Keychain_Store Keyring_CLI
begin

text \<open>
  The package as a whole: a keyring of any backend as a value of the interface \<open>Keyring\<close>, whose methods
  are those of its backend; the \<open>init\<close> functions of the files that are built on a platform, which fill
  the registry; and what \<open>Open\<close> chooses there.
\<close>

section \<open>The openers of the 1Password backends\<close>

definition opconnect_opener :: "(string \<Rightarrow> string) \<Rightarrow> ('w, 'w OPConnectKeyring) opener" where
  "opconnect_opener getenv cfg = go_try (go_lift (NewOPConnectKeyring getenv cfg)) go_return"

definition op_opener :: "(string \<Rightarrow> string) \<Rightarrow> ('w, ('w, 'c) OPSrvAccountKeyring) opener" where
  "op_opener getenv cfg = go_try (go_lift (NewOPSrvAccountKeyring getenv cfg)) go_return"

definition opdesktop_opener :: "(string \<Rightarrow> string) \<Rightarrow> ('w, ('w, 'c) OPDesktopKeyring) opener" where
  "opdesktop_opener getenv cfg = go_try (go_lift (NewOPDesktopKeyring getenv cfg)) go_return"

section \<open>Keyrings of all backends\<close>

text \<open>
  A value of the interface \<open>Keyring\<close>: the object of one of the backends. On iOS \<open>Ring_ios\<close> takes the
  place of \<open>Ring_keychain\<close>.
\<close>

datatype ('w, 'c) ring =
    Ring_wincred windowsKeyring
  | Ring_winhello Backend
  | Ring_keychain "'w keychain"
  | Ring_ios "'w ios_keychain"
  | Ring_secret secretsKeyring
  | Ring_kwallet kwalletKeyring
  | Ring_keyctl keyctlKeyring
  | Ring_pass passKeyring
  | Ring_passage passKeyring
  | Ring_file "'w fileKeyring"
  | Ring_connect "'w OPConnectKeyring"
  | Ring_op "('w, 'c) OPSrvAccountKeyring"
  | Ring_desktop "('w, 'c) OPDesktopKeyring"

text \<open>Everything the backends talk to on one machine, and the time of a call.\<close>

record ('w, 'c) machine =
  mc_getenv :: "string \<Rightarrow> string"
  mc_wincred :: "'w wincred_api"
  mc_winhello :: "'w wh_env"
  mc_keychain :: "'w keychain_api"
  mc_libsecret :: "'w libsecret"
  mc_dbus :: "'w dbus_api"
  mc_keyctl :: "'w keyctl_api"
  mc_pass :: "'w pass_env"
  mc_file :: "'w file_env"
  mc_NewClient :: "string \<Rightarrow> string \<Rightarrow> 'w OPConnectClientAPI"
  mc_sdk :: "('w, 'c) onepassword_sdk"
  mc_now :: time

definition mc_connect :: "('w, 'c) machine \<Rightarrow> 'w connect_env" where
  "mc_connect M = \<lparr>ce_getenv = mc_getenv M, ce_NewClient = mc_NewClient M, ce_now = mc_now M\<rparr>"

text \<open>
  A method that may change its object works on the pair of the object and the world; the other methods,
  and those with a value receiver, leave the interface value as it is.
\<close>

definition by_pointer :: "('k \<Rightarrow> 'r) \<Rightarrow> ('k \<times> 'w, 'a) call \<Rightarrow> 'k \<Rightarrow> 'w \<Rightarrow> 'a res \<times> 'r \<times> 'w" where
  "by_pointer f m k w = (case m (k, w) of (r, (k', w')) \<Rightarrow> (r, (f k', w')))"

definition by_value :: "'r \<Rightarrow> ('w, 'a) call \<Rightarrow> 'w \<Rightarrow> 'a res \<times> 'r \<times> 'w" where
  "by_value ring m w = (case m w of (r, w') \<Rightarrow> (r, (ring, w')))"

fun ring_Get :: "('w, 'c) machine \<Rightarrow> string \<Rightarrow> (('w, 'c) ring \<times> 'w, Item) call" where
  "ring_Get M key (Ring_wincred k, w) = by_value (Ring_wincred k) (wincred_Get (mc_wincred M) k key) w"
| "ring_Get M key (Ring_winhello k, w) = by_pointer Ring_winhello (winhello_Get (mc_winhello M) key) k w"
| "ring_Get M key (Ring_keychain k, w) = by_pointer Ring_keychain (keychain_Get (mc_keychain M) key) k w"
| "ring_Get M key (Ring_ios k, w) = by_value (Ring_ios k) (ios_Get (mc_keychain M) k key) w"
| "ring_Get M key (Ring_secret k, w) = by_pointer Ring_secret (secrets_Get (mc_libsecret M) key) k w"
| "ring_Get M key (Ring_kwallet k, w) = by_pointer Ring_kwallet (kwallet_Get (mc_dbus M) key) k w"
| "ring_Get M key (Ring_keyctl k, w) = by_value (Ring_keyctl k) (returned (keyctl_Get (mc_keyctl M) k key)) w"
| "ring_Get M key (Ring_pass k, w) = by_value (Ring_pass k) (pass_Get (mc_pass M) k key) w"
| "ring_Get M key (Ring_passage k, w) = by_value (Ring_passage k) (passage_Get (mc_pass M) k key) w"
| "ring_Get M key (Ring_file k, w) = by_pointer Ring_file (file_Get (mc_file M) key) k w"
| "ring_Get M key (Ring_connect k, w) = by_value (Ring_connect k) (opc_Get (mc_connect M) k key) w"
| "ring_Get M key (Ring_op k, w) = by_pointer Ring_op (srv_Get (mc_sdk M) (mc_getenv M) key) k w"
| "ring_Get M key (Ring_desktop k, w) = by_pointer Ring_desktop (desktop_Get (mc_sdk M) key) k w"

fun ring_GetMetadata :: "('w, 'c) machine \<Rightarrow> string \<Rightarrow> (('w, 'c) ring \<times> 'w, Metadata) call" where
  "ring_GetMetadata M key (Ring_wincred k, w) = by_value (Ring_wincred k) (wincred_GetMetadata k key) w"
| "ring_GetMetadata M key (Ring_winhello k, w) = by_pointer Ring_winhello (winhello_GetMetadata key) k w"
| "ring_GetMetadata M key (Ring_keychain k, w) = by_pointer Ring_keychain (keychain_GetMetadata (mc_keychain M) key) k w"
| "ring_GetMetadata M key (Ring_ios k, w) = by_value (Ring_ios k) (ios_GetMetadata (mc_keychain M) k key) w"
| "ring_GetMetadata M key (Ring_secret k, w) = by_pointer Ring_secret (secrets_GetMetadata key) k w"
| "ring_GetMetadata M key (Ring_kwallet k, w) = by_pointer Ring_kwallet (kwallet_GetMetadata key) k w"
| "ring_GetMetadata M key (Ring_keyctl k, w) = by_value (Ring_keyctl k) (keyctl_GetMetadata k key) w"
| "ring_GetMetadata M key (Ring_pass k, w) = by_value (Ring_pass k) (pass_GetMetadata key) w"
| "ring_GetMetadata M key (Ring_passage k, w) = by_value (Ring_passage k) (passage_GetMetadata key) w"
| "ring_GetMetadata M key (Ring_file k, w) = by_pointer Ring_file (file_GetMetadata (mc_file M) key) k w"
| "ring_GetMetadata M key (Ring_connect k, w) = by_value (Ring_connect k) (opc_GetMetadata k key) w"
| "ring_GetMetadata M key (Ring_op k, w) = by_pointer Ring_op (srv_GetMetadata key) k w"
| "ring_GetMetadata M key (Ring_desktop k, w) = by_pointer Ring_desktop (desktop_GetMetadata key) k w"

fun ring_Set :: "('w, 'c) machine \<Rightarrow> Item \<Rightarrow> (('w, 'c) ring \<times> 'w, unit) call" where
  "ring_Set M item (Ring_wincred k, w) = by_value (Ring_wincred k) (wincred_Set (mc_wincred M) k item) w"
| "ring_Set M item (Ring_winhello k, w) = by_pointer Ring_winhello (winhello_Set (mc_winhello M) item) k w"
| "ring_Set M item (Ring_keychain k, w) = by_pointer Ring_keychain (keychain_Set (mc_keychain M) item) k w"
| "ring_Set M item (Ring_ios k, w) = by_value (Ring_ios k) (ios_Set (mc_keychain M) k item) w"
| "ring_Set M item (Ring_secret k, w) = by_pointer Ring_secret (secrets_Set (mc_libsecret M) item) k w"
| "ring_Set M item (Ring_kwallet k, w) = by_pointer Ring_kwallet (kwallet_Set (mc_dbus M) item) k w"
| "ring_Set M item (Ring_keyctl k, w) = by_value (Ring_keyctl k) (keyctl_Set (mc_keyctl M) k item) w"
| "ring_Set M item (Ring_pass k, w) = by_value (Ring_pass k) (pass_Set (mc_pass M) k item) w"
| "ring_Set M item (Ring_passage k, w) = by_value (Ring_passage k) (passage_Set (mc_pass M) k item) w"
| "ring_Set M item (Ring_file k, w) = by_pointer Ring_file (file_Set (mc_file M) item) k w"
| "ring_Set M item (Ring_connect k, w) = by_value (Ring_connect k) (opc_Set (mc_connect M) k item) w"
| "ring_Set M item (Ring_op k, w) = by_pointer Ring_op (srv_Set (mc_sdk M) (mc_getenv M) (mc_now M) item) k w"
| "ring_Set M item (Ring_desktop k, w) = by_pointer Ring_desktop (desktop_Set (mc_sdk M) (mc_now M) item) k w"

fun ring_Remove :: "('w, 'c) machine \<Rightarrow> string \<Rightarrow> (('w, 'c) ring \<times> 'w, unit) call" where
  "ring_Remove M key (Ring_wincred k, w) = by_value (Ring_wincred k) (wincred_Remove (mc_wincred M) k key) w"
| "ring_Remove M key (Ring_winhello k, w) = by_pointer Ring_winhello (winhello_Remove (mc_winhello M) key) k w"
| "ring_Remove M key (Ring_keychain k, w) = by_pointer Ring_keychain (keychain_Remove (mc_keychain M) key) k w"
| "ring_Remove M key (Ring_ios k, w) = by_value (Ring_ios k) (ios_Remove (mc_keychain M) k key) w"
| "ring_Remove M key (Ring_secret k, w) = by_pointer Ring_secret (secrets_Remove (mc_libsecret M) key) k w"
| "ring_Remove M key (Ring_kwallet k, w) = by_pointer Ring_kwallet (kwallet_Remove (mc_dbus M) key) k w"
| "ring_Remove M key (Ring_keyctl k, w) = by_value (Ring_keyctl k) (keyctl_Remove (mc_keyctl M) k key) w"
| "ring_Remove M key (Ring_pass k, w) = by_value (Ring_pass k) (pass_Remove (mc_pass M) k key) w"
| "ring_Remove M key (Ring_passage k, w) = by_value (Ring_passage k) (passage_Remove (mc_pass M) k key) w"
| "ring_Remove M key (Ring_file k, w) = by_pointer Ring_file (file_Remove (mc_file M) key) k w"
| "ring_Remove M key (Ring_connect k, w) = by_value (Ring_connect k) (opc_Remove (mc_connect M) k key) w"
| "ring_Remove M key (Ring_op k, w) = by_pointer Ring_op (srv_Remove (mc_sdk M) (mc_getenv M) key) k w"
| "ring_Remove M key (Ring_desktop k, w) = by_pointer Ring_desktop (desktop_Remove (mc_sdk M) key) k w"

fun ring_Keys :: "('w, 'c) machine \<Rightarrow> (('w, 'c) ring \<times> 'w, string list) call" where
  "ring_Keys M (Ring_wincred k, w) = by_value (Ring_wincred k) (wincred_Keys (mc_wincred M) k) w"
| "ring_Keys M (Ring_winhello k, w) = by_pointer Ring_winhello (winhello_Keys (mc_winhello M)) k w"
| "ring_Keys M (Ring_keychain k, w) = by_pointer Ring_keychain (keychain_Keys (mc_keychain M)) k w"
| "ring_Keys M (Ring_ios k, w) = by_value (Ring_ios k) (ios_Keys (mc_keychain M) k) w"
| "ring_Keys M (Ring_secret k, w) = by_pointer Ring_secret (secrets_Keys (mc_libsecret M)) k w"
| "ring_Keys M (Ring_kwallet k, w) = by_pointer Ring_kwallet (kwallet_Keys (mc_dbus M)) k w"
| "ring_Keys M (Ring_keyctl k, w) = by_value (Ring_keyctl k) (returned (keyctl_Keys (mc_keyctl M) k)) w"
| "ring_Keys M (Ring_pass k, w) = by_value (Ring_pass k) (pass_Keys (mc_pass M) k) w"
| "ring_Keys M (Ring_passage k, w) = by_value (Ring_passage k) (passage_Keys (mc_pass M) k) w"
| "ring_Keys M (Ring_file k, w) = by_pointer Ring_file (file_Keys (mc_file M)) k w"
| "ring_Keys M (Ring_connect k, w) = by_value (Ring_connect k) (opc_Keys (mc_connect M) k) w"
| "ring_Keys M (Ring_op k, w) = by_pointer Ring_op (srv_Keys (mc_sdk M) (mc_getenv M)) k w"
| "ring_Keys M (Ring_desktop k, w) = by_pointer Ring_desktop (desktop_Keys (mc_sdk M)) k w"

text \<open>
  Backends with metadata of their own, and backends that answer \<open>GetMetadata\<close> for every key with nothing.
\<close>

fun keeps_metadata :: "('w, 'c) ring \<Rightarrow> bool" where
  "keeps_metadata (Ring_keychain k) = True"
| "keeps_metadata (Ring_ios k) = True"
| "keeps_metadata (Ring_file k) = True"
| "keeps_metadata _ = False"

fun empty_metadata :: "('w, 'c) ring \<Rightarrow> bool" where
  "empty_metadata (Ring_pass k) = True"
| "empty_metadata (Ring_passage k) = True"
| "empty_metadata (Ring_connect k) = True"
| "empty_metadata (Ring_op k) = True"
| "empty_metadata (Ring_desktop k) = True"
| "empty_metadata _ = False"

text \<open>
  \<^bold>\<open>C19.\<close> \<open>GetMetadata\<close> gives away no secret and asks for none: on a keyring of any backend, whatever the
  services answer, the metadata it returns holds no data of an item, the keyring object is left as it
  was, and so is the world unless the backend keeps metadata of its own (the keychains and the file
  backend). Of the others the backends of 1Password, \<open>pass\<close> and \<open>passage\<close> return empty metadata for
  every key, whether there is an item or not, and the rest one of the two errors for it.
\<close>

theorem GetMetadata_reveals_nothing:
  "case ring_GetMetadata M key (ring, w) of (r, (ring', w')) \<Rightarrow>
    ring' = ring \<and>
    (case r of Inl err \<Rightarrow> True | Inr md \<Rightarrow>
      (case MetaItem md of None \<Rightarrow> True | Some i \<Rightarrow> Data i = None)) \<and>
    (keeps_metadata ring \<or>
      w' = w \<and> (if empty_metadata ring then r = Inr zero_Metadata
        else r \<in> {Inl ErrMetadataNotSupported, Inl ErrMetadataNeedsCredentials}))"
proof (cases ring)
  case (Ring_keychain k)
  then show ?thesis
    by (simp add: by_pointer_def keychain_GetMetadata_def found_metadata_def Let_def zero_Item_def
        split: prod.split option.split)
next
  case (Ring_ios k)
  then show ?thesis
    by (simp add: by_value_def ios_GetMetadata_def found_metadata_def Let_def zero_Item_def
        split: prod.split option.split)
next
  case (Ring_file k)
  then show ?thesis
    by (simp add: by_pointer_def file_GetMetadata_def with_filename_def on_world_def call_simps zero_Metadata_def
        split: prod.split sum.split)
qed (simp_all add: by_pointer_def by_value_def call_simps wincred_GetMetadata_def winhello_GetMetadata_def
  secrets_GetMetadata_def kwallet_GetMetadata_def keyctl_GetMetadata_def pass_GetMetadata_def passage_GetMetadata_def
  flavor_GetMetadata_def opc_GetMetadata_def srv_GetMetadata_def desktop_GetMetadata_def opstd_GetMetadata_def
  embedded_def zero_Metadata_def)

text \<open>The methods of the interface value, as the command line program calls them.\<close>

definition ring_methods :: "('w, 'c) machine \<Rightarrow> (('w, 'c) ring, 'w) keyring_methods" where
  "ring_methods M = \<lparr>km_Get = ring_Get M, km_Set = ring_Set M, km_Keys = ring_Keys M\<rparr>"

section \<open>The registry\<close>

definition as_ring :: "('k \<Rightarrow> 'r) \<Rightarrow> ('w, 'k) opener \<Rightarrow> ('w, 'r) opener" where
  "as_ring f opener cfg = go_try (opener cfg) (\<lambda>k. go_return (f k))"

text \<open>
  The \<open>init\<close> functions, each of which enters its backend into \<open>supportedBackends\<close>. Those of
  \<open>kwallet.go\<close> and \<open>secretservice.go\<close> enter nothing when there is no session bus.
\<close>

type_synonym ('w, 'c) rings = "('w, ('w, 'c) ring) registry"

definition init_wincred :: "('w, 'c) rings \<Rightarrow> ('w, 'c) rings" where
  "init_wincred supported = supported(WinCredBackend \<mapsto> as_ring Ring_wincred wincred_opener)"

definition init_winhello :: "('w, 'c) machine \<Rightarrow> ('w, 'c) rings \<Rightarrow> ('w, 'c) rings" where
  "init_winhello M supported =
     supported(WinHelloBackend \<mapsto> as_ring Ring_winhello (newWinHelloKeyring (mc_winhello M)))"

definition init_keychain :: "('w, 'c) rings \<Rightarrow> ('w, 'c) rings" where
  "init_keychain supported = supported(KeychainBackend \<mapsto> as_ring Ring_keychain keychain_opener)"

definition init_ios :: "('w, 'c) rings \<Rightarrow> ('w, 'c) rings" where
  "init_ios supported = supported(KeychainBackend \<mapsto> as_ring Ring_ios ios_opener)"

definition init_keyctl :: "('w, 'c) machine \<Rightarrow> ('w, 'c) rings \<Rightarrow> ('w, 'c) rings" where
  "init_keyctl M supported =
     supported(KeyCtlBackend \<mapsto> as_ring Ring_keyctl (keyctl_opener (mc_keyctl M)))"

definition init_pass :: "('w, 'c) machine \<Rightarrow> ('w, 'c) rings \<Rightarrow> ('w, 'c) rings" where
  "init_pass M supported = supported(PassBackend \<mapsto> as_ring Ring_pass (pass_opener (mc_pass M)))"

definition init_passage :: "('w, 'c) machine \<Rightarrow> ('w, 'c) rings \<Rightarrow> ('w, 'c) rings" where
  "init_passage M supported =
     supported(PassageBackend \<mapsto> as_ring Ring_passage (passage_opener (mc_pass M)))"

definition init_file :: "('w, 'c) rings \<Rightarrow> ('w, 'c) rings" where
  "init_file supported = supported(FileBackend \<mapsto> as_ring Ring_file file_opener)"

definition init_opconnect :: "('w, 'c) machine \<Rightarrow> ('w, 'c) rings \<Rightarrow> ('w, 'c) rings" where
  "init_opconnect M supported =
     supported(OPConnectBackend \<mapsto> as_ring Ring_connect (opconnect_opener (mc_getenv M)))"

definition init_op :: "('w, 'c) machine \<Rightarrow> ('w, 'c) rings \<Rightarrow> ('w, 'c) rings" where
  "init_op M supported = supported(OPBackend \<mapsto> as_ring Ring_op (op_opener (mc_getenv M)))"

definition init_opdesktop :: "('w, 'c) machine \<Rightarrow> ('w, 'c) rings \<Rightarrow> ('w, 'c) rings" where
  "init_opdesktop M supported =
     supported(OPDesktopBackend \<mapsto> as_ring Ring_desktop (opdesktop_opener (mc_getenv M)))"

text \<open>An \<open>init\<close> function that decided whether to enter its backend.\<close>

definition entered ::
  "BackendType \<Rightarrow> ('k \<Rightarrow> ('w, 'c) ring) \<Rightarrow> ('w, 'k) opener option \<Rightarrow> ('w, 'c) rings \<Rightarrow> ('w, 'c) rings" where
  "entered b f opener supported =
     (case opener of None \<Rightarrow> supported | Some opener \<Rightarrow> supported(b \<mapsto> as_ring f opener))"

text \<open>
  The registries of the platforms: the \<open>init\<close> functions of the files that the build constraints
  select, in the order of the files' names.
\<close>

definition linux_registry :: "('w, 'c) machine \<Rightarrow> 'w \<Rightarrow> ('w, 'c) rings \<times> 'w" where
  "linux_registry M w =
     (let reg = init_keyctl M (init_file Map.empty) in
      case kwallet_init (mc_dbus M) (mc_getenv M) w of (kwallet, w) \<Rightarrow>
        let reg = entered KWalletBackend Ring_kwallet kwallet reg;
            reg = init_passage M (init_pass M (init_op M (init_opdesktop M (init_opconnect M reg))))
        in case secrets_init (mc_libsecret M) w of (secrets, w) \<Rightarrow>
             (entered SecretServiceBackend Ring_secret secrets reg, w))"

definition windows_registry :: "('w, 'c) machine \<Rightarrow> ('w, 'c) rings" where
  "windows_registry M =
     init_winhello M (init_wincred (init_op M (init_opdesktop M (init_opconnect M (init_file Map.empty)))))"

definition macos_registry :: "('w, 'c) machine \<Rightarrow> ('w, 'c) rings" where
  "macos_registry M = init_passage M (init_pass M (init_op M (init_opdesktop M (init_opconnect M
     (init_keychain (init_file Map.empty))))))"

lemmas init_defs = init_wincred_def init_winhello_def init_keychain_def init_ios_def init_keyctl_def init_pass_def
  init_passage_def init_file_def init_opconnect_def init_op_def init_opdesktop_def entered_def

text \<open>Whether the two optional backends were entered.\<close>

definition has_kwallet :: "('w, 'c) machine \<Rightarrow> 'w \<Rightarrow> bool" where
  "has_kwallet M w \<longleftrightarrow> fst (kwallet_init (mc_dbus M) (mc_getenv M) w) \<noteq> None"

definition has_secrets :: "('w, 'c) machine \<Rightarrow> 'w \<Rightarrow> bool" where
  "has_secrets M w \<longleftrightarrow>
     fst (secrets_init (mc_libsecret M) (snd (kwallet_init (mc_dbus M) (mc_getenv M) w))) \<noteq> None"

lemma linux_registry_split:
  obtains kwallet secrets w1 w2 where "kwallet_init (mc_dbus M) (mc_getenv M) w = (kwallet, w1)"
    "secrets_init (mc_libsecret M) w1 = (secrets, w2)"
    "has_kwallet M w \<longleftrightarrow> kwallet \<noteq> None" "has_secrets M w \<longleftrightarrow> secrets \<noteq> None"
    "fst (linux_registry M w) = entered SecretServiceBackend Ring_secret secrets (init_passage M (init_pass M
       (init_op M (init_opdesktop M (init_opconnect M (entered KWalletBackend Ring_kwallet kwallet
         (init_keyctl M (init_file Map.empty))))))))"
proof -
  obtain kwallet w1 where k: "kwallet_init (mc_dbus M) (mc_getenv M) w = (kwallet, w1)" by fastforce
  obtain secrets w2 where s: "secrets_init (mc_libsecret M) w1 = (secrets, w2)" by fastforce
  from k s show thesis
    by (intro that [of kwallet w1 secrets w2]) (simp_all add: linux_registry_def has_kwallet_def has_secrets_def Let_def)
qed

section \<open>What Open chooses on a platform\<close>

definition always_linux :: "BackendType set" where
  "always_linux = {KeyCtlBackend, PassBackend, PassageBackend, FileBackend, OPConnectBackend, OPBackend, OPDesktopBackend}"

lemma linux_registry_dom:
  "b \<in> dom (fst (linux_registry M w)) \<longleftrightarrow>
    b \<in> always_linux \<or> b = KWalletBackend \<and> has_kwallet M w \<or> b = SecretServiceBackend \<and> has_secrets M w"
  by (rule linux_registry_split [of M w])
    (auto simp: init_defs always_linux_def split: option.splits)

lemma linux_available:
  "AvailableBackends (fst (linux_registry M w)) =
    (if has_secrets M w then [SecretServiceBackend] else []) @
    (if has_kwallet M w then [KWalletBackend] else []) @
    [KeyCtlBackend, PassBackend, PassageBackend, FileBackend, OPConnectBackend, OPBackend, OPDesktopBackend]"
proof -
  let ?D = "dom (fst (linux_registry M w))"
  have yes: "KeyCtlBackend \<in> ?D" "PassBackend \<in> ?D" "PassageBackend \<in> ?D" "FileBackend \<in> ?D"
    "OPConnectBackend \<in> ?D" "OPBackend \<in> ?D" "OPDesktopBackend \<in> ?D"
    unfolding linux_registry_dom always_linux_def insert_iff by (simp_all only: refl simp_thms)
  have no: "WinCredBackend \<notin> ?D" "WinHelloBackend \<notin> ?D" "KeychainBackend \<notin> ?D"
    unfolding linux_registry_dom always_linux_def insert_iff by (simp_all add: backend_names)
  have some: "KWalletBackend \<in> ?D \<longleftrightarrow> has_kwallet M w" "SecretServiceBackend \<in> ?D \<longleftrightarrow> has_secrets M w"
    unfolding linux_registry_dom always_linux_def insert_iff by (simp_all add: backend_names)
  show ?thesis
    unfolding AvailableBackends_filter backendOrder_def filter.simps
    by (cases "has_kwallet M w"; cases "has_secrets M w";
        simp only: yes no some if_True if_False simp_thms append.simps)
qed

lemma windows_available:
  "AvailableBackends (windows_registry M) =
    [WinCredBackend, WinHelloBackend, FileBackend, OPConnectBackend, OPBackend, OPDesktopBackend]"
proof -
  have dom: "dom (windows_registry M) = {WinCredBackend, WinHelloBackend, FileBackend, OPConnectBackend, OPBackend,
      OPDesktopBackend}"
    by (auto simp: windows_registry_def init_defs)
  have no: "KeychainBackend \<notin> dom (windows_registry M)" "SecretServiceBackend \<notin> dom (windows_registry M)"
    "KWalletBackend \<notin> dom (windows_registry M)" "KeyCtlBackend \<notin> dom (windows_registry M)"
    "PassBackend \<notin> dom (windows_registry M)" "PassageBackend \<notin> dom (windows_registry M)"
    unfolding dom insert_iff by (simp_all add: backend_names)
  show ?thesis
    unfolding AvailableBackends_filter backendOrder_def filter.simps
    by (simp only: no if_False) (simp only: dom insert_iff simp_thms if_True)
qed

lemma macos_available:
  "AvailableBackends (macos_registry M) =
    [KeychainBackend, PassBackend, PassageBackend, FileBackend, OPConnectBackend, OPBackend, OPDesktopBackend]"
proof -
  have dom: "dom (macos_registry M) = {KeychainBackend, PassBackend, PassageBackend, FileBackend, OPConnectBackend,
      OPBackend, OPDesktopBackend}"
    by (auto simp: macos_registry_def init_defs)
  have no: "WinCredBackend \<notin> dom (macos_registry M)" "WinHelloBackend \<notin> dom (macos_registry M)"
    "SecretServiceBackend \<notin> dom (macos_registry M)" "KWalletBackend \<notin> dom (macos_registry M)"
    "KeyCtlBackend \<notin> dom (macos_registry M)"
    unfolding dom insert_iff by (simp_all add: backend_names)
  show ?thesis
    unfolding AvailableBackends_filter backendOrder_def filter.simps
    by (simp only: no if_False) (simp only: dom insert_iff simp_thms if_True)
qed

text \<open>Keyrings of 1Password come from the openers of 1Password only.\<close>

fun onepassword_ring :: "('w, 'c) ring \<Rightarrow> bool" where
  "onepassword_ring (Ring_connect k) = True"
| "onepassword_ring (Ring_op k) = True"
| "onepassword_ring (Ring_desktop k) = True"
| "onepassword_ring _ = False"

definition rings_named :: "('w, 'c) rings \<Rightarrow> bool" where
  "rings_named reg \<longleftrightarrow> reg FileBackend = Some (as_ring Ring_file file_opener) \<and>
     (\<forall>b opener cfg w ring w'. reg b = Some opener \<longrightarrow> opener cfg w = (Inr ring, w') \<longrightarrow>
        onepassword_ring ring \<longrightarrow> b \<in> onepassword_backends)"

lemma as_ring_Inr: "as_ring f opener cfg w = (Inr r, w') \<longleftrightarrow> (\<exists>k. opener cfg w = (Inr k, w') \<and> r = f k)"
  by (auto simp: as_ring_def call_simps split: prod.splits sum.splits)

lemma rings_named_upd:
  assumes "rings_named reg" "b \<noteq> FileBackend" "\<And>k. onepassword_ring (f k) \<Longrightarrow> b \<in> onepassword_backends"
  shows "rings_named (reg(b \<mapsto> as_ring f opener))"
  using assms by (auto simp: rings_named_def as_ring_Inr)

lemma rings_named_file: "rings_named (init_file Map.empty)"
  by (auto simp: rings_named_def init_file_def as_ring_Inr)

lemma rings_named_entered:
  assumes "rings_named reg" "b \<noteq> FileBackend" "\<And>k. \<not> onepassword_ring (f k)"
  shows "rings_named (entered b f opener reg)"
proof (cases opener)
  case (Some a)
  have "rings_named (reg(b \<mapsto> as_ring f a))"
    by (rule rings_named_upd [OF assms(1,2)]) (use assms(3) in blast)
  with Some show ?thesis by (simp add: entered_def)
qed (simp add: entered_def assms(1))

lemma rings_named_init:
  assumes "rings_named reg"
  shows "rings_named (init_wincred reg)" "rings_named (init_winhello M reg)" "rings_named (init_keychain reg)"
    "rings_named (init_ios reg)" "rings_named (init_keyctl M reg)" "rings_named (init_pass M reg)"
    "rings_named (init_passage M reg)" "rings_named (init_opconnect M reg)" "rings_named (init_op M reg)"
    "rings_named (init_opdesktop M reg)"
  unfolding init_defs
  by (rule rings_named_upd [OF assms]; simp add: backend_names onepassword_backends_def)+

lemma platforms_named:
  "rings_named (windows_registry M)" "rings_named (macos_registry M)" "rings_named (fst (linux_registry M w))"
proof -
  show "rings_named (windows_registry M)" "rings_named (macos_registry M)"
    unfolding windows_registry_def macos_registry_def by (intro rings_named_init rings_named_file)+
  show "rings_named (fst (linux_registry M w))"
    by (rule linux_registry_split [of M w])
      (simp add: rings_named_init rings_named_file rings_named_entered backend_names)
qed

lemma open_default_named:
  assumes reg: "rings_named reg" and calm: "no_panics reg" and nil: "AllowedBackends cfg = None"
  shows "\<exists>ring w'. Open reg cfg w = (Inr ring, w') \<and> \<not> onepassword_ring ring"
proof -
  from reg have supported: "reg FileBackend = Some (as_ring Ring_file file_opener)" by (simp add: rings_named_def)
  have "\<exists>k w'. as_ring Ring_file file_opener cfg w = (Inr k, w')" for cfg w
    by (simp add: as_ring_def file_opener_def call_simps)
  from Open_default_upto_file [of cfg reg, OF nil supported this calm, of w] obtain pre b post opener w1 k w' where
    b: "set (pre @ [b]) \<inter> onepassword_backends = {}" "reg b = Some opener"
      "opener (effective reg cfg) w1 = (Inr k, w')" "Open reg cfg w = (Inr k, w')"
    by (elim exE conjE) (rule that, assumption+)
  with reg have "onepassword_ring k \<Longrightarrow> b \<in> onepassword_backends" unfolding rings_named_def by blast
  with b(1,4) show ?thesis by auto
qed

text \<open>
  \<^bold>\<open>C4.\<close> On Windows, macOS and Linux the available backends are those of the platform, in the order of
  preference: on Linux the seven that need nothing at start, and before them the Secret Service and
  KWallet when there is a session bus (and KWallet is not disabled). On each of them \<open>Open\<close> without a
  list of backends, provided no opener panics, returns a keyring whatever the configuration and the
  state of the machine, and never one of 1Password.
\<close>

theorem platforms_open_default:
  assumes "reg = windows_registry M \<and> own = [WinCredBackend, WinHelloBackend, FileBackend] \<or>
      reg = macos_registry M \<and> own = [KeychainBackend, PassBackend, PassageBackend, FileBackend] \<or>
      reg = fst (linux_registry M w0) \<and>
        own = (if has_secrets M w0 then [SecretServiceBackend] else []) @
          (if has_kwallet M w0 then [KWalletBackend] else []) @
          [KeyCtlBackend, PassBackend, PassageBackend, FileBackend]"
    and "no_panics reg" and "AllowedBackends cfg = None"
  shows "AvailableBackends reg = own @ [OPConnectBackend, OPBackend, OPDesktopBackend] \<and>
    (\<exists>ring w'. Open reg cfg w = (Inr ring, w') \<and> \<not> onepassword_ring ring)"
proof
  from assms(1) show "AvailableBackends reg = own @ [OPConnectBackend, OPBackend, OPDesktopBackend]"
    by (elim disjE conjE) (simp_all add: windows_available macos_available linux_available)
  from assms(1) have "rings_named reg" by (elim disjE conjE) (simp_all add: platforms_named)
  then show "\<exists>ring w'. Open reg cfg w = (Inr ring, w') \<and> \<not> onepassword_ring ring"
    using assms(2,3) by (rule open_default_named)
qed

text \<open>A machine that offers nothing: every service fails, and says so.\<close>

abbreviation (input) absent :: "('w, 'a) call" where "absent \<equiv> go_fail (Foreign ''absent'')"

definition bare_wincred :: "'w wincred_api" where
  "bare_wincred = \<lparr>GetGenericCredential = (\<lambda>t. absent), NewGenericCredential = (\<lambda>t. \<lparr>TargetName = t,
     CredentialBlob = None, Persist = 0\<rparr>), WriteCredential = (\<lambda>c. absent), DeleteCredential = (\<lambda>c. absent),
     ListCredentials = absent, PersistLocalMachine = 2\<rparr>"

definition bare_winapi :: "'w winapi" where
  "bare_winapi = \<lparr>win_CurrentUid = absent, win_GetConsoleWindow = (\<lambda>w. (0, w)),
     win_IsWindowVisible = (\<lambda>h w. (0, w)), win_GetForegroundWindow = (\<lambda>w. (0, w)), win_UTF16 = (\<lambda>s. s),
     nc_OpenStorageProvider = (\<lambda>n w. ((1, 0), w)), nc_OpenKey = (\<lambda>p n a b w. ((1, 0), w)),
     nc_CreatePersistedKey = (\<lambda>p a n b c w. ((1, 0), w)), nc_SetProperty = (\<lambda>h n b f w. (1, w)),
     nc_FinalizeKey = (\<lambda>h f w. (1, w)), nc_Encrypt = (\<lambda>h b n f w. ((1, 0, []), w)),
     nc_Decrypt = (\<lambda>h b n f w. ((1, 0, []), w)), nc_DeleteKey = (\<lambda>h f w. (1, w)),
     nc_FreeObject = (\<lambda>h w. (1, w))\<rparr>"

definition bare_winhello :: "'w wh_env" where
  "bare_winhello = \<lparr>wh_api = bare_winapi, wh_crypto = \<lparr>rand_ReadFull = (\<lambda>n. absent), gcm_seal = (\<lambda>k n d a. d),
     gcm_open = (\<lambda>k n d a. None)\<rparr>, wh_creds = bare_wincred\<rparr>"

definition bare_keychain :: "'w keychain_api" where
  "bare_keychain = \<lparr>kc_QueryItem = (\<lambda>q w. (([], Some (Foreign ''absent'')), w)), kc_AddItem = (\<lambda>i. absent),
     kc_UpdateItem = (\<lambda>q i. absent), kc_DeleteItem = (\<lambda>i. absent), kc_Status = (\<lambda>p. absent),
     kc_NewKeychain = (\<lambda>p q. absent), kc_NewKeychainWithPrompt = (\<lambda>p. absent), kc_LockAtPath = (\<lambda>p. absent),
     kc_UnlockAtPath = (\<lambda>p q. absent), touchid_Authenticate = (\<lambda>r. absent), term_ReadPassword = absent\<rparr>"

definition bare_libsecret :: "'w libsecret" where
  "bare_libsecret = \<lparr>ls_SessionBus = absent, ls_NewService = absent, ls_Open = absent, ls_Collections = absent,
     ls_CreateCollection = (\<lambda>a. absent), ls_Unlock = (\<lambda>a. absent), ls_Locked = (\<lambda>a. absent),
     ls_SearchItems = (\<lambda>a b. absent), ls_Items = (\<lambda>a. absent), ls_CreateItem = (\<lambda>a b c d. absent),
     ls_GetSecret = (\<lambda>a b. absent), ls_Label = (\<lambda>a. absent), ls_Delete = (\<lambda>a. absent)\<rparr>"

definition bare_dbus :: "'w dbus_api" where
  "bare_dbus = \<lparr>db_SessionBus = absent, db_Call = (\<lambda>d p m a. absent)\<rparr>"

definition bare_keyctl :: "'w keyctl_api" where
  "bare_keyctl = \<lparr>kc_AddKey = (\<lambda>a b c d. absent), kc_Search = (\<lambda>a b c d. absent), kc_Buffer = (\<lambda>a b. absent),
     kc_String = (\<lambda>a. absent), kc_Setperm = (\<lambda>a b. absent), kc_GetKeyringID = (\<lambda>a b. absent),
     kc_Syscall = (\<lambda>a b c w. (1, w)), kc_bigEndian = False\<rparr>"

definition bare_os :: "'w os_api" where
  "bare_os = \<lparr>os_UserHomeDir = go_return ''/root'', os_LookupEnv = (\<lambda>_. None), os_Stat = (\<lambda>p. go_fail ENOENT),
     os_MkdirAll = (\<lambda>p m. absent), os_ReadFile = (\<lambda>p. go_fail ENOENT), os_WriteFile = (\<lambda>p b m. absent),
     os_Remove = (\<lambda>p. go_fail ENOENT), os_ReadDir = (\<lambda>p w. ([], w)), os_Now = (\<lambda>w. (''now'', w))\<rparr>"

definition bare_pass :: "'w pass_env" where
  "bare_pass = \<lparr>pe_os = bare_os, os_Tree = (\<lambda>p w. No_stat ENOENT), os_Environ = [],
     exec_LookPath = (\<lambda>p. absent), exec_Output = (\<lambda>c. absent), exec_Run = (\<lambda>c. absent)\<rparr>"

definition bare_file :: "'w file_env" where
  "bare_file = \<lparr>fe_os = bare_os, percent_Encode = (\<lambda>s c. s), percent_Decode = (\<lambda>s. s),
     jose_Encrypt = (\<lambda>b p t. absent), jose_Decode = (\<lambda>b p. Inl (Foreign ''absent''))\<rparr>"

definition bare_sdk :: "('w, unit) onepassword_sdk" where
  "bare_sdk = \<lparr>sdk_NewTokenClient = (\<lambda>t. absent), sdk_NewDesktopClient = (\<lambda>a. absent),
     sdk_Items = (\<lambda>c. \<lparr>op_Create = (\<lambda>t p. absent), op_Delete = (\<lambda>t v i. absent), op_Get = (\<lambda>t v i. absent),
       op_List = (\<lambda>t v b. absent), op_Put = (\<lambda>t i. absent)\<rparr>)\<rparr>"

definition bare_machine :: "('w, unit) machine" where
  "bare_machine = \<lparr>mc_getenv = (\<lambda>_. ''''), mc_wincred = bare_wincred, mc_winhello = bare_winhello,
     mc_keychain = bare_keychain, mc_libsecret = bare_libsecret, mc_dbus = bare_dbus, mc_keyctl = bare_keyctl,
     mc_pass = bare_pass, mc_file = bare_file,
     mc_NewClient = (\<lambda>h t. \<lparr>oc_CreateItem = (\<lambda>i v. absent), oc_DeleteItemByID = (\<lambda>i v. absent),
       oc_GetItemByUUID = (\<lambda>i v. absent), oc_GetItems = (\<lambda>v. absent), oc_GetItemsByTitle = (\<lambda>t v. absent),
       oc_UpdateItem = (\<lambda>i v. absent)\<rparr>), mc_sdk = bare_sdk, mc_now = 0\<rparr>"

lemma as_ring_no_panic:
  "fst (opener cfg w) \<noteq> Inl (GoPanic p) \<Longrightarrow> fst (as_ring f opener cfg w) \<noteq> Inl (GoPanic p)"
  by (auto simp: as_ring_def call_simps split: prod.splits sum.splits)

lemma op_openers_no_panic:
  "fst (opconnect_opener g cfg w) \<noteq> Inl (GoPanic p)" "fst (op_opener g cfg w) \<noteq> Inl (GoPanic p)"
  "fst (opdesktop_opener g cfg w) \<noteq> Inl (GoPanic p)"
  by (auto simp: opconnect_opener_def op_opener_def opdesktop_opener_def NewOPConnectKeyring_def
      NewOPSrvAccountKeyring_def NewOPDesktopKeyring_def call_simps Let_def split: prod.splits if_splits)

lemma bare_pass_no_panic: "fst (flavor_opener fl bare_pass cfg w) \<noteq> Inl (GoPanic p)"
  by (simp add: flavor_opener_def flavor_dir_def bare_pass_def bare_os_def call_simps ExpandTilde_exact Let_def
      split: list.split)

lemma bare_keyctl_no_panic: "fst (keyctl_opener bare_keyctl cfg w) \<noteq> Inl (GoPanic p)"
  by (simp add: keyctl_opener_def keyctlSearch_def bare_keyctl_def call_simps Let_def ENOKEY_def textf_err_def
      split: sum.split)

lemma bare_no_services:
  "kwallet_init bare_dbus (\<lambda>_. '''') w = (None, w)" "secrets_init bare_libsecret w = (None, w)"
  by (simp_all add: kwallet_init_def secrets_init_def bare_dbus_def bare_libsecret_def call_simps)

lemma bare_has_none: "\<not> has_kwallet bare_machine w" "\<not> has_secrets bare_machine w"
  by (simp_all add: has_kwallet_def has_secrets_def bare_machine_def bare_no_services)

lemma bare_no_panics: "no_panics (fst (linux_registry bare_machine w0))"
  unfolding no_panics_def linux_registry_def init_defs bare_machine_def
  by (auto simp: bare_no_services Let_def as_ring_no_panic op_openers_no_panic bare_pass_no_panic bare_keyctl_no_panic
      pass_opener_def passage_opener_def file_opener_def go_return_def split: if_splits)

theorem platforms_open_default_witness:
  "\<exists>ring w'. Open (fst (linux_registry bare_machine 0)) zero_Config (5 :: nat) = (Inr ring, w') \<and>
    \<not> onepassword_ring ring"
proof -
  have "AllowedBackends zero_Config = None" by (simp add: zero_Config_def)
  from platforms_open_default
      [where w = 5 and ?w0.0 = 0, OF disjI2 [OF disjI2 [OF conjI [OF refl refl]]] bare_no_panics this]
  show ?thesis by (rule conjunct2)
qed

end
