(* ===== verification/Any_Keyring.thy ===== *)
theory Any_Keyring
  imports Backends
begin

text \<open>
  A keyring of any backend, used through the methods of the interface, is a map from keys to bytes: the
  contracts of the backends brought together under the methods of the interface value.
\<close>

section \<open>A keyring that is a map\<close>

text \<open>
  What a client sees of a keyring object in a world: whatever it calls, for keys and items that the
  backend can represent, the answer is that of the map \<open>m\<close>, and the object and the world after the call
  are again such a map, changed as the call says. The greatest such relation.
\<close>

coinductive is_map :: "('w, 'c) machine \<Rightarrow> (string \<Rightarrow> bool) \<Rightarrow> (Item \<Rightarrow> bool) \<Rightarrow> ('w, 'c) ring \<times> 'w \<Rightarrow>
    (string \<Rightarrow> (string \<times> bytes) option) \<Rightarrow> bool" for M okkey okitem where
  answers: "\<lbrakk>\<And>k. okkey k \<Longrightarrow> \<exists>r t'. ring_Get M k t = (r, t') \<and> get_answers key_data (m k) r \<and> is_map M okkey okitem t' m;
    \<And>i. okitem i \<Longrightarrow> \<exists>t'. ring_Set M i t = (Inr (), t') \<and> is_map M okkey okitem t' (m(Key i \<mapsto> key_data i));
    \<And>k. okkey k \<Longrightarrow> \<exists>r t'. ring_Remove M k t = (r, t') \<and> (m k \<noteq> None \<longrightarrow> r = Inr ()) \<and>
      is_map M okkey okitem t' (m(k := None));
    \<exists>ks t'. ring_Keys M t = (Inr ks, t') \<and> distinct ks \<and> set ks = dom m \<and> is_map M okkey okitem t' m\<rbrakk>
    \<Longrightarrow> is_map M okkey okitem t m"

definition ring_step :: "('w, 'c) machine \<Rightarrow> kop \<Rightarrow> ('w, 'c) ring \<times> 'w \<Rightarrow> ('w, 'c) ring \<times> 'w" where
  "ring_step M = step_kop (ring_Get M) (ring_Set M) (ring_Remove M) (ring_Keys M)"

lemma is_map_get:
  assumes "is_map M okkey okitem t m" "okkey k"
  shows "\<exists>r t'. ring_Get M k t = (r, t') \<and> get_answers key_data (m k) r \<and> is_map M okkey okitem t' m"
  using assms by (cases rule: is_map.cases) blast

lemma is_map_set:
  assumes "is_map M okkey okitem t m" "okitem i"
  shows "\<exists>t'. ring_Set M i t = (Inr (), t') \<and> is_map M okkey okitem t' (m(Key i \<mapsto> key_data i))"
  using assms by (cases rule: is_map.cases) blast

lemma is_map_remove:
  assumes "is_map M okkey okitem t m" "okkey k"
  shows "\<exists>r t'. ring_Remove M k t = (r, t') \<and> (m k \<noteq> None \<longrightarrow> r = Inr ()) \<and>
    is_map M okkey okitem t' (m(k := None))"
  using assms by (cases rule: is_map.cases) blast

lemma is_map_keys:
  assumes "is_map M okkey okitem t m"
  shows "\<exists>ks t'. ring_Keys M t = (Inr ks, t') \<and> distinct ks \<and> set ks = dom m \<and> is_map M okkey okitem t' m"
  using assms by (cases rule: is_map.cases) blast

lemma is_map_step:
  assumes "is_map M okkey okitem t m" "ok_kop okkey okitem p"
  shows "is_map M okkey okitem (ring_step M p t) (spec_kop key_data p m)"
proof (cases p)
  case (KGet k)
  with is_map_get [OF assms(1), of k] assms(2) show ?thesis by (auto simp: ring_step_def)
next
  case (KSet i)
  with is_map_set [OF assms(1), of i] assms(2) show ?thesis by (auto simp: ring_step_def)
next
  case (KRemove k)
  with is_map_remove [OF assms(1), of k] assms(2) show ?thesis by (auto simp: ring_step_def)
next
  case KKeys
  with is_map_keys [OF assms(1)] show ?thesis by (auto simp: ring_step_def)
qed

lemma is_map_run:
  assumes "is_map M okkey okitem t m" "list_all (ok_kop okkey okitem) ps"
  shows "is_map M okkey okitem (fold (ring_step M) ps t) (fold (spec_kop key_data) ps m)"
  using assms by (induction ps arbitrary: t m) (simp_all add: is_map_step del: split_paired_All)

section \<open>From a backend's contract to the methods of the interface\<close>

text \<open>
  The states of a backend's contract that belong to a machine (\<open>own\<close>), as an interface value and a world
  (\<open>emb\<close>), and the part of what the backend keeps of an item that every backend keeps (\<open>dat\<close>).
\<close>

locale ring_backend = keyring_contract inv view okkey okitem obs get put remove keys
  for inv :: "'s \<Rightarrow> bool" and view :: "'s \<Rightarrow> string \<Rightarrow> 'v option" and okkey okitem obs get put remove keys +
  fixes dat :: "'v \<Rightarrow> string \<times> bytes"
    and M :: "('w, 'c) machine"
    and own :: "'s \<Rightarrow> bool"
    and emb :: "'s \<Rightarrow> ('w, 'c) ring \<times> 'w"
  assumes dat_obs: "dat (obs i) = key_data i"
    and get_emb: "own s \<Longrightarrow> get k s = (r, s') \<Longrightarrow> ring_Get M k (emb s) = (r, emb s') \<and> own s'"
    and put_emb: "own s \<Longrightarrow> put i s = (u, s') \<Longrightarrow> ring_Set M i (emb s) = (u, emb s') \<and> own s'"
    and remove_emb: "own s \<Longrightarrow> remove k s = (u, s') \<Longrightarrow> ring_Remove M k (emb s) = (u, emb s') \<and> own s'"
    and keys_emb: "own s \<Longrightarrow> keys s = (ks, s') \<Longrightarrow> ring_Keys M (emb s) = (ks, emb s') \<and> own s'"
begin

text \<open>An interface value in a world that stands for a map.\<close>

definition served :: "('w, 'c) ring \<times> 'w \<Rightarrow> (string \<Rightarrow> (string \<times> bytes) option) \<Rightarrow> bool" where
  "served t m \<longleftrightarrow> (\<exists>s. inv s \<and> own s \<and> t = emb s \<and> m = (\<lambda>k. map_option dat (view s k)))"

lemma servedI: "inv s \<Longrightarrow> own s \<Longrightarrow> m = (\<lambda>k. map_option dat (view s k)) \<Longrightarrow> served (emb s) m"
  by (auto simp: served_def)

lemma served_get:
  assumes "served t m" "okkey k"
  shows "\<exists>r t'. ring_Get M k t = (r, t') \<and> get_answers key_data (m k) r \<and> served t' m"
proof -
  from assms(1) obtain s where s: "inv s" "own s" "t = emb s" "m = (\<lambda>k. map_option dat (view s k))"
    by (auto simp: served_def)
  show ?thesis
  proof (cases "view s k")
    case None
    from get_missing [OF s(1) assms(2) None] obtain s' where
      g: "get k s = (Inl ErrKeyNotFound, s')" "inv s'" "view s' = view s" by blast
    from get_emb [OF s(2) g(1)] g s(3,4) None show ?thesis by (auto simp: served_def)
  next
    case (Some v)
    from get_found [OF s(1) assms(2) Some] obtain i s' where
      g: "get k s = (Inr i, s')" "obs i = v" "inv s'" "view s' = view s" by blast
    from get_emb [OF s(2) g(1)] g s(3,4) Some dat_obs [of i] show ?thesis
      by (intro exI [of _ "Inr i"] exI [of _ "emb s'"]) (auto simp: served_def)
  qed
qed

lemma served_put:
  assumes "served t m" "okitem i"
  shows "\<exists>t'. ring_Set M i t = (Inr (), t') \<and> served t' (m(Key i \<mapsto> key_data i))"
proof -
  from assms(1) obtain s where s: "inv s" "own s" "t = emb s" "m = (\<lambda>k. map_option dat (view s k))"
    by (auto simp: served_def)
  from put_stores [OF s(1) assms(2)] obtain s' where
    p: "put i s = (Inr (), s')" "inv s'" "view s' = (view s)(Key i \<mapsto> obs i)" by blast
  have "(\<lambda>k. map_option dat (view s' k)) = m(Key i \<mapsto> key_data i)"
    using p(3) s(4) by (auto simp: dat_obs)
  with put_emb [OF s(2) p(1)] p(2) s(3) show ?thesis by (metis servedI)
qed

lemma served_remove:
  assumes "served t m" "okkey k"
  shows "\<exists>r t'. ring_Remove M k t = (r, t') \<and> (m k \<noteq> None \<longrightarrow> r = Inr ()) \<and> served t' (m(k := None))"
proof -
  from assms(1) obtain s where s: "inv s" "own s" "t = emb s" "m = (\<lambda>k. map_option dat (view s k))"
    by (auto simp: served_def)
  from remove_deletes [OF s(1) assms(2)] obtain r s' where
    p: "remove k s = (r, s')" "view s k \<noteq> None \<longrightarrow> r = Inr ()" "inv s'" "view s' = (view s)(k := None)" by blast
  have "(\<lambda>k. map_option dat (view s' k)) = m(k := None)"
    using p(4) s(4) by auto
  with remove_emb [OF s(2) p(1)] servedI [OF p(3)] p(2) s(3,4) show ?thesis
    by (intro exI [of _ r] exI [of _ "emb s'"]) auto
qed

lemma served_keys:
  assumes "served t m"
  shows "\<exists>ks t'. ring_Keys M t = (Inr ks, t') \<and> distinct ks \<and> set ks = dom m \<and> served t' m"
proof -
  from assms obtain s where s: "inv s" "own s" "t = emb s" "m = (\<lambda>k. map_option dat (view s k))"
    by (auto simp: served_def)
  from keys_lists [OF s(1)] obtain ks s' where
    p: "keys s = (Inr ks, s')" "distinct ks" "set ks = dom (view s)" "inv s'" "view s' = view s" by blast
  have "dom m = dom (view s)" using s(4) by (auto simp: dom_def)
  with keys_emb [OF s(2) p(1)] servedI [OF p(4)] p s(3,4) show ?thesis
    by (intro exI [of _ ks] exI [of _ "emb s'"]) auto
qed

lemma served_is_map:
  assumes "served t m"
  shows "is_map M okkey okitem t m"
  using assms
proof (rule is_map.coinduct [where X = served])
  fix t m
  assume now: "served t m"
  have "\<exists>r t'. ring_Get M k t = (r, t') \<and> get_answers key_data (m k) r \<and>
      (served t' m \<or> is_map M okkey okitem t' m)" if "okkey k" for k
    using served_get [OF now that] by fast
  moreover have "\<exists>t'. ring_Set M i t = (Inr (), t') \<and> (served t' (m(Key i \<mapsto> key_data i)) \<or>
      is_map M okkey okitem t' (m(Key i \<mapsto> key_data i)))" if "okitem i" for i
    using served_put [OF now that] by fast
  moreover have "\<exists>r t'. ring_Remove M k t = (r, t') \<and> (m k \<noteq> None \<longrightarrow> r = Inr ()) \<and>
      (served t' (m(k := None)) \<or> is_map M okkey okitem t' (m(k := None)))" if "okkey k" for k
    using served_remove [OF now that] by fast
  moreover have "\<exists>ks t'. ring_Keys M t = (Inr ks, t') \<and> distinct ks \<and> set ks = dom m \<and>
      (served t' m \<or> is_map M okkey okitem t' m)"
    using served_keys [OF now] by fast
  ultimately show "\<exists>t' m'. t = t' \<and> m = m' \<and>
     (\<forall>k. okkey k \<longrightarrow> (\<exists>r t''. ring_Get M k t' = (r, t'') \<and> get_answers key_data (m' k) r \<and>
        (served t'' m' \<or> is_map M okkey okitem t'' m'))) \<and>
     (\<forall>i. okitem i \<longrightarrow> (\<exists>t''. ring_Set M i t' = (Inr (), t'') \<and> (served t'' (m'(Key i \<mapsto> key_data i)) \<or>
        is_map M okkey okitem t'' (m'(Key i \<mapsto> key_data i))))) \<and>
     (\<forall>k. okkey k \<longrightarrow> (\<exists>r t''. ring_Remove M k t' = (r, t'') \<and> (m' k \<noteq> None \<longrightarrow> r = Inr ()) \<and>
        (served t'' (m'(k := None)) \<or> is_map M okkey okitem t'' (m'(k := None))))) \<and>
     (\<exists>ks t''. ring_Keys M t' = (Inr ks, t'') \<and> distinct ks \<and> set ks = dom m' \<and>
        (served t'' m' \<or> is_map M okkey okitem t'' m'))"
    by - (rule exI [of _ t], rule exI [of _ m], intro conjI refl allI impI)
qed

end

section \<open>The backends\<close>

lemmas emb_simps = by_pointer_def by_value_def

interpretation of_wincred: ring_backend "wincred_inv fits" wincred_view "\<lambda>_. True" "wincred_okitem fits" key_data
  "\<lambda>key. wincred_lift (\<lambda>api k. wincred_Get api k key)" "\<lambda>i. wincred_lift (\<lambda>api k. wincred_Set api k i)"
  "\<lambda>key. wincred_lift (\<lambda>api k. wincred_Remove api k key)" "wincred_lift wincred_Keys"
  "\<lambda>d. d" M "\<lambda>s. ws_api s = mc_wincred M" "\<lambda>s. (Ring_wincred (ws_keyring s), ws_world s)"
  for fits M
  by unfold_locales (auto simp: wincred_lift_def emb_simps split: prod.splits)

interpretation of_winhello: ring_backend "wh_inv fits sv kn" "wh_view sv kn" utf16_ok "wh_okitem fits sv kn" key_data
  "\<lambda>key. wh_lift (\<lambda>env. winhello_Get env key)" "\<lambda>i. wh_lift (\<lambda>env. winhello_Set env i)"
  "\<lambda>key. wh_lift (\<lambda>env. winhello_Remove env key)" "wh_lift winhello_Keys"
  "\<lambda>d. d" M "\<lambda>s. whs_env s = mc_winhello M" "\<lambda>s. (Ring_winhello (whs_backend s), whs_world s)"
  for fits sv kn M
  by unfold_locales (auto simp: wh_lift_def emb_simps split: prod.splits)

interpretation of_keychain: ring_backend "keychain_inv c b" "\<lambda>s. account_items c (snd s)" "\<lambda>key. key \<noteq> []"
  "keychain_okitem b" key_data "keychain_Get (kx_api c)" "keychain_Set (kx_api c)" "keychain_Remove (kx_api c)"
  "keychain_Keys (kx_api c)" "\<lambda>d. d" M "\<lambda>s. kx_api c = mc_keychain M" "\<lambda>(k, w). (Ring_keychain k, w)"
  for c b M
  by unfold_locales (auto simp: emb_simps split: prod.splits)

interpretation of_ios: ring_backend "ios_inv c k" "account_items c" "\<lambda>key. key \<noteq> []" "keychain_okitem (ik_isSynchronizable k)" key_data
  "ios_Get (kx_api c) k" "ios_Set (kx_api c) k" "ios_Remove (kx_api c) k" "ios_Keys (kx_api c) k"
  "\<lambda>d. d" M "\<lambda>s. kx_api c = mc_keychain M" "\<lambda>w. (Ring_ios k, w)"
  for c k M
  by unfold_locales (auto simp: emb_simps split: prod.splits)

interpretation of_secrets: ring_backend "secrets_inv fits" secrets_view "\<lambda>_. True" "secrets_okitem fits" "\<lambda>i. i"
  "\<lambda>key. secrets_lift (\<lambda>ls. secrets_Get ls key)" "\<lambda>i. secrets_lift (\<lambda>ls. secrets_Set ls i)"
  "\<lambda>key. secrets_lift (\<lambda>ls. secrets_Remove ls key)" "secrets_lift secrets_Keys"
  key_data M "\<lambda>s. se_ls s = mc_libsecret M" "\<lambda>s. (Ring_secret (fst (se_state s)), snd (se_state s))"
  for fits M
  by unfold_locales (auto simp: secrets_lift_def emb_simps split: prod.splits)

interpretation of_kwallet: ring_backend "kwallet_inv fits" kwallet_view "\<lambda>_. True" "storable fits" "\<lambda>i. i"
  "\<lambda>key. kwallet_lift (\<lambda>api. kwallet_Get api key)" "\<lambda>i. kwallet_lift (\<lambda>api. kwallet_Set api i)"
  "\<lambda>key. kwallet_lift (\<lambda>api. kwallet_Remove api key)" "kwallet_lift kwallet_Keys"
  key_data M "\<lambda>s. we_api s = mc_dbus M" "\<lambda>s. (Ring_kwallet (fst (we_state s)), snd (we_state s))"
  for fits M
  by unfold_locales (auto simp: kwallet_lift_def emb_simps split: prod.splits)

interpretation of_keyctl: ring_backend "keyctl_inv okd fits okperm" keyctl_view okd "keyctl_okitem okd fits" key_data
  keyctl_get keyctl_put keyctl_delete keyctl_list
  "\<lambda>d. d" M "\<lambda>s. ks_api s = mc_keyctl M" "\<lambda>s. (Ring_keyctl (ks_keyring s), ks_world s)"
  for okd fits okperm M
  by unfold_locales (auto simp: keyctl_lift_def emb_simps split: prod.splits)

interpretation of_pass: ring_backend "pass_inv c" "pass_view c" "pass_okkey c" "pass_okitem c" "\<lambda>i. i"
  "flavor_Get (pc_flavor c) (pc_env c) (pc_ring c)" "flavor_Set (pc_flavor c) (pc_env c) (pc_ring c)"
  "flavor_Remove (pc_flavor c) (pc_env c) (pc_ring c)" "flavor_Keys (pc_flavor c) (pc_env c) (pc_ring c)"
  key_data M "\<lambda>_. pc_env c = mc_pass M \<and> pc_flavor c = pass_flavor" "\<lambda>w. (Ring_pass (pc_ring c), w)"
  for c M
  by unfold_locales (auto simp: pass_ops emb_simps split: prod.splits)

interpretation of_passage: ring_backend "pass_inv c" "pass_view c" "pass_okkey c" "pass_okitem c" "\<lambda>i. i"
  "flavor_Get (pc_flavor c) (pc_env c) (pc_ring c)" "flavor_Set (pc_flavor c) (pc_env c) (pc_ring c)"
  "flavor_Remove (pc_flavor c) (pc_env c) (pc_ring c)" "flavor_Keys (pc_flavor c) (pc_env c) (pc_ring c)"
  key_data M "\<lambda>_. pc_env c = mc_pass M \<and> pc_flavor c = passage_flavor" "\<lambda>w. (Ring_passage (pc_ring c), w)"
  for c M
  by unfold_locales (auto simp: passage_ops emb_simps split: prod.splits)

interpretation of_file: ring_backend "file_inv c" "file_view c" "file_okkey c" "file_okitem c" "\<lambda>i. i"
  "file_Get (fc_env c)" "file_Set (fc_env c)" "file_Remove (fc_env c)" "file_Keys (fc_env c)"
  key_data M "\<lambda>_. fc_env c = mc_file M" "\<lambda>(k, w). (Ring_file k, w)"
  for c M
  by unfold_locales (auto simp: emb_simps split: prod.splits)

interpretation of_connect: ring_backend "opc_inv fits" opc_view "\<lambda>_. True" "opstd_okitem fits" "\<lambda>i. i"
  "\<lambda>key. opc_lift (\<lambda>env k. opc_Get env k key)" "\<lambda>i. opc_lift (\<lambda>env k. opc_Set env k i)"
  "\<lambda>key. opc_lift (\<lambda>env k. opc_Remove env k key)" "opc_lift opc_Keys"
  key_data M "\<lambda>s. opc_env s = mc_connect M" "\<lambda>s. (Ring_connect (opc_keyring s), opc_world s)"
  for fits M
  by unfold_locales (auto simp: opc_lift_def emb_simps split: prod.splits)

lemma srv_contract:
  "keyring_contract (srv.acc_inv sdk getenv vault fits) (srv.acc_view vault) (\<lambda>_. True) (opstd_okitem fits) (\<lambda>i. i)
    (srv_Get sdk getenv) (srv_Set sdk getenv now) (srv_Remove sdk getenv) (srv_Keys sdk getenv)"
  unfolding srv_Get_def [abs_def] srv_Set_def [abs_def] srv_Remove_def [abs_def] srv_Keys_def [abs_def]
  by (rule srv.acc.keyring_contract_axioms)

interpretation of_op: ring_backend "srv.acc_inv (mc_sdk M) (mc_getenv M) vault fits" "srv.acc_view vault" "\<lambda>_. True"
  "opstd_okitem fits" "\<lambda>i. i" "srv_Get (mc_sdk M) (mc_getenv M)" "srv_Set (mc_sdk M) (mc_getenv M) (mc_now M)"
  "srv_Remove (mc_sdk M) (mc_getenv M)" "srv_Keys (mc_sdk M) (mc_getenv M)"
  key_data M "\<lambda>_. True" "\<lambda>(k, w). (Ring_op k, w)"
  for vault fits M
  by (rule ring_backend.intro [OF srv_contract], unfold_locales) (auto simp: emb_simps split: prod.splits)

lemma desktop_contract:
  "keyring_contract (desktop.acc_inv sdk vault fits) (desktop.acc_view vault) (\<lambda>_. True) (opstd_okitem fits)
    (\<lambda>i. i) (desktop_Get sdk) (desktop_Set sdk now) (desktop_Remove sdk) (desktop_Keys sdk)"
  unfolding desktop_Get_def [abs_def] desktop_Set_def [abs_def] desktop_Remove_def [abs_def] desktop_Keys_def [abs_def]
  by (rule desktop.acc.keyring_contract_axioms)

interpretation of_desktop: ring_backend "desktop.acc_inv (mc_sdk M) vault fits" "desktop.acc_view vault" "\<lambda>_. True"
  "opstd_okitem fits" "\<lambda>i. i" "desktop_Get (mc_sdk M)" "desktop_Set (mc_sdk M) (mc_now M)"
  "desktop_Remove (mc_sdk M)" "desktop_Keys (mc_sdk M)" key_data M "\<lambda>_. True" "\<lambda>(k, w). (Ring_desktop k, w)"
  for vault fits M
  by (rule ring_backend.intro [OF desktop_contract], unfold_locales) (auto simp: emb_simps split: prod.splits)

section \<open>Usable keyrings\<close>

definition data_view :: "(string \<Rightarrow> Item option) \<Rightarrow> string \<Rightarrow> (string \<times> bytes) option" where
  "data_view v k = map_option key_data (v k)"

text \<open>
  A keyring object of any backend in a world where it can be used: its services behave as documented, and
  the object is as the opener makes it. With the keys and items its backend can represent, and the items it
  holds in that world.
\<close>

inductive usable :: "('w, 'c) machine \<Rightarrow> (string \<Rightarrow> bool) \<Rightarrow> (Item \<Rightarrow> bool) \<Rightarrow> ('w, 'c) ring \<times> 'w \<Rightarrow>
    (string \<Rightarrow> (string \<times> bytes) option) \<Rightarrow> bool" for M where
  on_wincred: "\<lbrakk>wincred_inv fits s; ws_api s = mc_wincred M\<rbrakk> \<Longrightarrow>
    usable M (\<lambda>_. True) (wincred_okitem fits) (Ring_wincred (ws_keyring s), ws_world s) (wincred_view s)"
| on_winhello: "\<lbrakk>wh_inv fits sv kn s; whs_env s = mc_winhello M\<rbrakk> \<Longrightarrow>
    usable M utf16_ok (wh_okitem fits sv kn) (Ring_winhello (whs_backend s), whs_world s) (wh_view sv kn s)"
| on_keychain: "\<lbrakk>keychain_inv c b (k, w); kx_api c = mc_keychain M\<rbrakk> \<Longrightarrow>
    usable M (\<lambda>key. key \<noteq> []) (keychain_okitem b) (Ring_keychain k, w) (account_items c w)"
| on_ios: "\<lbrakk>ios_inv c k w; kx_api c = mc_keychain M\<rbrakk> \<Longrightarrow>
    usable M (\<lambda>key. key \<noteq> []) (keychain_okitem (ik_isSynchronizable k)) (Ring_ios k, w) (account_items c w)"
| on_secrets: "\<lbrakk>secrets_inv fits s; se_ls s = mc_libsecret M; se_state s = (k, w)\<rbrakk> \<Longrightarrow>
    usable M (\<lambda>_. True) (secrets_okitem fits) (Ring_secret k, w) (data_view (secrets_view s))"
| on_kwallet: "\<lbrakk>kwallet_inv fits s; we_api s = mc_dbus M; we_state s = (k, w)\<rbrakk> \<Longrightarrow>
    usable M (\<lambda>_. True) (storable fits) (Ring_kwallet k, w) (data_view (kwallet_view s))"
| on_keyctl: "\<lbrakk>keyctl_inv okd fits okperm s; ks_api s = mc_keyctl M\<rbrakk> \<Longrightarrow>
    usable M okd (keyctl_okitem okd fits) (Ring_keyctl (ks_keyring s), ks_world s) (keyctl_view s)"
| on_pass: "\<lbrakk>pass_inv c w; pc_env c = mc_pass M; pc_flavor c = pass_flavor\<rbrakk> \<Longrightarrow>
    usable M (pass_okkey c) (pass_okitem c) (Ring_pass (pc_ring c), w) (data_view (pass_view c w))"
| on_passage: "\<lbrakk>pass_inv c w; pc_env c = mc_pass M; pc_flavor c = passage_flavor\<rbrakk> \<Longrightarrow>
    usable M (pass_okkey c) (pass_okitem c) (Ring_passage (pc_ring c), w) (data_view (pass_view c w))"
| on_file: "\<lbrakk>file_inv c (k, w); fc_env c = mc_file M\<rbrakk> \<Longrightarrow>
    usable M (file_okkey c) (file_okitem c) (Ring_file k, w) (data_view (file_view c (k, w)))"
| on_connect: "\<lbrakk>opc_inv fits s; opc_env s = mc_connect M\<rbrakk> \<Longrightarrow>
    usable M (\<lambda>_. True) (opstd_okitem fits) (Ring_connect (opc_keyring s), opc_world s) (data_view (opc_view s))"
| on_op: "\<lbrakk>srv.acc_inv (mc_sdk M) (mc_getenv M) vault fits (k, w)\<rbrakk> \<Longrightarrow>
    usable M (\<lambda>_. True) (opstd_okitem fits) (Ring_op k, w) (data_view (srv.acc_view vault (k, w)))"
| on_desktop: "\<lbrakk>desktop.acc_inv (mc_sdk M) vault fits (k, w)\<rbrakk> \<Longrightarrow>
    usable M (\<lambda>_. True) (opstd_okitem fits) (Ring_desktop k, w) (data_view (desktop.acc_view vault (k, w)))"

lemma usable_is_map: "usable M okkey okitem t m \<Longrightarrow> is_map M okkey okitem t m"
proof (induction rule: usable.induct)
  case (on_wincred fits s)
  then show ?case
    by (intro of_wincred.served_is_map, unfold of_wincred.served_def) (auto simp: data_view_def option.map_ident intro!: exI [of _ "s"])
next
  case (on_winhello fits sv kn s)
  then show ?case
    by (intro of_winhello.served_is_map, unfold of_winhello.served_def) (auto simp: data_view_def option.map_ident intro!: exI [of _ "s"])
next
  case (on_keychain c b k w)
  then show ?case
    by (intro of_keychain.served_is_map [where c = c and b = b], unfold of_keychain.served_def) (auto simp: data_view_def option.map_ident intro!: exI [of _ "(k, w)"])
next
  case (on_ios c k w)
  then show ?case
    by (intro of_ios.served_is_map [where c = c and k = k], unfold of_ios.served_def) (auto simp: data_view_def option.map_ident intro!: exI [of _ "w"])
next
  case (on_secrets fits s k w)
  then show ?case
    by (intro of_secrets.served_is_map, unfold of_secrets.served_def) (auto simp: data_view_def option.map_ident intro!: exI [of _ "s"])
next
  case (on_kwallet fits s k w)
  then show ?case
    by (intro of_kwallet.served_is_map, unfold of_kwallet.served_def) (auto simp: data_view_def option.map_ident intro!: exI [of _ "s"])
next
  case (on_keyctl okd fits okperm s)
  then show ?case
    by (intro of_keyctl.served_is_map [where okperm = okperm], unfold of_keyctl.served_def) (auto simp: data_view_def option.map_ident intro!: exI [of _ "s"])
next
  case (on_pass c w)
  then show ?case
    by (intro of_pass.served_is_map [where c = c], unfold of_pass.served_def) (auto simp: data_view_def option.map_ident intro!: exI [of _ "w"])
next
  case (on_passage c w)
  then show ?case
    by (intro of_passage.served_is_map [where c = c], unfold of_passage.served_def) (auto simp: data_view_def option.map_ident intro!: exI [of _ "w"])
next
  case (on_file c k w)
  then show ?case
    by (intro of_file.served_is_map, unfold of_file.served_def) (auto simp: data_view_def option.map_ident intro!: exI [of _ "(k, w)"])
next
  case (on_connect fits s)
  then show ?case
    by (intro of_connect.served_is_map, unfold of_connect.served_def) (auto simp: data_view_def option.map_ident intro!: exI [of _ "s"])
next
  case (on_op vault fits k w)
  then show ?case
    by (intro of_op.served_is_map [where vault = vault], unfold of_op.served_def) (auto simp: data_view_def option.map_ident intro!: exI [of _ "(k, w)"])
next
  case (on_desktop vault fits k w)
  then show ?case
    by (intro of_desktop.served_is_map [where vault = vault], unfold of_desktop.served_def) (auto simp: data_view_def option.map_ident intro!: exI [of _ "(k, w)"])
qed

text \<open>
  \<^bold>\<open>C2.\<close> Whatever keyring \<open>Open\<close> gave, of whatever backend: when it can be used, any sequence of calls of
  the interface's methods on it makes it the map from keys to bytes that the calls describe, starting
  from what it held. \<open>Get\<close> answers with the key and the bytes last set, and with \<open>ErrKeyNotFound\<close> when
  there are none; \<open>Keys\<close> lists every key that has an item, once.
\<close>

theorem any_keyring_history:
  assumes "usable M okkey okitem (ring, w) m"
    and "list_all (ok_kop okkey okitem) ps" and "okkey key"
  shows "get_answers key_data (fold (spec_kop key_data) ps m key)
      (fst (ring_Get M key (fold (ring_step M) ps (ring, w)))) \<and>
    (\<exists>ks. fst (ring_Keys M (fold (ring_step M) ps (ring, w))) = Inr ks \<and>
       distinct ks \<and> set ks = dom (fold (spec_kop key_data) ps m))"
proof -
  from is_map_run [OF usable_is_map [OF assms(1)] assms(2)]
  have run: "is_map M okkey okitem (fold (ring_step M) ps (ring, w)) (fold (spec_kop key_data) ps m)" .
  from is_map_get [OF run assms(3)] is_map_keys [OF run] show ?thesis by (elim exE conjE) simp
qed

text \<open>A machine with the credential manager only, and a keyring on it.\<close>

definition wincred_machine :: "(mem_creds, unit) machine" where
  "wincred_machine = bare_machine\<lparr>mc_wincred := mem_wincred\<rparr>"

lemma wincred_machine_usable:
  "usable wincred_machine (\<lambda>_. True) (wincred_okitem mem_fits)
    (Ring_wincred \<lparr>wk_name = ''svc'', wk_prefix = ''keyring''\<rparr>, [(''keyring:svc:a'', ''1''), (''other'', ''2'')])
    (wincred_view sample_wincred)"
  using on_wincred [of mem_fits sample_wincred wincred_machine]
  by (simp add: wincred_inv_def sample_wincred_def mem_wincred_lawful wincred_machine_def)

theorem any_keyring_history_witness:
  "\<exists>i. fst (ring_Get wincred_machine ''b'' (fold (ring_step wincred_machine)
      [KSet (zero_Item\<lparr>Key := ''b'', Data := Some ''3''\<rparr>), KRemove ''a'']
      (Ring_wincred \<lparr>wk_name = ''svc'', wk_prefix = ''keyring''\<rparr>, [(''keyring:svc:a'', ''1''), (''other'', ''2'')]))) = Inr i \<and> key_data i = (''b'', ''3'')"
proof -
  let ?ps = "[KSet (zero_Item\<lparr>Key := ''b'', Data := Some ''3''\<rparr>), KRemove ''a'']"
  have ok: "list_all (ok_kop (\<lambda>_. True) (wincred_okitem mem_fits)) ?ps"
    by (simp add: wincred_okitem_def mem_fits_def)
  have "fold (spec_kop key_data) ?ps (wincred_view sample_wincred) ''b'' = Some (''b'', ''3'')"
    by (simp add: key_data_def)
  with conjunct1 [OF any_keyring_history [OF wincred_machine_usable ok, of "''b''"]] show ?thesis
    unfolding get_answers_simps(2) by (simp only: get_answers_simps(2) simp_thms)
qed

end
