(* ===== verification/Sessions.thy ===== *)
theory Sessions
  imports Any_Keyring
begin

text \<open>
  What is stored outlives the program that stored it: a sequence of sessions, each of which opens a
  keyring anew with \<open>Open\<close> and makes some calls, works on one map.
\<close>

lemma ring_methods_sel [simp]:
  "km_Get (ring_methods M) = ring_Get M" "km_Set (ring_methods M) = ring_Set M"
  "km_Keys (ring_methods M) = ring_Keys M"
  by (simp_all add: ring_methods_def)

section \<open>Sessions\<close>

text \<open>One run of a program: it opens a keyring, makes calls on it and forgets it.\<close>

definition session :: "('w, 'c) machine \<Rightarrow> ('w, 'c) rings \<Rightarrow> 'w Config \<Rightarrow> kop list \<Rightarrow> 'w \<Rightarrow> 'w" where
  "session M reg cfg ps w =
     (case Open reg cfg w of
        (Inl err, w) \<Rightarrow> w
      | (Inr ring, w) \<Rightarrow> snd (fold (ring_step M) ps (ring, w)))"

text \<open>\<open>Open\<close>, and then \<open>Get\<close> on the keyring it returns.\<close>

definition open_get :: "('w, 'c) machine \<Rightarrow> ('w, 'c) rings \<Rightarrow> 'w Config \<Rightarrow> string \<Rightarrow> 'w \<Rightarrow> Item res" where
  "open_get M reg cfg key w =
     (case Open reg cfg w of (Inl err, w) \<Rightarrow> Inl err | (Inr ring, w) \<Rightarrow> fst (ring_Get M key (ring, w)))"

definition opens_first :: "('w, 'k) registry \<Rightarrow> 'w Config \<Rightarrow> BackendType \<Rightarrow> ('w, 'k) opener \<Rightarrow> bool" where
  "opens_first reg cfg b opener \<longleftrightarrow> reg b = Some opener \<and> (\<exists>bs. AllowedBackends (effective reg cfg) = Some (b # bs))"

lemma Open_first:
  assumes "opens_first reg cfg b opener" "opener (effective reg cfg) w = (Inr k, w')"
  shows "Open reg cfg w = (Inr k, w')"
  using assms by (auto simp: opens_first_def Open_def effective_def Let_def split: option.splits)

lemma effective_fields [simp]:
  "ServiceName (effective reg cfg) = ServiceName cfg" "WinCredPrefix (effective reg cfg) = WinCredPrefix cfg"
  "KeychainName (effective reg cfg) = KeychainName cfg"
  "LibSecretCollectionName (effective reg cfg) = LibSecretCollectionName cfg"
  by (simp_all add: effective_def split: option.split)

text \<open>
  A backend whose keyring, opened again with the same configuration, holds the items that were there.
\<close>

locale reopening = ring_backend inv view okkey okitem obs get put remove keys dat M own emb
  for inv :: "'s \<Rightarrow> bool" and view :: "'s \<Rightarrow> string \<Rightarrow> 'v option" and okkey okitem obs get put remove keys dat
    and M :: "('w, 'c) machine" and own and emb +
  fixes reg :: "('w, 'c) rings" and cfg :: "'w Config"
  assumes reopen: "inv s \<Longrightarrow> own s \<Longrightarrow>
    \<exists>s'. Open reg cfg (snd (emb s)) = (Inr (fst (emb s')), snd (emb s')) \<and> inv s' \<and> own s' \<and> view s' = view s"
begin

lemma emb_step:
  assumes "own s"
  shows "ring_step M p (emb s) = emb (step_kop get put remove keys p s) \<and> own (step_kop get put remove keys p s)"
proof (cases p)
  case (KGet k)
  with get_emb [OF assms, of k "fst (get k s)" "snd (get k s)"] show ?thesis by (simp add: ring_step_def)
next
  case (KSet i)
  with put_emb [OF assms, of i "fst (put i s)" "snd (put i s)"] show ?thesis by (simp add: ring_step_def)
next
  case (KRemove k)
  with remove_emb [OF assms, of k "fst (remove k s)" "snd (remove k s)"] show ?thesis by (simp add: ring_step_def)
next
  case KKeys
  with keys_emb [OF assms, of "fst (keys s)" "snd (keys s)"] show ?thesis by (simp add: ring_step_def)
qed

lemma emb_run:
  "own s \<Longrightarrow> fold (ring_step M) ps (emb s) = emb (fold (step_kop get put remove keys) ps s) \<and>
    own (fold (step_kop get put remove keys) ps s)"
  by (induction ps arbitrary: s) (simp_all add: emb_step)

lemma session_refines:
  assumes "inv s" "own s" "list_all (ok_kop okkey okitem) ps"
  shows "\<exists>s'. session M reg cfg ps (snd (emb s)) = snd (emb s') \<and> inv s' \<and> own s' \<and>
    view s' = fold (spec_kop obs) ps (view s)"
proof -
  from reopen [OF assms(1,2)] obtain s1 where
    s1: "Open reg cfg (snd (emb s)) = (Inr (fst (emb s1)), snd (emb s1))" "inv s1" "own s1" "view s1 = view s"
    by blast
  have "session M reg cfg ps (snd (emb s)) = snd (fold (ring_step M) ps (emb s1))"
    by (simp add: session_def s1(1))
  with emb_run [OF s1(3), of ps] run_refines [OF s1(2) assms(3)] s1(4) show ?thesis by auto
qed

lemma sessions_refine:
  assumes "inv s" "own s" "\<forall>ps\<in>set pss. list_all (ok_kop okkey okitem) ps"
  shows "\<exists>s'. fold (session M reg cfg) pss (snd (emb s)) = snd (emb s') \<and> inv s' \<and> own s' \<and>
    view s' = fold (spec_kop obs) (concat pss) (view s)"
  using assms
proof (induction pss arbitrary: s)
  case (Cons ps pss)
  then have "list_all (ok_kop okkey okitem) ps" by simp
  from session_refines [OF Cons.prems(1,2) this] obtain s1 where
    s1: "session M reg cfg ps (snd (emb s)) = snd (emb s1)" "inv s1" "own s1"
      "view s1 = fold (spec_kop obs) ps (view s)" by blast
  from Cons.IH [OF s1(2,3)] Cons.prems(3) s1(1,4) show ?case by simp
qed auto

lemma sessions_answer:
  assumes "inv s" "own s" "\<forall>ps\<in>set pss. list_all (ok_kop okkey okitem) ps" "okkey key"
  shows "get_answers key_data (map_option dat (fold (spec_kop obs) (concat pss) (view s) key))
    (open_get M reg cfg key (fold (session M reg cfg) pss (snd (emb s))))"
proof -
  from sessions_refine [OF assms(1-3)] obtain s1 where
    s1: "fold (session M reg cfg) pss (snd (emb s)) = snd (emb s1)" "inv s1" "own s1"
      "view s1 = fold (spec_kop obs) (concat pss) (view s)" by blast
  from reopen [OF s1(2,3)] obtain s2 where
    s2: "Open reg cfg (snd (emb s1)) = (Inr (fst (emb s2)), snd (emb s2))" "inv s2" "own s2" "view s2 = view s1"
    by blast
  from served_get [OF servedI [OF s2(2,3) refl] assms(4)] obtain r t where
    "ring_Get M key (emb s2) = (r, t)" "get_answers key_data (map_option dat (view s2 key)) r" by blast
  with s1 s2 show ?thesis by (simp add: open_get_def)
qed

lemma spec_dat:
  "(\<lambda>k. map_option dat (fold (spec_kop obs) ps v k)) = fold (spec_kop key_data) ps (\<lambda>k. map_option dat (v k))"
proof (induction ps arbitrary: v)
  case (Cons p ps)
  have "(\<lambda>k. map_option dat (spec_kop obs p v k)) = spec_kop key_data p (\<lambda>k. map_option dat (v k))"
    by (cases p) (auto simp: dat_obs)
  with Cons.IH [of "spec_kop obs p v"] show ?case by simp
qed simp

lemma sessions_answer_data:
  assumes "served (r, w) m" "\<forall>ps\<in>set pss. list_all (ok_kop okkey okitem) ps" "okkey key"
  shows "get_answers key_data (fold (spec_kop key_data) (concat pss) m key)
    (open_get M reg cfg key (fold (session M reg cfg) pss w))"
proof -
  from assms(1) obtain s where
    s: "inv s" "own s" "(r, w) = emb s" and m: "m = (\<lambda>k. map_option dat (view s k))" by (auto simp: served_def)
  have "w = snd (emb s)" by (simp flip: s(3))
  moreover have "fold (spec_kop key_data) (concat pss) m key =
      map_option dat (fold (spec_kop obs) (concat pss) (view s) key)"
    using fun_cong [OF spec_dat [of "concat pss" "view s"], of key] m by simp
  ultimately show ?thesis using sessions_answer [OF s(1,2) assms(2,3)] by simp
qed

text \<open>The command line program, run once to set a value and once more to print it.\<close>

lemma cli_two_runs:
  assumes served: "served (r, w) m" and "okitem (zero_Item\<lparr>Key := cf_keyName flags, Data := Some v\<rparr>)" "v \<noteq> []"
    and cfg: "cfg = zero_Config\<lparr>ServiceName := cf_serviceName flags, AllowedBackends := Some allowed,
      KeychainName := cf_keychainName flags\<rparr>"
    and allowed: "allowed = (if cf_backend flags \<noteq> [] then [cf_backend flags] else AvailableBackends reg)" "allowed \<noteq> []"
    and flags: "\<not> cf_listBackends flags" "\<not> cf_listKeys flags"
      "cf_backend flags = [] \<or> hasBackend reg (cf_backend flags)"
  shows "\<exists>w1. cli_main reg (ring_methods M) (flags\<lparr>cf_setValue := v\<rparr>) w = (Done [], w1) \<and>
    fst (cli_main reg (ring_methods M) (flags\<lparr>cf_setValue := []\<rparr>) w1) = Done v"
proof -
  let ?i = "zero_Item\<lparr>Key := cf_keyName flags, Data := Some v\<rparr>"
  have main: "cli_main reg (ring_methods M) (flags\<lparr>cf_setValue := x\<rparr>) w =
      (case Open reg cfg w of (Inl err, w) \<Rightarrow> (Fatal [] err, w)
       | (Inr k, w) \<Rightarrow> (case finish (run_action (ring_methods M) (flags\<lparr>cf_setValue := x\<rparr>) allowed) (k, w) of
          (out, (k, w)) \<Rightarrow> (out, w)))" for x w
    using flags unfolding cfg allowed(1) by (auto simp: cli_main_def Let_def split: prod.split sum.split)
  have calm: "debug_first (flags\<lparr>cf_setValue := x\<rparr>) allowed t = (Inr (), t)" for x and t :: "('w, 'c) ring \<times> 'w"
    using allowed(2) by (simp add: debug_first_def call_simps)
  from served obtain s where s: "inv s" "own s" "(r, w) = emb s" by (auto simp: served_def)
  then have "w = snd (emb s)" by (metis snd_conv)
  with reopen [OF s(1,2)] obtain s1 where
    s1: "Open reg cfg w = (Inr (fst (emb s1)), snd (emb s1))" "inv s1" "own s1" "view s1 = view s"
    by blast
  from put_stores [OF s1(2) assms(2)] obtain s2 where
    s2: "put ?i s1 = (Inr (), s2)" "inv s2" "view s2 = (view s1)(cf_keyName flags \<mapsto> obs ?i)" by auto
  from put_emb [OF s1(3) s2(1)] have set: "ring_Set M ?i (emb s1) = (Inr (), emb s2)" "own s2" by simp_all
  from reopen [OF s2(2) set(2)] obtain s3 where
    s3: "Open reg cfg (snd (emb s2)) = (Inr (fst (emb s3)), snd (emb s3))" "inv s3" "own s3" "view s3 = view s2"
    by blast
  have "view s3 (cf_keyName flags) = Some (obs ?i)" using s3(4) s2(3) by simp
  moreover have "okkey (cf_keyName flags)" using okitem_key [OF assms(2)] by simp
  ultimately obtain j t where get: "ring_Get M (cf_keyName flags) (emb s3) = (Inr j, t)" "key_data j = key_data ?i"
    using served_get [OF servedI [OF s3(2,3) refl], of "cf_keyName flags"] by (auto simp: dat_obs)
  then have "bytes_of (Data j) = v" by (simp add: key_data_def)
  then show ?thesis
    using s1(1) s3(1) set(1) get(1) flags(2) assms(3)
    by (intro exI [of _ "snd (emb s2)"])
      (simp add: main run_action_def finish_def call_simps calm split: prod.split)
qed

end

section \<open>Backends that find their items again\<close>

text \<open>An opener that leaves the world alone and always makes the same object.\<close>

definition makes :: "('w, 'k) opener \<Rightarrow> 'w Config \<Rightarrow> 'k \<Rightarrow> bool" where
  "makes opener cfg k \<longleftrightarrow> (\<forall>w. opener cfg w = (Inr k, w))"

lemma Open_makes:
  "opens_first reg cfg b (as_ring f opener) \<Longrightarrow> makes opener (effective reg cfg) k \<Longrightarrow> Open reg cfg w = (Inr (f k), w)"
  by (erule Open_first) (simp add: makes_def as_ring_def call_simps)

interpretation wincred_again: reopening "wincred_inv fits" wincred_view "\<lambda>_. True" "wincred_okitem fits" key_data
  "\<lambda>key. wincred_lift (\<lambda>api k. wincred_Get api k key)" "\<lambda>i. wincred_lift (\<lambda>api k. wincred_Set api k i)"
  "\<lambda>key. wincred_lift (\<lambda>api k. wincred_Remove api k key)" "wincred_lift wincred_Keys"
  "\<lambda>d. d" M "\<lambda>s. ws_api s = mc_wincred M \<and> opens_first reg cfg WinCredBackend (as_ring Ring_wincred wincred_opener) \<and>
    makes wincred_opener (effective reg cfg) (ws_keyring s)"
  "\<lambda>s. (Ring_wincred (ws_keyring s), ws_world s)" reg cfg
  for fits M reg cfg
proof (unfold_locales, goal_cases)
  case (6 s)
  have "Open reg cfg (ws_world s) = (Inr (Ring_wincred (ws_keyring s)), ws_world s)"
    using 6(2) by (elim conjE) (rule Open_makes)
  with 6 show ?case by (intro exI [of _ s]) simp
qed (auto simp: wincred_lift_def emb_simps split: prod.splits)

interpretation keychain_again: reopening "keychain_inv c (isSynchronizable k0)" "\<lambda>s. account_items c (snd s)" "\<lambda>key. key \<noteq> []"
  "keychain_okitem (isSynchronizable k0)" key_data "keychain_Get (kx_api c)" "keychain_Set (kx_api c)" "keychain_Remove (kx_api c)"
  "keychain_Keys (kx_api c)" "\<lambda>d. d" M
  "\<lambda>_. kx_api c = mc_keychain M \<and> opens_first reg cfg KeychainBackend (as_ring Ring_keychain keychain_opener) \<and>
    makes keychain_opener (effective reg cfg) k0 \<and> keychain_ok c k0"
  "\<lambda>(k, w). (Ring_keychain k, w)" reg cfg
  for c k0 M reg cfg
proof (unfold_locales, goal_cases)
  case (6 s)
  have "Open reg cfg (snd s) = (Inr (Ring_keychain k0), snd s)"
    using 6(2) by (elim conjE) (rule Open_makes)
  with 6 show ?case by (intro exI [of _ "(k0, snd s)"]) (simp add: keychain_inv_def split_beta)
qed (auto simp: emb_simps split: prod.splits)

interpretation file_again: reopening "file_inv c" "file_view c" "file_okkey c" "file_okitem c" "\<lambda>i. i"
  "file_Get (fc_env c)" "file_Set (fc_env c)" "file_Remove (fc_env c)" "file_Keys (fc_env c)" key_data M
  "\<lambda>_. fc_env c = mc_file M \<and> opens_first reg cfg FileBackend (as_ring Ring_file file_opener) \<and>
    makes file_opener (effective reg cfg) k0 \<and> file_ok c k0"
  "\<lambda>(k, w). (Ring_file k, w)" reg cfg
  for c k0 M reg cfg
proof (unfold_locales, goal_cases)
  case (6 s)
  have "Open reg cfg (snd s) = (Inr (Ring_file k0), snd s)"
    using 6(2) by (elim conjE) (rule Open_makes)
  with 6 show ?case by (intro exI [of _ "(k0, snd s)"]) (simp add: file_inv_def file_view_def split_beta)
qed (auto simp: emb_simps split: prod.splits)

text \<open>No call renames the collection of a secret service keyring.\<close>

definition keeps_name :: "('w secrets_state, 'a) call \<Rightarrow> bool" where
  "keeps_name m \<longleftrightarrow> (\<forall>s. sk_name (fst (snd (m s))) = sk_name (fst s))"

lemma keeps_nameD: "keeps_name m \<Longrightarrow> m s = (r, s') \<Longrightarrow> sk_name (fst s') = sk_name (fst s)"
  unfolding keeps_name_def by (metis snd_conv)

named_theorems keeps_intros

lemma keeps_tryE [keeps_intros]:
  assumes "keeps_name m" "\<And>a. keeps_name (f a)"
  shows "keeps_name (go_tryE h m f)"
  unfolding keeps_name_def
proof
  fix s
  show "sk_name (fst (snd (go_tryE h m f s))) = sk_name (fst s)"
    using keeps_nameD [OF assms(1), of s] assms(2) by (auto simp: go_tryE_def keeps_name_def split: prod.split sum.split)
qed

lemma keeps_try [keeps_intros]: "keeps_name m \<Longrightarrow> (\<And>a. keeps_name (f a)) \<Longrightarrow> keeps_name (go_try m f)"
  using keeps_tryE [of m f "\<lambda>e. e"] by (simp add: go_try_def go_tryE_def)

lemma keeps_basic [keeps_intros]:
  "keeps_name (on_world m)" "keeps_name (go_return a)" "keeps_name (go_fail e)" "keeps_name (go_lift r)"
  "keeps_name (with_collection p)"
  by (auto simp: keeps_name_def on_world_def call_simps with_collection_def split: prod.splits option.splits sum.splits)

lemma keeps_openSecrets [keeps_intros]: "keeps_name (openSecrets ls)"
  by (auto simp: keeps_name_def openSecrets_def Let_def split: prod.splits option.splits sum.splits)

lemma keeps_openCollection [keeps_intros]: "keeps_name (openCollection ls)"
  unfolding openCollection_def by (intro keeps_intros) (auto simp: keeps_name_def)

lemma keeps_unlock [keeps_intros]: "keeps_name (ensureCollectionUnlocked ls)"
  unfolding ensureCollectionUnlocked_def by (intro keeps_intros) (simp add: keeps_intros)

lemma keeps_at: "(\<And>k w. keeps_name (m k w)) \<Longrightarrow> keeps_name (\<lambda>(k, w). m k w (k, w))"
  by (auto simp: keeps_name_def)

lemma keeps_if: "keeps_name m \<Longrightarrow> keeps_name n \<Longrightarrow> keeps_name (if b then m else n)"
  by simp

lemma keeps_Get: "keeps_name (secrets_Get ls key)"
  unfolding secrets_Get_def Let_def by (intro keeps_intros keeps_if keeps_at)

lemma keeps_Set: "keeps_name (secrets_Set ls i)"
  unfolding secrets_Set_def Let_def
proof (rule keeps_try [OF keeps_openSecrets], rule keeps_try, goal_cases)
  case 1
  show ?case by (auto simp: keeps_name_def split: prod.splits sum.splits)
qed (intro keeps_intros keeps_at)

lemma keeps_Remove: "keeps_name (secrets_Remove ls key)"
  unfolding secrets_Remove_def Let_def by (intro keeps_intros keeps_if keeps_at)

lemma keeps_Keys: "keeps_name (secrets_Keys ls)"
proof -
  have "keeps_name (go_try (ensureCollectionUnlocked ls) (\<lambda>_.
      go_try (with_collection (ls_Items ls)) (\<lambda>items. on_world (label_loop ls [] items))))"
    by (intro keeps_intros)
  then have "sk_name (fst (snd (secrets_Keys ls s))) = sk_name (fst s)" for s
    using keeps_nameD [OF keeps_openCollection [of ls], of s]
    by (cases "openCollection ls s") (auto simp: keeps_name_def secrets_Keys_def split: sum.split)
  then show ?thesis by (simp add: keeps_name_def)
qed

text \<open>The name of the collection that a configuration stands for.\<close>

definition secrets_name :: "'w Config \<Rightarrow> string" where
  "secrets_name cfg = (if LibSecretCollectionName cfg \<noteq> [] then LibSecretCollectionName cfg
     else if ServiceName cfg \<noteq> [] then ServiceName cfg else ''secret-service'')"

definition serves_always :: "'w libsecret \<Rightarrow> 'w secret_store \<Rightarrow> bool" where
  "serves_always ls K \<longleftrightarrow> (\<forall>w. \<exists>w'. ls_NewService ls w = (Inr (), w') \<and> ss_frame K w w')"

lemma secrets_opener_lawful:
  assumes law: "lawful_secrets ls K fits" and always: "serves_always ls K"
  obtains k w' where "secrets_opener ls cfg w = (Inr k, w')" "ss_frame K w w'" "sk_name k = secrets_name cfg"
    "secrets_ok K w' k"
proof -
  from always obtain w1 where w1: "ls_NewService ls w = (Inr (), w1)" "ss_frame K w w1"
    unfolding serves_always_def by blast
  let ?k = "\<lparr>sk_name = secrets_name cfg, sk_collection = None, sk_session = []\<rparr>"
  have "secrets_ok K w1 ?k" by (simp add: secrets_ok_def)
  from openSecrets_lawful [OF law this] obtain k' w' where
    o: "openSecrets ls (?k, w1) = (Inr (), (k', w'))" "ss_frame K w1 w'" "sk_name k' = secrets_name cfg"
      "sk_collection k' = coll_of K w1 ?k" by (metis secretsKeyring.select_convs(1))
  have "secrets_opener ls cfg w = (Inr k', w')"
    using w1(1) o(1) by (simp add: secrets_opener_def Let_def secrets_name_def split: if_splits)
  moreover have "secrets_ok K w' k'"
    using o(3,4) coll_of_frame [OF o(2), of k' ?k] by (simp add: secrets_ok_def)
  ultimately show thesis using ss_frame_trans [OF w1(2) o(2)] o(3) by (intro that)
qed

interpretation secrets_again: reopening "secrets_inv fits" secrets_view "\<lambda>_. True" "secrets_okitem fits" "\<lambda>i. i"
  "\<lambda>key. secrets_lift (\<lambda>ls. secrets_Get ls key)" "\<lambda>i. secrets_lift (\<lambda>ls. secrets_Set ls i)"
  "\<lambda>key. secrets_lift (\<lambda>ls. secrets_Remove ls key)" "secrets_lift secrets_Keys" key_data M
  "\<lambda>s. se_ls s = mc_libsecret M \<and> serves_always (se_ls s) (se_store s) \<and> sk_name (fst (se_state s)) = secrets_name cfg \<and>
    opens_first reg cfg SecretServiceBackend (as_ring Ring_secret (secrets_opener (mc_libsecret M)))"
  "\<lambda>s. (Ring_secret (fst (se_state s)), snd (se_state s))" reg cfg
  for fits M reg cfg
proof (unfold_locales, goal_cases)
  case (6 s)
  let ?K = "se_store s"
  from 6 have law: "lawful_secrets (se_ls s) ?K fits" "serves_always (se_ls s) ?K" by (auto simp: secrets_inv_def)
  from secrets_opener_lawful [OF law, of "effective reg cfg" "snd (se_state s)"] obtain k w' where
    k: "secrets_opener (se_ls s) (effective reg cfg) (snd (se_state s)) = (Inr k, w')"
      "ss_frame ?K (snd (se_state s)) w'" "sk_name k = secrets_name cfg" "secrets_ok ?K w' k"
    by (metis secrets_name_def effective_fields(1,4))
  have first: "opens_first reg cfg SecretServiceBackend (as_ring Ring_secret (secrets_opener (mc_libsecret M)))"
    using 6 by simp
  have "as_ring Ring_secret (secrets_opener (mc_libsecret M)) (effective reg cfg) (snd (se_state s)) =
      (Inr (Ring_secret k), w')"
    using k(1) 6(2) by (simp add: as_ring_Inr)
  then have "Open reg cfg (snd (se_state s)) = (Inr (Ring_secret k), w')" by (rule Open_first [OF first])
  moreover have same: "secrets_map ?K (k, w') = secrets_map ?K (se_state s)"
    using secrets_map_frame [OF k(2), of k "fst (se_state s)"] k(3) 6(2) by simp
  moreover have "secrets_inv fits (s\<lparr>se_state := (k, w')\<rparr>)"
    using 6(1) k(4) by (simp add: secrets_inv_def same)
  moreover have "secrets_view (s\<lparr>se_state := (k, w')\<rparr>) = secrets_view s"
    by (rule ext) (simp add: secrets_view_def same)
  ultimately show ?case
    using 6(2) k(3) law(2) by (intro exI [of _ "s\<lparr>se_state := (k, w')\<rparr>"] conjI) simp_all
qed (auto simp: secrets_lift_def emb_simps split: prod.splits
  dest: keeps_nameD [OF keeps_Get] keeps_nameD [OF keeps_Set] keeps_nameD [OF keeps_Remove] keeps_nameD [OF keeps_Keys])

section \<open>Services that keep what is stored\<close>

text \<open>
  A world in which the service that a configuration leads to behaves as documented and holds the items
  \<open>m\<close> for it: a credential manager, a keychain, a Secret Service, or a directory of files.
\<close>

inductive persists :: "('w, 'c) machine \<Rightarrow> ('w, 'c) rings \<Rightarrow> 'w Config \<Rightarrow> (string \<Rightarrow> bool) \<Rightarrow> (Item \<Rightarrow> bool) \<Rightarrow> 'w \<Rightarrow>
    (string \<Rightarrow> (string \<times> bytes) option) \<Rightarrow> bool" for M reg cfg where
  in_wincred: "\<lbrakk>opens_first reg cfg WinCredBackend (as_ring Ring_wincred wincred_opener);
    makes wincred_opener (effective reg cfg) k; lawful_wincred (mc_wincred M) creds fits\<rbrakk> \<Longrightarrow>
    persists M reg cfg (\<lambda>_. True) (wincred_okitem fits) w
      (\<lambda>key. map_option (\<lambda>b. (key, b)) (creds w (credentialName k key)))"
| in_keychain: "\<lbrakk>opens_first reg cfg KeychainBackend (as_ring Ring_keychain keychain_opener);
    makes keychain_opener (effective reg cfg) k; lawful_keychain c; kx_api c = mc_keychain M; keychain_ok c k\<rbrakk> \<Longrightarrow>
    persists M reg cfg (\<lambda>key. key \<noteq> []) (keychain_okitem (isSynchronizable k)) w (account_items c w)"
| in_secrets: "\<lbrakk>opens_first reg cfg SecretServiceBackend (as_ring Ring_secret (secrets_opener (mc_libsecret M)));
    lawful_secrets (mc_libsecret M) K fits; serves_always (mc_libsecret M) K;
    k = \<lparr>sk_name = secrets_name cfg, sk_collection = None, sk_session = []\<rparr>;
    \<forall>pv\<in>ran (secrets_map K (k, w)). secrets_item pv \<noteq> None\<rbrakk> \<Longrightarrow>
    persists M reg cfg (\<lambda>_. True) (secrets_okitem fits) w
      (\<lambda>key. map_option key_data (Option.bind (secrets_map K (k, w) key) secrets_item))"
| in_files: "\<lbrakk>opens_first reg cfg FileBackend (as_ring Ring_file file_opener);
    makes file_opener (effective reg cfg) k; fc_env c = mc_file M; lawful_file c; file_ok c k; file_plain c w;
    holds_items (file_texts c w)\<rbrakk> \<Longrightarrow>
    persists M reg cfg (file_okkey c) (file_okitem c) w (data_view (items_view (file_texts c w)))"

lemma persists_cases:
  assumes "persists M reg cfg okkey okitem w m"
  obtains (wincred) fits k where "wincred_again.served fits M reg cfg (Ring_wincred k, w) m"
      "okkey = (\<lambda>_. True)" "okitem = wincred_okitem fits"
    | (keychain) c k where "keychain_again.served c k M reg cfg (Ring_keychain k, w) m"
      "okkey = (\<lambda>key. key \<noteq> [])" "okitem = keychain_okitem (isSynchronizable k)"
    | (secrets) fits k where "secrets_again.served fits M cfg reg (Ring_secret k, w) m"
      "okkey = (\<lambda>_. True)" "okitem = secrets_okitem fits"
    | (files) c k where "file_again.served c M reg cfg k (Ring_file k, w) m"
      "okkey = file_okkey c" "okitem = file_okitem c"
  using assms
proof cases
  case (in_wincred k creds fits)
  show thesis
    by (rule wincred [of fits k], unfold wincred_again.served_def)
      (use in_wincred in \<open>auto intro!: exI [of _ "\<lparr>ws_api = mc_wincred M, ws_store = creds, ws_keyring = k, ws_world = w\<rparr>"]
        simp: wincred_inv_def wincred_view_def option.map_ident\<close>)
next
  case (in_keychain k c)
  show thesis
    by (rule keychain [of c k], unfold keychain_again.served_def)
      (use in_keychain in \<open>auto intro!: exI [of _ "(k, w)"] simp: keychain_inv_def option.map_ident\<close>)
next
  case (in_secrets K fits k)
  show thesis
    by (rule secrets [of fits k], unfold secrets_again.served_def)
      (use in_secrets in \<open>auto intro!: exI [of _ "\<lparr>se_ls = mc_libsecret M, se_store = K, se_state = (k, w)\<rparr>"]
        simp: secrets_inv_def secrets_view_def secrets_ok_def\<close>)
next
  case (in_files k c)
  show thesis
    by (rule files [of c k], unfold file_again.served_def)
      (use in_files in \<open>auto intro!: exI [of _ "(k, w)"] simp: file_inv_def file_view_def data_view_def\<close>)
qed

text \<open>
  \<^bold>\<open>C3.\<close> What is stored outlives the program: over a credential manager, a macOS keychain, a Secret Service
  or a directory of files, any number of sessions, each of which opens a keyring with \<open>Open\<close>, makes calls
  and ends, works on one map. A program that opens the keyring after them is answered by \<open>Get\<close> as if
  all their calls had been made on one keyring, one after the other.
\<close>

theorem sessions_history:
  assumes "persists M reg cfg okkey okitem w m"
    and "\<forall>ps\<in>set pss. list_all (ok_kop okkey okitem) ps" and "okkey key"
  shows "get_answers key_data (fold (spec_kop key_data) (concat pss) m key)
    (open_get M reg cfg key (fold (session M reg cfg) pss w))"
  using assms(1)
proof (cases rule: persists_cases)
  case (wincred fits k)
  from wincred_again.sessions_answer_data [OF wincred(1)] assms(2,3) show ?thesis unfolding wincred(2,3) by blast
next
  case (keychain c k)
  from keychain_again.sessions_answer_data [OF keychain(1)] assms(2,3) show ?thesis unfolding keychain(2,3) by blast
next
  case (secrets fits k)
  from secrets_again.sessions_answer_data [OF secrets(1)] assms(2,3) show ?thesis unfolding secrets(2,3) by blast
next
  case (files c k)
  from file_again.sessions_answer_data [OF files(1)] assms(2,3) show ?thesis unfolding files(2,3) by blast
qed

lemma windows_opens_wincred:
  "AllowedBackends cfg = None \<or> AllowedBackends cfg = Some (AvailableBackends (windows_registry M)) \<Longrightarrow>
    opens_first (windows_registry M) cfg WinCredBackend (as_ring Ring_wincred wincred_opener)"
proof -
  assume "AllowedBackends cfg = None \<or> AllowedBackends cfg = Some (AvailableBackends (windows_registry M))"
  then have "\<exists>bs. AllowedBackends (effective (windows_registry M) cfg) = Some (WinCredBackend # bs)"
    by (auto simp: effective_def windows_available)
  moreover have "windows_registry M WinCredBackend = Some (as_ring Ring_wincred wincred_opener)"
    by (simp add: windows_registry_def init_wincred_def init_winhello_def backend_names)
  ultimately show ?thesis by (simp add: opens_first_def)
qed

lemma wincred_machine_persists:
  assumes "AllowedBackends cfg = None \<or> AllowedBackends cfg = Some (AvailableBackends (windows_registry wincred_machine))"
    and "ServiceName cfg = ''svc''" and "WinCredPrefix cfg = []"
  shows "persists wincred_machine (windows_registry wincred_machine) cfg (\<lambda>_. True) (wincred_okitem mem_fits) w
    (\<lambda>key. map_option (\<lambda>b. (key, b)) (map_of w (''keyring:svc:'' @ key)))"
proof -
  let ?k = "\<lparr>wk_name = ''svc'', wk_prefix = ''keyring''\<rparr>"
  have "makes wincred_opener (effective (windows_registry wincred_machine) cfg) ?k"
    using assms(2,3) by (simp add: makes_def wincred_opener_def Let_def call_simps)
  from in_wincred [OF windows_opens_wincred [OF assms(1)] this, where creds = map_of and fits = mem_fits and w = w] show ?thesis
    by (simp add: wincred_machine_def mem_wincred_lawful credentialName_def)
qed

theorem sessions_history_witness:
  "\<exists>i. open_get wincred_machine (windows_registry wincred_machine) (zero_Config\<lparr>ServiceName := ''svc''\<rparr>) ''b''
      (fold (session wincred_machine (windows_registry wincred_machine) (zero_Config\<lparr>ServiceName := ''svc''\<rparr>))
        [[KSet (zero_Item\<lparr>Key := ''b'', Data := Some ''3''\<rparr>)], [KRemove ''a'', KKeys]] [(''keyring:svc:a'', ''1'')]) = Inr i \<and>
    key_data i = (''b'', ''3'')"
proof -
  let ?cfg = "zero_Config\<lparr>ServiceName := ''svc''\<rparr>"
  let ?pss = "[[KSet (zero_Item\<lparr>Key := ''b'', Data := Some ''3''\<rparr>)], [KRemove ''a'', KKeys]]"
  have "persists wincred_machine (windows_registry wincred_machine) ?cfg (\<lambda>_. True) (wincred_okitem mem_fits)
      [(''keyring:svc:a'', ''1'')] (\<lambda>key. map_option (\<lambda>b. (key, b)) (map_of [(''keyring:svc:a'', ''1'')] (''keyring:svc:'' @ key)))"
    by (rule wincred_machine_persists) (simp_all add: zero_Config_def)
  from sessions_history [OF this, of ?pss "''b''"]
  show ?thesis by (simp add: wincred_okitem_def mem_fits_def key_data_def)
qed

end
