(* ===== verification/Terminal.thy ===== *)
theory Terminal
  imports File_Store
begin

text \<open>
  \<open>prompt.go\<close>: the prompt for a password on the terminal, and the file backend asking with it. The
  standard output and \<open>term.ReadPassword\<close> are parameters.
\<close>

section \<open>The prompt\<close>

record 'w terminal =
  tm_Print :: "string \<Rightarrow> 'w \<Rightarrow> 'w"
  tm_ReadPassword :: "('w, string) call"

text \<open>What \<open>fmt.Printf\<close> and \<open>fmt.Println\<close> report is dropped; a line is ended only after a password.\<close>

definition TerminalPrompt :: "'w terminal \<Rightarrow> 'w PromptFunc" where
  "TerminalPrompt tm prompt w =
     (case tm_ReadPassword tm (tm_Print tm (prompt @ '': '') w) of
        (Inl err, w) \<Rightarrow> (Inl err, w)
      | (Inr b, w) \<Rightarrow> (Inr b, tm_Print tm [CHR 0x0A] w))"

section \<open>A terminal and its user\<close>

text \<open>
  What the user will do at the next prompts (type a password, or end the prompt with an error), and what
  the terminal has shown so far. Neither touches a directory \<open>D\<close>.
\<close>

record 'w console =
  con_in :: "'w \<Rightarrow> string res list"
  con_out :: "'w \<Rightarrow> string"

definition lawful_terminal :: "'w terminal \<Rightarrow> 'w console \<Rightarrow> 'w file_dir \<Rightarrow> bool" where
  "lawful_terminal tm C D \<longleftrightarrow>
     (\<forall>s w. con_in C (tm_Print tm s w) = con_in C w \<and> con_out C (tm_Print tm s w) = con_out C w @ s \<and>
        fd_same D w (tm_Print tm s w)) \<and>
     (\<forall>w r rs. con_in C w = r # rs \<longrightarrow> (\<exists>w'. tm_ReadPassword tm w = (r, w') \<and> con_in C w' = rs \<and>
        con_out C w' = con_out C w \<and> fd_same D w w'))"

lemma fd_same_trans: "fd_same D w w1 \<Longrightarrow> fd_same D w1 w2 \<Longrightarrow> fd_same D w w2"
  by (simp add: fd_same_def)

lemma TerminalPrompt_lawful:
  assumes "lawful_terminal tm C D" "con_in C w = r # rs"
  shows "\<exists>w'. TerminalPrompt tm p w = (r, w') \<and> con_in C w' = rs \<and> fd_same D w w' \<and>
    con_out C w' = con_out C w @ p @ '': '' @ (case r of Inr _ \<Rightarrow> [CHR 0x0A] | Inl _ \<Rightarrow> [])"
proof -
  from assms(1) have print: "con_in C (tm_Print tm s w) = con_in C w" "con_out C (tm_Print tm s w) = con_out C w @ s"
    "fd_same D w (tm_Print tm s w)" for s w by (simp_all add: lawful_terminal_def)
  let ?w = "tm_Print tm (p @ '': '') w"
  from assms print(1) [of "p @ '': ''" w] obtain w1 where
    w1: "tm_ReadPassword tm ?w = (r, w1)" "con_in C w1 = rs" "con_out C w1 = con_out C ?w" "fd_same D ?w w1"
    unfolding lawful_terminal_def by fastforce
  show ?thesis
  proof (cases r)
    case (Inl err)
    with w1 fd_same_trans [OF print(3) w1(4)] show ?thesis
      by (intro exI [of _ w1]) (simp add: TerminalPrompt_def print(2))
  next
    case (Inr b)
    with w1 fd_same_trans [OF fd_same_trans [OF print(3) w1(4)] print(3)] show ?thesis
      by (intro exI [of _ "tm_Print tm [CHR 0x0A] w1"]) (simp add: TerminalPrompt_def print)
  qed
qed

section \<open>Unlocking the file backend on a terminal\<close>

text \<open>The answers of \<open>n\<close> calls of \<open>Get\<close> in a row.\<close>

fun gets :: "'w file_env \<Rightarrow> string \<Rightarrow> nat \<Rightarrow> 'w file_state \<Rightarrow> Item res list" where
  "gets env key 0 s = []"
| "gets env key (Suc n) s = (case file_Get env key s of (r, s') \<Rightarrow> r # gets env key n s')"

text \<open>\<open>Get\<close> of an item that is there, up to the password.\<close>

lemma file_Get_present:
  assumes "lawful_dir (fe_os env) D dir okname" "fd_exists D w"
    and "ExpandTilde (fe_os env) False (fk_dir k) w = (Inr dir, w)" "fk_dir k \<noteq> []"
    and "okname (filenameEscape env key)" "fd_files D w (filenameEscape env key) = Some (b, t)"
  shows "resolveDir env k w = (Inr dir, w)"
    and "file_Get env key (k, w) =
      (case file_unlock env (k, w) of
         (Inl err, s) \<Rightarrow> (Inl err, s)
       | (Inr _, (k, w)) \<Rightarrow>
           (case jose_Decode env b (fk_password k) of
              Inl err \<Rightarrow> Inl err
            | Inr payload \<Rightarrow> json_Unmarshal_Item payload, (k, w)))"
proof -
  obtain st where "os_Stat (fe_os env) dir w = (Inr st, w)"
    using dir_laws(2) [OF assms(1,2)] by blast
  then show dir: "resolveDir env k w = (Inr dir, w)"
    using assms(3,4) by (simp add: resolveDir_def call_simps)
  have "os_ReadFile (fe_os env) (Join [dir, filenameEscape env key]) w = (Inr b, w)"
    using file_laws(2) [OF assms(1,2,5,6)] by simp
  with dir show "file_Get env key (k, w) =
      (case file_unlock env (k, w) of
         (Inl err, s) \<Rightarrow> (Inl err, s)
       | (Inr _, (k, w)) \<Rightarrow>
           (case jose_Decode env b (fk_password k) of
              Inl err \<Rightarrow> Inl err
            | Inr payload \<Rightarrow> json_Unmarshal_Item payload, (k, w)))"
    by (simp add: file_Get_def with_filename_def file_filename_def on_world_def call_simps del: Join.simps
        split: prod.split sum.split)
qed

lemma gets_known_password:
  assumes "lawful_dir (fe_os env) D dir okname" "fd_exists D w"
    and "ExpandTilde (fe_os env) False (fk_dir k) w = (Inr dir, w)" "fk_dir k \<noteq> []"
    and "okname (filenameEscape env key)" "fd_files D w (filenameEscape env key) = Some (b, t)"
    and "fk_password k \<noteq> []" "jose_Decode env b (fk_password k) = Inr payload" "json_Unmarshal_Item payload = Inr i"
  shows "gets env key n (k, w) = replicate n (Inr i)"
proof -
  from file_Get_present [OF assms(1-6)] assms(7-9) have "file_Get env key (k, w) = (Inr i, (k, w))"
    by (simp add: file_unlock_def)
  then show ?thesis by (induction n) simp_all
qed

text \<open>
  \<^bold>\<open>C33.\<close> A prompt that is cancelled costs nothing: when the user of the terminal ends the prompt for the
  password any number of times, each \<open>Get\<close> reports the error of its own prompt; the first \<open>Get\<close> at
  which the password is typed returns the item, and so does every \<open>Get\<close> after it, without asking.
\<close>

theorem file_Get_after_cancelled_prompts:
  assumes "lawful_dir (fe_os env) D dir okname" and "lawful_terminal tm C D" and "fd_exists D w"
    and "\<forall>w. ExpandTilde (fe_os env) False (fk_dir k) w = (Inr dir, w)" and "fk_dir k \<noteq> []"
    and "okname (filenameEscape env key)" and "fd_files D w (filenameEscape env key) = Some (b, t)"
    and "fk_password k = []" and "fk_passwordFunc k = Some (TerminalPrompt tm)"
    and "con_in C w = map Inl es @ [Inr pw]" and "pw \<noteq> []"
    and "jose_Decode env b pw = Inr payload" and "json_Unmarshal_Item payload = Inr i"
  shows "gets env key (length es + Suc n) (k, w) = map Inl es @ replicate (Suc n) (Inr i)"
  using assms(3,7,10)
proof (induction es arbitrary: w)
  case Nil
  let ?k = "k\<lparr>fk_password := pw\<rparr>" and ?p = "''Enter passphrase to unlock '' @ go_quote dir"
  note here = file_Get_present [OF assms(1) Nil(1) spec [OF assms(4)] assms(5,6) Nil(2)]
  from Nil(3) have "con_in C w = Inr pw # []" by simp
  from TerminalPrompt_lawful [OF assms(2) this] obtain w' where
    w': "TerminalPrompt tm ?p w = (Inr pw, w')" "fd_same D w w'" by blast
  from w'(1) have "file_unlock env (k, w) = (Inr (), (?k, w'))"
    using here(1) assms(8,9) by (simp add: file_unlock_def)
  then have "file_Get env key (k, w) = (Inr i, (?k, w'))" using here(2) assms(12,13) by simp
  moreover have "gets env key n (?k, w') = replicate n (Inr i)"
    by (rule gets_known_password [OF assms(1), where b = b and t = t and payload = payload])
      (use w'(2) Nil assms in \<open>simp_all add: fd_same_def\<close>)
  ultimately show ?case by simp
next
  case (Cons e es)
  let ?p = "''Enter passphrase to unlock '' @ go_quote dir"
  note here = file_Get_present [OF assms(1) Cons.prems(1) spec [OF assms(4)] assms(5,6) Cons.prems(2)]
  from Cons.prems(3) have "con_in C w = Inl e # (map Inl es @ [Inr pw])" by simp
  from TerminalPrompt_lawful [OF assms(2) this] obtain w' where
    w': "TerminalPrompt tm ?p w = (Inl e, w')" "fd_same D w w'" "con_in C w' = map Inl es @ [Inr pw]" by blast
  from w'(1) have "file_unlock env (k, w) = (Inl e, (k, w'))"
    using here(1) assms(8,9) by (simp add: file_unlock_def)
  then have "file_Get env key (k, w) = (Inl e, (k, w'))" using here(2) by simp
  moreover have "gets env key (length es + Suc n) (k, w') = map Inl es @ replicate (Suc n) (Inr i)"
    by (rule Cons.IH) (use w'(2,3) Cons.prems(1,2) in \<open>simp_all add: fd_same_def\<close>)
  ultimately show ?case by simp
qed

text \<open>The directory in memory, next to a terminal in memory.\<close>

type_synonym mem_desk = "mem_dir \<times> (string res list \<times> string)"

definition aside :: "('w, 'a) call \<Rightarrow> ('w \<times> 'v, 'a) call" where
  "aside m = (\<lambda>(w, v). case m w of (r, w') \<Rightarrow> (r, (w', v)))"

definition desk_os :: "mem_desk os_api" where
  "desk_os = \<lparr>os_UserHomeDir = aside (os_UserHomeDir md_os), os_LookupEnv = os_LookupEnv md_os,
     os_Stat = (\<lambda>p. aside (os_Stat md_os p)), os_MkdirAll = (\<lambda>p m. aside (os_MkdirAll md_os p m)),
     os_ReadFile = (\<lambda>p. aside (os_ReadFile md_os p)), os_WriteFile = (\<lambda>p b m. aside (os_WriteFile md_os p b m)),
     os_Remove = (\<lambda>p. aside (os_Remove md_os p)),
     os_ReadDir = (\<lambda>p (w, v). case os_ReadDir md_os p w of (ns, w') \<Rightarrow> (ns, (w', v))),
     os_Now = (\<lambda>(w, v). case os_Now md_os w of (s, w') \<Rightarrow> (s, (w', v)))\<rparr>"

definition desk_dir :: "mem_desk file_dir" where
  "desk_dir = \<lparr>fd_exists = fd_exists md_dir \<circ> fst, fd_files = fd_files md_dir \<circ> fst\<rparr>"

definition desk_env :: "mem_desk file_env" where
  "desk_env = \<lparr>fe_os = desk_os, percent_Encode = percent_Encode md_env, percent_Decode = percent_Decode md_env,
     jose_Encrypt = (\<lambda>p pw c. aside (jose_Encrypt md_env p pw c)), jose_Decode = jose_Decode md_env\<rparr>"

definition desk_terminal :: "mem_desk terminal" where
  "desk_terminal = \<lparr>tm_Print = (\<lambda>s (d, (i, out)). (d, (i, out @ s))),
     tm_ReadPassword = (\<lambda>(d, (i, out)). case i of [] \<Rightarrow> (Inl (Foreign ''EOF''), (d, (i, out)))
       | r # i \<Rightarrow> (r, (d, (i, out))))\<rparr>"

definition desk_console :: "mem_desk console" where
  "desk_console = \<lparr>con_in = fst \<circ> snd, con_out = snd \<circ> snd\<rparr>"

lemma desk_terminal_lawful: "lawful_terminal desk_terminal desk_console desk_dir"
  by (auto simp: lawful_terminal_def desk_terminal_def desk_console_def desk_dir_def fd_same_def)

lemma desk_dir_lawful: "lawful_dir desk_os desk_dir ''/d'' plain_part"
proof -
  have law: "lawful_dir md_os md_dir ''/d'' plain_part"
    using md_lawful by (simp add: lawful_file_def md_context_def md_env_def)
  show ?thesis
    unfolding lawful_dir_def
  proof (intro conjI allI impI, goal_cases)
    case (3 s)
    then show ?case
      using dir_laws(2,3) [OF law, of "fst s"] by (cases s) (fastforce simp: desk_os_def desk_dir_def aside_def)
  next
    case (4 s)
    show ?case
      using dir_laws(4) [OF law, of "fst s"] by (cases s) (fastforce simp: desk_os_def desk_dir_def fd_same_def)
  next
    case (5 s)
    then show ?case
      using dir_laws(5) [OF law, of "fst s"] by (cases s) (fastforce simp: desk_os_def desk_dir_def)
  next
    case (6 s n)
    then have ex: "fd_exists md_dir (fst s)" "plain_part n" by (simp_all add: desk_dir_def)
    note laws = file_laws(1,2) [OF law this]
    show ?case
    proof (cases "fd_files md_dir (fst s) n")
      case None
      with laws(1) show ?thesis
        by (cases s) (simp add: desk_os_def desk_dir_def aside_def del: Join.simps)
    next
      case (Some e)
      obtain b t where "e = (b, t)" by (cases e)
      with Some laws(2) [of b t] show ?thesis
        by (cases s) (auto simp add: desk_os_def desk_dir_def aside_def simp del: Join.simps)
    qed
  next
    case (7 s n b)
    then have ex: "fd_exists md_dir (fst s)" "plain_part n" by (simp_all add: desk_dir_def)
    from file_laws(3) [OF law ex, of b] show ?case
      by (cases s) (auto simp add: desk_os_def desk_dir_def aside_def simp del: Join.simps)
  qed simp_all
qed

theorem file_Get_after_cancelled_prompts_witness:
  "gets desk_env ''k'' 4 (\<lparr>fk_dir = ''/d'', fk_passwordFunc = Some (TerminalPrompt desk_terminal), fk_password = []\<rparr>,
      ((True, [(''k'', ''pw '' @ item.text_of zero_Item)]), ([Inl (Foreign ''^C''), Inl (Foreign ''^C''), Inr ''pw''], []))) =
    [Inl (Foreign ''^C''), Inl (Foreign ''^C''), Inr zero_Item, Inr zero_Item]"
proof -
  let ?k = "\<lparr>fk_dir = ''/d'', fk_passwordFunc = Some (TerminalPrompt desk_terminal), fk_password = []\<rparr>"
  let ?t = "item.text_of zero_Item" and ?es = "[Foreign ''^C'', Foreign ''^C'']"
  let ?w = "((True, [(''k'', ''pw '' @ ?t)]), ([Inl (Foreign ''^C''), Inl (Foreign ''^C''), Inr ''pw''], []))"
  have "utf8_Item zero_Item" by (simp add: utf8_Item_def zero_Item_def)
  then have "json_Unmarshal_Item ?t = Inr zero_Item" by (rule item.dec_text)
  moreover have "lawful_dir (fe_os desk_env) desk_dir ''/d'' plain_part"
    by (simp add: desk_env_def desk_dir_lawful)
  moreover have "fd_exists desk_dir ?w" by (simp add: desk_dir_def md_dir_def)
  moreover have "ExpandTilde (fe_os desk_env) False (fk_dir ?k) w = (Inr ''/d'', w)" for w
    by (simp add: ExpandTilde_exact)
  moreover have escape: "filenameEscape desk_env ''k'' = ''k''"
    by (simp add: filenameEscape_def desk_env_def md_env_def)
  then have "plain_part (filenameEscape desk_env ''k'')" by (simp add: plain_part_def)
  moreover have "fd_files desk_dir ?w (filenameEscape desk_env ''k'') = Some (''pw '' @ ?t, 1)"
    unfolding escape by (simp add: desk_dir_def md_dir_def md_files_def)
  moreover have "con_in desk_console ?w = map Inl ?es @ [Inr ''pw'']" by (simp add: desk_console_def)
  moreover have "jose_Decode desk_env (''pw '' @ ?t) ''pw'' = Inr ?t"
    using md_token [of "''pw''" ?t] by (simp add: desk_env_def md_env_def)
  ultimately have "gets desk_env ''k'' (length ?es + Suc 1) (?k, ?w) = map Inl ?es @ replicate (Suc 1) (Inr zero_Item)"
    by (intro file_Get_after_cancelled_prompts [OF _ desk_terminal_lawful, where k = ?k and okname = plain_part]) simp_all
  then show ?thesis by (simp add: numeral_eq_Suc del: gets.simps)
qed

end
