(* ===== verification/WH_Memory.thy ===== *)
theory WH_Memory
  imports WH_Crypto
begin

text \<open>
  \<open>winhello/crypto.go\<close> once more, with the byte slices the two functions make in a store of buffers: which
  of them exist, who is handed which, and that the deferred \<open>zeroBytes\<close> clears those that held a content
  key on every path. The detailed functions give the same results as those of \<open>WH_Crypto\<close>, where bytes
  are values. Not in the store is what the libraries keep for themselves: the key schedule of the AES
  block and the scratch space of \<open>encoding/json\<close>.
\<close>

section \<open>Buffers\<close>

text \<open>
  The buffers a program has made, by address, beside the rest of the world. Each is marked with what the
  code makes it for; no function looks at the mark.
\<close>

datatype buffer_use =
  Content_key | Wrap_input | Nonce_buffer | Ciphertext_buffer | Wrapped_key | AAD_copy | Encoded | Plaintext

type_synonym buffers = "(buffer_use \<times> bytes) list"
type_synonym 'w mem = "'w \<times> buffers"

definition at :: "buffers \<Rightarrow> nat \<Rightarrow> bytes" where
  "at h a = snd (h ! a)"

definition new_buffer :: "buffer_use \<Rightarrow> bytes \<Rightarrow> ('w mem, nat) call" where
  "new_buffer u b = (\<lambda>(w, h). (Inr (length h), (w, h @ [(u, b)])))"

definition contents :: "nat \<Rightarrow> ('w mem, bytes) call" where
  "contents a = (\<lambda>(w, h). (Inr (at h a), (w, h)))"

definition overwrite :: "nat \<Rightarrow> bytes \<Rightarrow> buffers \<Rightarrow> buffers" where
  "overwrite a b h = h[a := (fst (h ! a), b)]"

fun zero_loop :: "nat list \<Rightarrow> bytes \<Rightarrow> bytes" where
  "zero_loop [] buf = buf"
| "zero_loop (i # is) buf = zero_loop is (buf[i := CHR 0x00])"

definition zeroBytes :: "nat \<Rightarrow> 'w mem \<Rightarrow> 'w mem" where
  "zeroBytes a = (\<lambda>(w, h). (w, overwrite a (zero_loop [0..<length (at h a)] (at h a)) h))"

text \<open>\<open>defer\<close>: what is deferred runs when the function ends, also when it ends with an error or panics.\<close>

definition go_defer :: "('s \<Rightarrow> 's) \<Rightarrow> ('s, 'a) call \<Rightarrow> ('s, 'a) call" where
  "go_defer f m s = (case m s of (r, s') \<Rightarrow> (r, f s'))"

text \<open>
  \<open>io.ReadFull\<close> fills a buffer; when it fails, it may have filled it in part. \<open>Seal\<close> and \<open>Open\<close> with a nil
  destination return a new slice.
\<close>

record 'w mem_crypto =
  mem_ReadFull :: "bytes \<Rightarrow> 'w \<Rightarrow> (goerr option \<times> bytes) \<times> 'w"
  mem_seal :: "bytes \<Rightarrow> bytes \<Rightarrow> bytes \<Rightarrow> bytes \<Rightarrow> bytes"
  mem_open :: "bytes \<Rightarrow> bytes \<Rightarrow> bytes \<Rightarrow> bytes \<Rightarrow> bytes option"

definition fill :: "'w mem_crypto \<Rightarrow> nat \<Rightarrow> ('w mem, unit) call" where
  "fill c a = (\<lambda>(w, h).
     (case mem_ReadFull c (at h a) w of
        ((Some err, b), w) \<Rightarrow> (Inl err, (w, overwrite a b h))
      | ((None, b), w) \<Rightarrow> (Inr (), (w, overwrite a b h))))"

text \<open>A wrapper is handed the address of the key it is to wrap or unwrap, and answers with the address of one.\<close>

record 'w mem_wrapper =
  mem_WrapKey :: "nat \<Rightarrow> ('w mem, nat) call"
  mem_UnwrapKey :: "nat \<Rightarrow> string \<Rightarrow> ('w mem, nat) call"

section \<open>Envelope encryption\<close>

definition encrypt_mem ::
  "'w mem_crypto \<Rightarrow> slice \<Rightarrow> bytes \<Rightarrow> string \<Rightarrow> 'w mem_wrapper option \<Rightarrow> ('w mem, nat) call" where
  "encrypt_mem c plaintext aad keyName wrapper =
     (case wrapper of
        None \<Rightarrow> go_fail errWinHelloKeyWrapper
      | Some wrapper \<Rightarrow>
          if length aad = 0 then go_fail errWinHelloMissingAAD
          else if keyName = '''' then go_fail errWinHelloEnvelopeKeyName
          else
            go_try (new_buffer Content_key (replicate winHelloCEKSize CHR 0x00)) (\<lambda>cek. go_defer (zeroBytes cek) (
            go_tryE (wrap_errs ''random'' [errWinHelloRandom]) (fill c cek) (\<lambda>_.
            go_try (contents cek) (\<lambda>key.
            go_tryE (wrap_errs ''encrypt'' [errWinHelloEncrypt]) (go_lift (aes_NewCipher key)) (\<lambda>block.
            go_try (new_buffer Nonce_buffer (replicate 12 CHR 0x00)) (\<lambda>nonce.
            go_tryE (wrap_errs ''random'' [errWinHelloRandom]) (fill c nonce) (\<lambda>_.
            go_try (contents nonce) (\<lambda>n.
            go_try (new_buffer Ciphertext_buffer (mem_seal c block n (bytes_of plaintext) aad)) (\<lambda>ciphertext.
            go_try (contents cek) (\<lambda>key.
            go_try (new_buffer Wrap_input key) (\<lambda>wrapInput. go_defer (zeroBytes wrapInput) (
            go_tryE (wrap_errs ''wrap'' [errWinHelloWrapKey]) (mem_WrapKey wrapper wrapInput) (\<lambda>wrappedCEK.
            go_try (new_buffer AAD_copy aad) (\<lambda>aad.
            go_try (contents nonce) (\<lambda>n. go_try (contents wrappedCEK) (\<lambda>wk.
            go_try (contents ciphertext) (\<lambda>ct. go_try (contents aad) (\<lambda>a.
            go_try (go_lift (envelope_marshal
                \<lparr>env_Version = winHelloEnvelopeVersion, env_Provider = winHelloProviderPassportKSP,
                 env_KeyName = keyName, env_ContentAlg = winHelloContentAlgAES256GCM,
                 env_WrapAlg = winHelloWrapAlgRSAPKCS1v15, env_Nonce = Some n,
                 env_WrappedCEK = Some wk, env_Ciphertext = Some ct, env_AAD = Some a\<rparr>))
              (new_buffer Encoded))))))))))))))))))))"

text \<open>The slices of a parsed envelope are made by the decoder.\<close>

definition decrypt_mem ::
  "'w crypto_env \<Rightarrow> bytes \<Rightarrow> bytes \<Rightarrow> string \<Rightarrow> 'w mem_wrapper option \<Rightarrow> string \<Rightarrow> ('w mem, nat) call" where
  "decrypt_mem c encoded aad expectedKeyName wrapper ctx =
     (case wrapper of
        None \<Rightarrow> go_fail errWinHelloKeyWrapper
      | Some wrapper \<Rightarrow>
          if length aad = 0 then go_fail errWinHelloMissingAAD
          else if expectedKeyName = '''' then go_fail errWinHelloEnvelopeKeyName
          else
            go_try (go_lift (parseWinHelloEnvelope encoded)) (\<lambda>envelope.
            go_try (new_buffer Nonce_buffer (bytes_of (env_Nonce envelope))) (\<lambda>nonce.
            go_try (new_buffer Wrapped_key (bytes_of (env_WrappedCEK envelope))) (\<lambda>wrappedCEK.
            go_try (new_buffer Ciphertext_buffer (bytes_of (env_Ciphertext envelope))) (\<lambda>ciphertext.
            go_try (new_buffer AAD_copy (bytes_of (env_AAD envelope))) (\<lambda>stored.
            go_try (contents stored) (\<lambda>storedAAD.
            if env_KeyName envelope \<noteq> expectedKeyName then go_fail errWinHelloKeyNameMismatch
            else if storedAAD \<noteq> aad then go_fail errWinHelloAADMismatch
            else
              go_tryE (wrap_errs ''unwrap'' [errWinHelloUnwrapKey])
                (mem_UnwrapKey wrapper wrappedCEK ctx) (\<lambda>cek. go_defer (zeroBytes cek) (
              go_try (contents cek) (\<lambda>key.
              go_tryE (wrap_errs ''decrypt'' [errWinHelloDecrypt]) (go_lift (aes_NewCipher key)) (\<lambda>block.
              go_try (contents nonce) (\<lambda>n. go_try (contents ciphertext) (\<lambda>ct.
              go_tryE (wrap_errs ''decrypt'' [errWinHelloDecrypt])
                (go_lift (gcm_Open c block n ct aad)) (new_buffer Plaintext))))))))))))))"

section \<open>The same results, and no keys left\<close>

text \<open>The parameters of \<open>WH_Crypto\<close>, and a wrapper of keys that are values, over buffers.\<close>

definition values_crypto :: "'w mem_crypto \<Rightarrow> 'w crypto_env" where
  "values_crypto c =
     \<lparr>rand_ReadFull = (\<lambda>n w. case mem_ReadFull c (replicate n CHR 0x00) w of
        ((Some err, b), w) \<Rightarrow> (Inl err, w) | ((None, b), w) \<Rightarrow> (Inr b, w)),
      gcm_seal = mem_seal c, gcm_open = mem_open c\<rparr>"

definition on_buffers :: "'w winHelloKeyWrapper \<Rightarrow> 'w mem_wrapper" where
  "on_buffers wrapper =
     \<lparr>mem_WrapKey = (\<lambda>a (w, h). case WrapKey wrapper (at h a) w of
        (Inl err, w) \<Rightarrow> (Inl err, (w, h)) | (Inr wk, w) \<Rightarrow> (Inr (length h), (w, h @ [(Wrapped_key, wk)]))),
      mem_UnwrapKey = (\<lambda>a ctx (w, h). case UnwrapKey wrapper (at h a) ctx w of
        (Inl err, w) \<Rightarrow> (Inl err, (w, h)) | (Inr cek, w) \<Rightarrow> (Inr (length h), (w, h @ [(Content_key, cek)])))\<rparr>"

definition zeros :: "bytes \<Rightarrow> bool" where
  "zeros b \<longleftrightarrow> set b \<subseteq> {CHR 0x00}"

lemma zero_loop_nth:
  "length (zero_loop is b) = length b \<and> (\<forall>i<length b. zero_loop is b ! i = (if i \<in> set is then CHR 0x00 else b ! i))"
  by (induction "is" arbitrary: b) (auto simp: nth_list_update)

lemma zeros_loop: "zeros (zero_loop [0..<length b] b)"
  using zero_loop_nth [of "[0..<length b]" b] by (auto simp: zeros_def in_set_conv_nth)

text \<open>Buffers that held a content key: what is read through their addresses is nothing but zeros.\<close>

fun keys_cleared :: "buffers \<Rightarrow> bool" where
  "keys_cleared [] \<longleftrightarrow> True"
| "keys_cleared ((u, b) # h) \<longleftrightarrow> (u \<notin> {Content_key, Wrap_input} \<or> zeros b) \<and> keys_cleared h"

text \<open>What the caller gets: the bytes in the buffer whose address is returned.\<close>

fun result :: "buffers \<Rightarrow> nat res \<Rightarrow> bytes res" where
  "result h (Inl err) = Inl err"
| "result h (Inr a) = Inr (at h a)"

text \<open>The buffers of the two functions, in the order in which they are made.\<close>

definition encrypt_buffers :: "buffer_use list" where
  "encrypt_buffers =
     [Content_key, Nonce_buffer, Ciphertext_buffer, Wrap_input, Wrapped_key, AAD_copy, Encoded]"

definition decrypt_buffers :: "buffer_use list" where
  "decrypt_buffers = [Nonce_buffer, Wrapped_key, Ciphertext_buffer, AAD_copy, Content_key, Plaintext]"

lemmas mem_simps = call_simps go_defer_def new_buffer_def contents_def fill_def zeroBytes_def on_buffers_def
  values_crypto_def at_def overwrite_def

text \<open>A run over buffers that does what a run over values did, and leaves the marked buffers behind.\<close>

definition same_run :: "buffer_use list \<Rightarrow> buffers \<Rightarrow> nat res \<times> 'w mem \<Rightarrow> bytes res \<times> 'w \<Rightarrow> bool" where
  "same_run us h run v \<longleftrightarrow> (\<exists>bs n. snd (snd run) = h @ bs \<and> map fst bs = take n us \<and> keys_cleared bs \<and>
     v = (result (h @ bs) (fst run), fst (snd run)))"

lemma same_runI:
  assumes "v = (result (h @ bs) r, w)" "map fst bs = take (length bs) us" "keys_cleared bs"
    "run = (r, (w, h @ bs))"
  shows "same_run us h run v"
  using assms by (auto simp: same_run_def)

lemma encrypt_same_run:
  "same_run encrypt_buffers h (encrypt_mem c plaintext aad keyName (map_option on_buffers wrapper) (w, h))
     (encryptWinHelloEnvelope (values_crypto c) plaintext aad keyName wrapper w)"
proof (cases "wrapper = None \<or> aad = [] \<or> keyName = []")
  case True
  then show ?thesis
    by (auto intro!: same_runI [where bs = "[]"] simp: encrypt_mem_def encryptWinHelloEnvelope_def mem_simps
        split: option.split)
next
  case False
  then obtain wr where wr: "wrapper = Some wr" and ok: "aad \<noteq> []" "keyName \<noteq> []" by auto
  note defs = encrypt_mem_def encryptWinHelloEnvelope_def mem_simps wr ok Let_def nth_append
    list_update_append zeros_loop winHelloCEKSize_def encrypt_buffers_def
  obtain e1 b1 w1 where 1: "mem_ReadFull c (replicate 32 CHR 0x00) w = ((e1, b1), w1)" by (metis surj_pair)
  obtain e2 b2 w2 where 2: "mem_ReadFull c (replicate 12 CHR 0x00) w1 = ((e2, b2), w2)" by (metis surj_pair)
  obtain r w3 where 3: "WrapKey wr b1 w2 = (r, w3)" by (metis surj_pair)
  let ?z = "\<lambda>u b. (u, zero_loop [0..<length b] b)"
  let ?ct = "\<lambda>block. mem_seal c block b2 (bytes_of plaintext) aad"
  let ?bs = "\<lambda>block. [?z Content_key b1, (Nonce_buffer, b2), (Ciphertext_buffer, ?ct block), ?z Wrap_input b1]"
  show ?thesis
  proof (cases e1)
    case (Some err)
    with 1 show ?thesis by (intro same_runI [where bs = "[?z Content_key b1]"]) (simp_all add: defs)
  next
    case None
    note e1 = this
    show ?thesis
    proof (cases "aes_NewCipher b1")
      case (Inl err)
      with 1 e1 show ?thesis by (intro same_runI [where bs = "[?z Content_key b1]"]) (simp_all add: defs)
    next
      case (Inr block)
      note aes = this
      show ?thesis
      proof (cases e2)
        case (Some err)
        with 1 2 e1 aes show ?thesis
          by (intro same_runI [where bs = "[?z Content_key b1, (Nonce_buffer, b2)]"]) (simp_all add: defs)
      next
        case None
        note e2 = this
        show ?thesis
        proof (cases r)
          case (Inl err)
          with 1 2 3 e1 e2 aes show ?thesis
            by (intro same_runI [where bs = "?bs block"]) (simp_all add: defs)
        next
          case (Inr wk)
          let ?e = "envelope_marshal
            \<lparr>env_Version = winHelloEnvelopeVersion, env_Provider = winHelloProviderPassportKSP,
             env_KeyName = keyName, env_ContentAlg = winHelloContentAlgAES256GCM,
             env_WrapAlg = winHelloWrapAlgRSAPKCS1v15, env_Nonce = Some b2,
             env_WrappedCEK = Some wk, env_Ciphertext = Some (?ct block), env_AAD = Some aad\<rparr>"
          show ?thesis
          proof (cases ?e)
            case (Inl err)
            with 1 2 3 e1 e2 aes Inr show ?thesis
              by (intro same_runI [where bs = "?bs block @ [(Wrapped_key, wk), (AAD_copy, aad)]"])
                (simp_all add: defs)
          next
            case (Inr b)
            with 1 2 3 e1 e2 aes \<open>r = Inr wk\<close> show ?thesis
              by (intro same_runI [where bs = "?bs block @ [(Wrapped_key, wk), (AAD_copy, aad), (Encoded, b)]"])
                (simp_all add: defs)
          qed
        qed
      qed
    qed
  qed
qed

lemma decrypt_same_run:
  "same_run decrypt_buffers h (decrypt_mem c encoded aad keyName (map_option on_buffers wrapper) ctx (w, h))
     (decryptWinHelloEnvelope c encoded aad keyName wrapper ctx w)"
proof (cases "wrapper = None \<or> aad = [] \<or> keyName = []")
  case True
  then show ?thesis
    by (auto intro!: same_runI [where bs = "[]"] simp: decrypt_mem_def decryptWinHelloEnvelope_def mem_simps
        split: option.split)
next
  case False
  then obtain wr where wr: "wrapper = Some wr" and ok: "aad \<noteq> []" "keyName \<noteq> []" by auto
  note defs = decrypt_mem_def decryptWinHelloEnvelope_def mem_simps wr ok Let_def nth_append
    list_update_append zeros_loop decrypt_buffers_def
  show ?thesis
  proof (cases "parseWinHelloEnvelope encoded")
    case (Inl err)
    then show ?thesis by (intro same_runI [where bs = "[]"]) (simp_all add: defs)
  next
    case (Inr e)
    note e = this
    let ?bs = "[(Nonce_buffer, bytes_of (env_Nonce e)), (Wrapped_key, bytes_of (env_WrappedCEK e)),
      (Ciphertext_buffer, bytes_of (env_Ciphertext e)), (AAD_copy, bytes_of (env_AAD e))]"
    let ?z = "\<lambda>b. (Content_key, zero_loop [0..<length b] b)"
    obtain r w1 where 1: "UnwrapKey wr (bytes_of (env_WrappedCEK e)) ctx w = (r, w1)" by (metis surj_pair)
    show ?thesis
    proof (cases "env_KeyName e = keyName \<and> bytes_of (env_AAD e) = aad")
      case False
      with e show ?thesis
        by (cases "env_KeyName e = keyName"; intro same_runI [where bs = ?bs]; simp_all add: defs)
    next
      case True
      show ?thesis
      proof (cases r)
        case (Inl err)
        with e 1 True show ?thesis by (intro same_runI [where bs = ?bs]) (simp_all add: defs)
      next
        case (Inr cek)
        let ?open = "\<lambda>block. gcm_Open c block (bytes_of (env_Nonce e)) (bytes_of (env_Ciphertext e)) aad"
        show ?thesis
        proof (cases "aes_NewCipher cek")
          case err: (Inl err)
          with e 1 True Inr show ?thesis
            by (intro same_runI [where bs = "?bs @ [?z cek]"]) (simp_all add: defs)
        next
          case block: (Inr block)
          show ?thesis
          proof (cases "?open block")
            case err: (Inl err)
            with e 1 True Inr block show ?thesis
              by (intro same_runI [where bs = "?bs @ [?z cek]"]) (simp_all add: defs)
          next
            case plaintext: (Inr p)
            with e 1 True Inr block show ?thesis
              by (intro same_runI [where bs = "?bs @ [?z cek, (Plaintext, p)]"]) (simp_all add: defs)
          qed
        qed
      qed
    qed
  qed
qed

text \<open>
  \<^bold>\<open>C18.\<close> Whatever the source of randomness, the cipher and the wrapper of keys do, and on every path, errors
  and panics included: encrypting and decrypting with the slices of the two functions in a store of
  buffers returns the same bytes or error as the functions on values, does the same to the world, and
  changes no buffer that was there. The buffers made are a first part of those listed, in this order:
  for encryption the content key, the nonce, the ciphertext, the copy of the key that is handed to the
  wrapper, the wrapped key, the copy of the associated data and the encoded envelope; for decryption the
  nonce, the wrapped key, the ciphertext and the associated data of the envelope, the unwrapped content
  key and the plaintext. The buffers of the content key and of its copy hold nothing but zeros at the
  end; the others are left as they are.
\<close>

theorem content_keys_cleared:
  "(case encrypt_mem c plaintext aad keyName (map_option on_buffers wrapper) (w, h) of (r, (w', h')) \<Rightarrow>
      encryptWinHelloEnvelope (values_crypto c) plaintext aad keyName wrapper w = (result h' r, w') \<and>
      (\<exists>bs n. h' = h @ bs \<and> keys_cleared bs \<and> map fst bs = take n
         [Content_key, Nonce_buffer, Ciphertext_buffer, Wrap_input, Wrapped_key, AAD_copy, Encoded])) \<and>
   (case decrypt_mem c' encoded aad keyName (map_option on_buffers wrapper) ctx (w, h) of (r, (w', h')) \<Rightarrow>
      decryptWinHelloEnvelope c' encoded aad keyName wrapper ctx w = (result h' r, w') \<and>
      (\<exists>bs n. h' = h @ bs \<and> keys_cleared bs \<and> map fst bs = take n
         [Nonce_buffer, Wrapped_key, Ciphertext_buffer, AAD_copy, Content_key, Plaintext]))"
  using encrypt_same_run [of h c plaintext aad keyName wrapper w]
    decrypt_same_run [of h c' encoded aad keyName wrapper ctx w]
  by (auto simp: same_run_def encrypt_buffers_def decrypt_buffers_def split: prod.split)

end
