(* ===== verification/Spec2Isabelle.thy ===== *)
theory Spec2Isabelle
  imports Keyring_API Array_Keyring Wincred OP_Standard OP_Connect OP_Accounts WH_Backend Keyctl_Kernel
    Secret_Service_Store KWallet File_Store Pass_Store Keychain_Store Keyring_CLI Sessions Terminal WH_Memory
begin

text \<open>
  A verification library for the Go package \<open>keyring\<close>, which stores secrets in whichever of many
  keyring services a machine offers.

  \<^bold>\<open>The program.\<close> \<open>keyring.go\<close> defines items, the interface \<open>Keyring\<close> (\<open>Get\<close>, \<open>GetMetadata\<close>, \<open>Set\<close>, \<open>Remove\<close>,
  \<open>Keys\<close>), the order in which backends are tried and \<open>Open\<close>. Every backend is one file (or the package
  \<open>winhello\<close>) that registers an opener and implements the interface over an outside service.
  \<open>cmd/keyring/main.go\<close> is a command line program over \<open>Open\<close> and the interface.

  \<^bold>\<open>Theories and source files.\<close>
  \<^item> \<open>Prelude\<close>: Go strings as byte strings, errors and wrapping (\<open>errors.Is\<close>), calls as functions from a
    world to a result and a world (\<open>go_try\<close> for the early return on an error), the functions of \<open>strings\<close>.
  \<^item> \<open>Keyring_API\<close>: \<open>keyring.go\<close>, \<open>config.go\<close>, \<open>prompt.go\<close>; the interface as the locales \<open>keyring_contract\<close> and
    \<open>keyring_reports_missing\<close>, with the lemma \<open>history\<close> on any sequence of calls.
  \<^item> \<open>Array_Keyring\<close>: \<open>array.go\<close>. \<open>Wincred_Service\<close>, \<open>Wincred\<close>: \<open>wincred.go\<close>. \<open>Namespace\<close>: names made of a prefix
    and a key, which several backends share.
  \<^item> \<open>Json_Text\<close>, \<open>Json\<close>, \<open>Item_Json\<close>: the part of \<open>encoding/json\<close>, \<open>encoding/base64\<close> and UTF-8 that the
    backends use to store items, with the round trip; the locale \<open>codec\<close> is their interface.
  \<^item> \<open>OP_Common\<close>, \<open>OP_Standard\<close>, \<open>OP_Connect\<close>, \<open>OP_Accounts\<close>: \<open>opcommon.go\<close>, \<open>opstandard.go\<close>, \<open>opconnect.go\<close>,
    \<open>opsrvaccount.go\<close> and \<open>opdesktop.go\<close>; the locales \<open>titled_vault\<close> and \<open>account_keyring\<close> hold what they share.
  \<^item> \<open>WH_Envelope\<close>, \<open>WH_Crypto\<close>, \<open>WH_NCrypt\<close>, \<open>WH_Passport\<close>, \<open>WH_Device\<close>, \<open>WH_Backend\<close>: the package \<open>winhello\<close> from
    the envelopes up to \<open>Backend\<close>, and \<open>winhello.go\<close>; the locale \<open>key_wrapper\<close> is what envelope encryption
    needs of the device. \<open>WH_Memory\<close>: encryption and decryption with the byte slices they make in a store,
    and the clearing of those that held keys.
  \<^item> \<open>Keyctl\<close>, \<open>Keyctl_Kernel\<close>: \<open>keyctl.go\<close> and what the kernel documents.
  \<^item> \<open>Secret_Service\<close>, \<open>Secret_Service_Store\<close>: \<open>secretservice.go\<close>. \<open>KWallet\<close>: \<open>kwallet.go\<close>.
  \<^item> \<open>Filepath\<close>: \<open>path/filepath\<close> (\<open>Clean\<close>, \<open>Join\<close>, \<open>Ext\<close>), the calls of \<open>os\<close>, and \<open>tilde.go\<close>.
    \<open>File_Keyring\<close>, \<open>File_Store\<close>: \<open>file.go\<close>. \<open>Pass\<close>, \<open>Pass_Store\<close>: \<open>pass.go\<close> and \<open>passage.go\<close>, which differ in
    names only, and \<open>filepath.Walk\<close>.
  \<^item> \<open>Keychain\<close>, \<open>Keychain_Store\<close>: \<open>keychain_macos.go\<close> and \<open>keychain_ios.go\<close>.
  \<^item> \<open>Terminal\<close>: \<open>TerminalPrompt\<close> of \<open>prompt.go\<close>, and the file backend asking with it.
  \<^item> \<open>Backends\<close>: the interface value \<open>ring\<close> of any backend and its methods \<open>ring_Get\<close> and so on; the
    \<open>init\<close> functions of all files and the registries they fill on Linux, Windows and macOS; what \<open>Open\<close>
    chooses there.
  \<^item> \<open>Any_Keyring\<close>: the contracts of the backends brought under the methods of the interface value, through
    the locale \<open>ring_backend\<close>, interpreted for each of the thirteen backends.
  \<^item> \<open>Sessions\<close>: programs that open a keyring one after the other, through the locale \<open>reopening\<close>.
  \<^item> \<open>Keyring_CLI\<close> and this theory: \<open>cmd/keyring/main.go\<close>, alone and over the backends.

  \<^bold>\<open>State and operations.\<close> A backend's struct is a record; a method that changes it works on the pair of
  the record and the world, one that does not takes the record as an argument. Each operation is the
  source's function with its guards and early returns in order. Errors are values; a panic (a nil
  pointer, an index or a slice out of range, a failed type assertion) is the outcome \<open>GoPanic\<close>, which
  nothing wraps or catches. Texts of errors are shortened.

  \<^bold>\<open>What is outside.\<close> Services and libraries that are not in the repository are records of functions, an
  argument of the definitions that call them. What their documentation promises, as far as the code
  relies on it, is a predicate named \<open>lawful_\<close> something, over an abstract view of the service's state.
  An instance in memory meets every such predicate, so the laws can hold; the witnesses of the
  properties run on these instances.

  \<^bold>\<open>Groups of lemmas.\<close> For every backend: the operations over a lawful service, one lemma each for every
  branch; the interpretation of \<open>keyring_contract\<close> (the keyring is a map from keys to items, or to their
  data where the backend keeps no more); and the property named \<open>_history\<close>, the refinement of a map by
  any sequence of calls. Over all backends together: \<open>any_keyring_history\<close>, the refinement of a map by
  any sequence of calls of the interface's methods; \<open>sessions_history\<close>, that what one program stores the
  next finds; \<open>platforms_open_default\<close>, what \<open>Open\<close> returns on each platform. Besides these: what
  \<open>Open\<close> picks; the JSON round trip; that every handle of the Passport key is freed and every buffer of a
  content key cleared on every path; that an envelope is bound to its service and key; the order in
  which settings are looked up; permissions and read loops of kernel keys; names of collections; paths
  and walks; and the places where the code does something other than one would expect, each as a
  theorem.

  \<^bold>\<open>Bounds and termination.\<close> All recursion is structural or has a measure, but for one loop: the read of a
  key's payload in \<open>keyctl.go\<close> tries again while the kernel reports a longer value than the buffer holds.
  It is a partial function, and \<open>keyctlRead_returns\<close> shows that it returns when the reported lengths are
  bounded. JSON is read by a lexer and a parser with an explicit stack, which like Go's refuses a nesting
  of more than 10000. Permissions, key numbers, status codes and NCrypt lengths are machine words.

  \<^bold>\<open>Not modelled.\<close> Logging (\<open>debugf\<close>, \<open>log\<close>), the parsing of flags, build tags that leave single
  backends out (the registry is an argument of \<open>Open\<close>, so that its own theorems hold for any choice of
  them), the file backend on Windows (\<open>path/filepath\<close> is that of Unix, and the backends expand a tilde as
  there; \<open>ExpandTilde\<close> itself is modelled for both), what the crypto libraries keep of a key in memory, and concurrent changes of a service
  while a call runs.
\<close>

section \<open>The command line program over any service that keeps what is stored\<close>

definition cli_allowed :: "('w, 'c) rings \<Rightarrow> cli_flags \<Rightarrow> BackendType list" where
  "cli_allowed reg flags = (if cf_backend flags \<noteq> [] then [cf_backend flags] else AvailableBackends reg)"

definition cli_config :: "('w, 'c) rings \<Rightarrow> cli_flags \<Rightarrow> 'w Config" where
  "cli_config reg flags = zero_Config\<lparr>ServiceName := cf_serviceName flags,
     AllowedBackends := Some (cli_allowed reg flags), KeychainName := cf_keychainName flags\<rparr>"

lemma persists_opens:
  assumes "persists M reg cfg okkey okitem w m"
  shows "\<exists>b opener. opens_first reg cfg b opener"
  using assms by cases blast+

lemma cli_allowed_nonempty:
  "opens_first reg (cli_config reg flags) b opener \<Longrightarrow> cli_allowed reg flags \<noteq> []"
  by (auto simp: opens_first_def effective_def cli_config_def)

text \<open>
  \<^bold>\<open>C37.\<close> The command line program stores and prints a secret: over a credential manager, a macOS keychain or
  a Secret Service that behaves as documented, run with a value to set it ends without an error, and run
  again without a value it prints exactly that value, whatever the service held before; with the backend
  named on the command line or left to the program, with or without debug messages.
\<close>

theorem cli_set_then_get:
  assumes "persists M reg (cli_config reg flags) okkey okitem w m"
    and "okitem (zero_Item\<lparr>Key := cf_keyName flags, Data := Some v\<rparr>)" and "v \<noteq> []"
    and "\<not> cf_listBackends flags" and "\<not> cf_listKeys flags"
    and "cf_backend flags = [] \<or> hasBackend reg (cf_backend flags)"
  shows "\<exists>w1. cli_main reg (ring_methods M) (flags\<lparr>cf_setValue := v\<rparr>) w = (Done [], w1) \<and>
    fst (cli_main reg (ring_methods M) (flags\<lparr>cf_setValue := []\<rparr>) w1) = Done v"
proof -
  from persists_opens [OF assms(1)] have some: "cli_allowed reg flags \<noteq> []" using cli_allowed_nonempty by blast
  note rest = assms(3) cli_config_def cli_allowed_def some assms(4-6)
  from assms(1) show ?thesis
  proof (cases rule: persists_cases)
    case (wincred fits k)
    from wincred_again.cli_two_runs [OF wincred(1) _ rest] assms(2) show ?thesis unfolding wincred(3) by blast
  next
    case (keychain c k)
    from keychain_again.cli_two_runs [OF keychain(1) _ rest] assms(2) show ?thesis unfolding keychain(3) by blast
  next
    case (secrets fits k)
    from secrets_again.cli_two_runs [OF secrets(1) _ rest] assms(2) show ?thesis unfolding secrets(3) by blast
  next
    case (files c k)
    from file_again.cli_two_runs [OF files(1) _ rest] assms(2) show ?thesis unfolding files(3) by blast
  qed
qed

definition sample_flags :: cli_flags where
  "sample_flags = \<lparr>cf_serviceName = ''svc'', cf_keyName = ''k'', cf_backend = [], cf_debug = True,
     cf_listBackends = False, cf_listKeys = False, cf_setValue = [], cf_keychainName = ''login''\<rparr>"

theorem cli_set_then_get_witness:
  "\<exists>w1. cli_main (windows_registry wincred_machine) (ring_methods wincred_machine)
      (sample_flags\<lparr>cf_setValue := ''secret''\<rparr>) [(''other'', ''2'')] = (Done [], w1) \<and>
    fst (cli_main (windows_registry wincred_machine) (ring_methods wincred_machine)
      (sample_flags\<lparr>cf_setValue := []\<rparr>) w1) = Done ''secret''"
proof -
  have "persists wincred_machine (windows_registry wincred_machine)
      (cli_config (windows_registry wincred_machine) sample_flags) (\<lambda>_. True) (wincred_okitem mem_fits) [(''other'', ''2'')]
      (\<lambda>key. map_option (\<lambda>b. (key, b)) (map_of [(''other'', ''2'')] (''keyring:svc:'' @ key)))"
    by (rule wincred_machine_persists) (simp_all add: cli_config_def cli_allowed_def sample_flags_def zero_Config_def)
  from cli_set_then_get [OF this, of "''secret''"] show ?thesis
    by (simp add: sample_flags_def wincred_okitem_def mem_fits_def)
qed

section \<open>The command line program over the file backend\<close>

text \<open>
  \<^bold>\<open>C40.\<close> The command line program cannot use the file backend: it opens one, since its opener never fails,
  but passes it no directory, so that listing, setting and getting all end with the same error.
\<close>

theorem cli_file_backend_unusable:
  assumes "cf_backend flags = FileBackend" and "reg FileBackend = Some (as_ring Ring_file file_opener)"
    and "\<not> cf_listBackends flags"
  shows "cli_main reg (ring_methods M) flags w =
    (Fatal [] (let e = Textf ''no directory provided for file keyring'' [] in
       if cf_listKeys flags then Textf ''Failed to list keys: %#v'' [e] else e), w)"
proof -
  let ?k = "\<lparr>fk_dir = [], fk_passwordFunc = None, fk_password = []\<rparr>"
  have "cli_main reg (ring_methods M) flags w =
      (case finish (run_action (ring_methods M) flags [FileBackend]) (Ring_file ?k, w) of (out, (k, w)) \<Rightarrow> (out, w))"
    by (rule cli_named_backend [where reg = reg and opener = "as_ring Ring_file file_opener", OF assms(3,1) _ _ assms(2)])
      (simp_all add: as_ring_def call_simps file_opener_def go_return_def zero_Config_def backendOrder_def backend_names)
  then show ?thesis
    using item.enc_text
    by (simp add: run_action_def finish_def call_simps emb_simps file_Keys_def file_Set_def file_Get_def
        resolveDir_def with_filename_def file_filename_def file_unlock_def on_world_def)
qed

theorem cli_file_backend_unusable_witness:
  "cli_main (fst (linux_registry bare_machine (0 :: nat))) (ring_methods bare_machine)
      (sample_flags\<lparr>cf_backend := ''file''\<rparr>) 5 =
    (Fatal [] (Textf ''no directory provided for file keyring'' []), 5)"
proof -
  have "fst (linux_registry bare_machine (0 :: nat)) FileBackend = Some (as_ring Ring_file file_opener)"
    using platforms_named(3) [of bare_machine "0 :: nat"] by (simp add: rings_named_def)
  from cli_file_backend_unusable [where flags = "sample_flags\<lparr>cf_backend := ''file''\<rparr>" and M = bare_machine
      and w = 5 and reg = "fst (linux_registry bare_machine (0 :: nat))", OF _ this]
  show ?thesis by (simp add: sample_flags_def FileBackend_def)
qed

end
